(* ===== verification/Prelude.thy ===== *)
theory Prelude
  imports Main "HOL-Library.Word" "HOL-Library.Monad_Syntax"
begin

text \<open>
  Shared vocabulary of the development: machine integer types of the 32-bit ARM target,
  the crash value, errno numbers, bitmap search, and the generic lemmas on options, lists,
  function updates and bounded sums that the component proofs use.
\<close>

unbundle bit_operations_syntax

section \<open>Machine integers and errno\<close>

text \<open>
  The target is ILP32 (the binaries under test/ and benchmark*/ are armeabi), so
  \<open>unsigned int\<close> and \<open>unsigned long\<close> are 32 bits wide and \<open>u64\<close> 64 bits. A C \<open>int\<close> is a
  HOL \<open>int\<close> where its range is bounded by the code, and a word where it wraps.
\<close>

type_synonym u32 = "32 word"
type_synonym u64 = "64 word"
type_synonym ulong = "32 word"

definition EPERM :: int where "EPERM = 1"
definition ESRCH :: int where "ESRCH = 3"
definition ENOMEM :: int where "ENOMEM = 12"
definition EACCES :: int where "EACCES = 13"
definition EFAULT :: int where "EFAULT = 14"
definition EBUSY :: int where "EBUSY = 16"
definition EINVAL :: int where "EINVAL = 22"
definition ERESTARTSYS :: int where "ERESTARTSYS = 512"

lemmas errno_defs = EPERM_def ESRCH_def ENOMEM_def EACCES_def EFAULT_def EBUSY_def
  EINVAL_def ERESTARTSYS_def

named_theorems crash_simps \<open>unfolding of the crash monad\<close>
named_theorems frame_simps \<open>what an operation leaves unchanged\<close>

section \<open>Crashing\<close>

text \<open>
  Kernel code that hits \<open>BUG()\<close>, dereferences NULL or corrupts a list does not return. Every
  operation of the model that can do so returns an \<open>option\<close>, and \<open>None\<close> is that crash.
\<close>

definition BUG_ON :: "bool \<Rightarrow> unit option" where
  "BUG_ON b = (if b then None else Some ())"

lemma BUG_ON_simps [simp, crash_simps]: "BUG_ON False = Some ()" "BUG_ON True = None"
  by (simp_all add: BUG_ON_def)

lemma BUG_ON_bind [crash_simps]:
  "Option.bind (BUG_ON b) f = (if b then None else f ())"
  by (simp add: BUG_ON_def)

lemma bindE:
  assumes "Option.bind x f = Some y"
  obtains z where "x = Some z" "f z = Some y"
  using assms by (cases x) auto

lemma bind_SomeD: "Option.bind x f = Some y \<Longrightarrow> \<exists>z. x = Some z \<and> f z = Some y"
  by (cases x) auto

section \<open>Bitmaps\<close>

text \<open>
  \<open>DECLARE_BITMAP(bitmap, N)\<close> is a predicate on bit numbers. The search functions return
  the first set bit at or after an offset, or the sz when there is none.
\<close>

type_synonym bitmap = "nat \<Rightarrow> bool"

definition find_next_bit :: "bitmap \<Rightarrow> nat \<Rightarrow> nat \<Rightarrow> nat" where
  "find_next_bit b sz off =
     (case List.find b [off..<sz] of Some i \<Rightarrow> i | None \<Rightarrow> sz)"

lemma find_next_bit_hit:
  assumes "off \<le> i" "i < sz" "b i" "\<And>j. off \<le> j \<Longrightarrow> j < i \<Longrightarrow> \<not> b j"
  shows "find_next_bit b sz off = i"
proof -
  have "List.find b [off..<sz] = Some i"
    unfolding find_Some_iff using assms
    by (intro exI [of _ "i - off"]) auto
  then show ?thesis by (simp add: find_next_bit_def)
qed

lemma find_next_bit_miss:
  "(\<And>j. off \<le> j \<Longrightarrow> j < sz \<Longrightarrow> \<not> b j) \<Longrightarrow> find_next_bit b sz off = sz"
proof -
  assume none: "\<And>j. off \<le> j \<Longrightarrow> j < sz \<Longrightarrow> \<not> b j"
  then have "List.find b [off..<sz] = None" by (simp add: find_None_iff)
  then show ?thesis by (simp add: find_next_bit_def)
qed

lemma find_next_bit_cases:
  obtains (miss) "find_next_bit b sz off = sz" "\<And>j. off \<le> j \<Longrightarrow> j < sz \<Longrightarrow> \<not> b j"
  | (hit) "off \<le> find_next_bit b sz off" "find_next_bit b sz off < sz"
      "b (find_next_bit b sz off)" "\<And>j. off \<le> j \<Longrightarrow> j < find_next_bit b sz off \<Longrightarrow> \<not> b j"
proof (cases "List.find b [off..<sz]")
  case None
  then show thesis
    by (intro miss) (simp_all add: find_next_bit_def, simp add: find_None_iff)
next
  case (Some i)
  then obtain k where k: "k < sz - off" "i = off + k" "b i" "\<forall>m<k. \<not> b (off + m)"
    by (auto simp: find_Some_iff)
  have eq: "find_next_bit b sz off = i" using Some by (simp add: find_next_bit_def)
  have "\<not> b j" if "off \<le> j" "j < i" for j
    using that k(2) k(4)[rule_format, of "j - off"] by simp
  with eq k show thesis by (intro hit) auto
qed

lemma find_next_bit_least:
  assumes "off \<le> i" "i < sz" "b i"
  shows "off \<le> find_next_bit b sz off \<and> find_next_bit b sz off \<le> i \<and> b (find_next_bit b sz off)"
proof (cases rule: find_next_bit_cases [of b sz off])
  case miss
  with assms show ?thesis by blast
next
  case hit
  with assms show ?thesis by (meson not_less)
qed

lemma find_next_bit_le: "off \<le> sz \<Longrightarrow> find_next_bit b sz off \<le> sz"
  by (cases rule: find_next_bit_cases [of b sz off]) auto

section \<open>Sums over the priority levels\<close>

lemma sum_fun_upd:
  fixes f :: "'i \<Rightarrow> nat"
  assumes "finite A" "a \<in> A"
  shows "(\<Sum>i\<in>A. (f(a := v)) i) + f a = (\<Sum>i\<in>A. f i) + v"
proof -
  have "(\<Sum>i\<in>A. (f(a := v)) i) = v + (\<Sum>i\<in>A - {a}. f i)"
    using assms by (subst sum.remove [OF assms]) (auto intro!: sum.cong)
  moreover have "(\<Sum>i\<in>A. f i) = f a + (\<Sum>i\<in>A - {a}. f i)"
    using assms by (rule sum.remove)
  ultimately show ?thesis by simp
qed

section \<open>Word arithmetic\<close>

lemma unat_inc:
  fixes n :: "'a::len word"
  assumes "unat n < 2 ^ LENGTH('a) - 1"
  shows "unat (n + 1) = Suc (unat n)"
  using assms by (simp add: unat_word_ariths)

lemma sint_small:
  fixes x :: u32
  assumes "x < 2 ^ 31"
  shows "sint x = int (unat x)"
proof -
  have "uint x < 2 ^ 31" using assms by (simp add: word_less_def)
  moreover have "0 \<le> uint x" by simp
  ultimately have "signed_take_bit 31 (uint x) = uint x"
    by (intro signed_take_bit_int_eq_self) linarith+
  then show ?thesis by (simp add: sint_uint)
qed

lemma sint_levelD:
  fixes x :: u32
  assumes "sint x = int i" "i < 100"
  shows "x = of_nat i" "unat x = i"
proof -
  have "x = word_of_int (sint x)" by simp
  then show x: "x = of_nat i" by (simp add: assms(1))
  show "unat x = i" using assms(2) by (simp add: x unat_of_nat)
qed

lemma unat_dec:
  fixes n :: "'a::len word"
  assumes "n \<noteq> 0"
  shows "unat (n - 1) = unat n - 1"
  using assms by (simp add: unat_minus_one)

end
