(* ===== verification/Sched_Defs.thy ===== *)
theory Sched_Defs
  imports Prelude
begin

text \<open>
  Constants and small predicates of linux/sched.h and kernel/sched.h: policies, task states,
  wake-up and queueing flags, priority ranges, timeslices, nice levels and the load weights.
  \<open>HZ\<close> is the kernel configuration's tick rate and stays a parameter.
\<close>

section \<open>Policies, states and flags\<close>

definition SCHED_NORMAL :: int where "SCHED_NORMAL = 0"
definition SCHED_FIFO :: int where "SCHED_FIFO = 1"
definition SCHED_RR :: int where "SCHED_RR = 2"
definition SCHED_BATCH :: int where "SCHED_BATCH = 3"
definition SCHED_IDLE :: int where "SCHED_IDLE = 5"
definition SCHED_WRR :: int where "SCHED_WRR = 6"
definition SCHED_RESET_ON_FORK :: int where "SCHED_RESET_ON_FORK = 0x40000000"

lemmas policy_defs = SCHED_NORMAL_def SCHED_FIFO_def SCHED_RR_def SCHED_BATCH_def
  SCHED_IDLE_def SCHED_WRR_def SCHED_RESET_ON_FORK_def

definition TASK_RUNNING :: u32 where "TASK_RUNNING = 0"
definition TASK_INTERRUPTIBLE :: u32 where "TASK_INTERRUPTIBLE = 1"
definition TASK_UNINTERRUPTIBLE :: u32 where "TASK_UNINTERRUPTIBLE = 2"
definition TASK_DEAD :: u32 where "TASK_DEAD = 64"
definition TASK_WAKEKILL :: u32 where "TASK_WAKEKILL = 128"
definition TASK_WAKING :: u32 where "TASK_WAKING = 256"
definition TASK_KILLABLE :: u32 where "TASK_KILLABLE = TASK_WAKEKILL OR TASK_UNINTERRUPTIBLE"
definition TASK_NORMAL :: u32 where "TASK_NORMAL = TASK_INTERRUPTIBLE OR TASK_UNINTERRUPTIBLE"

lemmas task_state_defs = TASK_RUNNING_def TASK_INTERRUPTIBLE_def TASK_UNINTERRUPTIBLE_def
  TASK_DEAD_def TASK_WAKEKILL_def TASK_WAKING_def TASK_KILLABLE_def TASK_NORMAL_def

definition PF_EXITING :: u32 where "PF_EXITING = 0x00000004"
definition PF_VCPU :: u32 where "PF_VCPU = 0x00000010"
definition PF_WQ_WORKER :: u32 where "PF_WQ_WORKER = 0x00000020"
definition PF_FROZEN :: u32 where "PF_FROZEN = 0x00010000"
definition PF_THREAD_BOUND :: u32 where "PF_THREAD_BOUND = 0x04000000"

lemmas pf_defs = PF_EXITING_def PF_VCPU_def PF_WQ_WORKER_def PF_FROZEN_def PF_THREAD_BOUND_def

definition WF_SYNC :: u32 where "WF_SYNC = 1"
definition WF_FORK :: u32 where "WF_FORK = 2"
definition WF_MIGRATED :: u32 where "WF_MIGRATED = 4"
definition ENQUEUE_WAKEUP :: u32 where "ENQUEUE_WAKEUP = 1"
definition ENQUEUE_HEAD :: u32 where "ENQUEUE_HEAD = 2"
definition ENQUEUE_WAKING :: u32 where "ENQUEUE_WAKING = 4"
definition DEQUEUE_SLEEP :: u32 where "DEQUEUE_SLEEP = 1"

lemmas queue_flag_defs = WF_SYNC_def WF_FORK_def WF_MIGRATED_def ENQUEUE_WAKEUP_def
  ENQUEUE_HEAD_def ENQUEUE_WAKING_def DEQUEUE_SLEEP_def

definition rt_policy :: "int \<Rightarrow> bool" where
  "rt_policy policy \<longleftrightarrow> policy = SCHED_FIFO \<or> policy = SCHED_RR"

definition wrr_policy :: "int \<Rightarrow> bool" where
  "wrr_policy policy \<longleftrightarrow> policy = SCHED_WRR"

section \<open>Priorities\<close>

definition MAX_USER_RT_PRIO :: int where "MAX_USER_RT_PRIO = 100"
definition MAX_USER_WRR_PRIO :: int where "MAX_USER_WRR_PRIO = 100"
definition MAX_RT_PRIO :: int where "MAX_RT_PRIO = MAX_USER_RT_PRIO"
definition MAX_WRR_PRIO :: int where "MAX_WRR_PRIO = MAX_USER_WRR_PRIO"
definition MAX_PRIO :: int where "MAX_PRIO = MAX_RT_PRIO + 40"
definition DEFAULT_PRIO :: int where "DEFAULT_PRIO = MAX_RT_PRIO + 20"

lemma max_prio_simps [simp]:
  "MAX_USER_RT_PRIO = 100" "MAX_USER_WRR_PRIO = 100" "MAX_RT_PRIO = 100" "MAX_WRR_PRIO = 100"
  "MAX_PRIO = 140" "DEFAULT_PRIO = 120"
  by (simp_all add: MAX_USER_RT_PRIO_def MAX_USER_WRR_PRIO_def MAX_RT_PRIO_def MAX_WRR_PRIO_def
      MAX_PRIO_def DEFAULT_PRIO_def)

definition rt_prio :: "int \<Rightarrow> bool" where
  "rt_prio prio \<longleftrightarrow> prio < MAX_RT_PRIO"

definition NICE_TO_PRIO :: "int \<Rightarrow> int" where
  "NICE_TO_PRIO nice = MAX_RT_PRIO + nice + 20"

definition PRIO_TO_NICE :: "int \<Rightarrow> int" where
  "PRIO_TO_NICE prio = prio - MAX_RT_PRIO - 20"

definition USER_PRIO :: "int \<Rightarrow> int" where
  "USER_PRIO p = p - MAX_RT_PRIO"

section \<open>Timeslices\<close>

definition RR_TIMESLICE :: "nat \<Rightarrow> u32" where
  "RR_TIMESLICE HZ = word_of_nat (100 * HZ div 1000)"

definition WRR_FORE_TIMESLICE :: "nat \<Rightarrow> u32" where
  "WRR_FORE_TIMESLICE HZ = word_of_nat (100 * HZ div 1000)"

definition WRR_BACK_TIMESLICE :: "nat \<Rightarrow> u32" where
  "WRR_BACK_TIMESLICE HZ = word_of_nat (10 * HZ div 1000)"

section \<open>Load weights\<close>

definition WEIGHT_IDLEPRIO :: ulong where "WEIGHT_IDLEPRIO = 3"
definition WMULT_IDLEPRIO :: ulong where "WMULT_IDLEPRIO = 1431655765"

definition prio_to_weight :: "int list" where
  "prio_to_weight =
    [88761, 71755, 56483, 46273, 36291,
     29154, 23254, 18705, 14949, 11916,
      9548,  7620,  6100,  4904,  3906,
      3121,  2501,  1991,  1586,  1277,
      1024,   820,   655,   526,   423,
       335,   272,   215,   172,   137,
       110,    87,    70,    56,    45,
        36,    29,    23,    18,    15]"

definition prio_to_wmult :: "ulong list" where
  "prio_to_wmult =
    [    48388,     59856,     76040,     92818,    118348,
        147320,    184698,    229616,    287308,    360437,
        449829,    563644,    704093,    875809,   1099582,
       1376151,   1717300,   2157191,   2708050,   3363326,
       4194304,   5237765,   6557202,   8165337,  10153587,
      12820798,  15790321,  19976592,  24970740,  31350126,
      39045157,  49367440,  61356676,  76695844,  95443717,
     119304647, 148102320, 186737708, 238609294, 286331153]"

end
