(* ===== verification/Klist.thy ===== *)
theory Klist
  imports Prelude
begin

text \<open>
  The kernel's intrusive circular lists (\<open>struct list_head\<close>), at the behaviour their
  interface documents. A list head \<open>h\<close> carries a sequence of entries; an entry is linked
  into at most one list, so the store also records where each entry is. Linking an entry
  that is already linked, or unlinking with \<open>list_del_rcu\<close> an entry that is not, corrupts
  memory: those operations crash (\<open>None\<close>). \<open>list_del_init\<close> on an unlinked entry is the
  harmless self-unlink the interface promises.
\<close>

record ('h, 'e) klist =
  items :: "'h \<Rightarrow> 'e list"
  owner :: "'e \<Rightarrow> 'h option"

definition klist_empty :: "('h, 'e) klist" where
  "klist_empty = \<lparr>items = (\<lambda>_. []), owner = (\<lambda>_. None)\<rparr>"

text \<open>\<open>INIT_LIST_HEAD\<close> on a head forgets its entries and does not touch them.\<close>

definition init_head :: "'h \<Rightarrow> ('h, 'e) klist \<Rightarrow> ('h, 'e) klist" where
  "init_head h L = L\<lparr>items := (items L)(h := [])\<rparr>"

definition list_add :: "'e \<Rightarrow> 'h \<Rightarrow> ('h, 'e) klist \<Rightarrow> ('h, 'e) klist option" where
  "list_add e h L = (case owner L e of
       Some _ \<Rightarrow> None
     | None \<Rightarrow> Some (L\<lparr>items := (items L)(h := e # items L h), owner := (owner L)(e := Some h)\<rparr>))"

definition list_add_tail :: "'e \<Rightarrow> 'h \<Rightarrow> ('h, 'e) klist \<Rightarrow> ('h, 'e) klist option" where
  "list_add_tail e h L = (case owner L e of
       Some _ \<Rightarrow> None
     | None \<Rightarrow> Some (L\<lparr>items := (items L)(h := items L h @ [e]), owner := (owner L)(e := Some h)\<rparr>))"

definition list_del_init :: "'e \<Rightarrow> ('h, 'e) klist \<Rightarrow> ('h, 'e) klist" where
  "list_del_init e L = (case owner L e of
       None \<Rightarrow> L
     | Some h \<Rightarrow> L\<lparr>items := (items L)(h := remove1 e (items L h)), owner := (owner L)(e := None)\<rparr>)"

definition list_del_rcu :: "'e \<Rightarrow> ('h, 'e) klist \<Rightarrow> ('h, 'e) klist option" where
  "list_del_rcu e L = (case owner L e of None \<Rightarrow> None | Some _ \<Rightarrow> Some (list_del_init e L))"

definition list_move :: "'e \<Rightarrow> 'h \<Rightarrow> ('h, 'e) klist \<Rightarrow> ('h, 'e) klist option" where
  "list_move e h L = list_add e h (list_del_init e L)"

definition list_move_tail :: "'e \<Rightarrow> 'h \<Rightarrow> ('h, 'e) klist \<Rightarrow> ('h, 'e) klist option" where
  "list_move_tail e h L = list_add_tail e h (list_del_init e L)"

text \<open>\<open>list_empty\<close> on a head, on an entry, and the comparison of an entry's two pointers.\<close>

definition head_empty :: "'h \<Rightarrow> ('h, 'e) klist \<Rightarrow> bool" where
  "head_empty h L \<longleftrightarrow> items L h = []"

definition linked :: "'e \<Rightarrow> ('h, 'e) klist \<Rightarrow> bool" where
  "linked e L \<longleftrightarrow> owner L e \<noteq> None"

definition prev_neq_next :: "'e \<Rightarrow> ('h, 'e) klist \<Rightarrow> bool" where
  "prev_neq_next e L \<longleftrightarrow> (case owner L e of None \<Rightarrow> False | Some h \<Rightarrow> 2 \<le> length (items L h))"

text \<open>\<open>list_entry (head->next)\<close>: the head itself, misread as an entry, when the list is empty.\<close>

definition first_entry :: "'h \<Rightarrow> ('h, 'e) klist \<Rightarrow> 'e option" where
  "first_entry h L = (case items L h of [] \<Rightarrow> None | e # _ \<Rightarrow> Some e)"

section \<open>The store's invariant\<close>

definition klist_ok :: "('h, 'e) klist \<Rightarrow> bool" where
  "klist_ok L \<longleftrightarrow> (\<forall>h. distinct (items L h)) \<and> (\<forall>e h. e \<in> set (items L h) \<longleftrightarrow> owner L e = Some h)"

lemma klist_okI:
  "(\<And>h. distinct (items L h)) \<Longrightarrow> (\<And>e h. e \<in> set (items L h) \<longleftrightarrow> owner L e = Some h) \<Longrightarrow> klist_ok L"
  by (simp add: klist_ok_def)

lemma klist_ok_distinct [simp]: "klist_ok L \<Longrightarrow> distinct (items L h)"
  by (simp add: klist_ok_def)

lemma klist_ok_owner: "klist_ok L \<Longrightarrow> e \<in> set (items L h) \<longleftrightarrow> owner L e = Some h"
  by (simp add: klist_ok_def)

lemma klist_ok_empty [simp]: "klist_ok klist_empty"
  by (simp add: klist_ok_def klist_empty_def)

lemma init_head_empty: "items L h = [] \<Longrightarrow> init_head h L = L"
  by (simp add: init_head_def fun_upd_idem)

lemma init_head_klist_empty [simp]: "init_head h klist_empty = klist_empty"
  by (rule init_head_empty) (simp add: klist_empty_def)

lemma klist_ok_unlinked: "klist_ok L \<Longrightarrow> \<not> linked e L \<longleftrightarrow> (\<forall>h. e \<notin> set (items L h))"
  by (auto simp: linked_def klist_ok_def)

section \<open>What the operations do\<close>

lemma not_linked_iff: "\<not> linked e L \<longleftrightarrow> owner L e = None"
  by (simp only: linked_def not_not)

lemma list_add_unlinked:
  "\<not> linked e L \<Longrightarrow>
   list_add e h L = Some (L\<lparr>items := (items L)(h := e # items L h), owner := (owner L)(e := Some h)\<rparr>)"
  by (simp add: list_add_def linked_def)

lemma list_add_tail_unlinked:
  "\<not> linked e L \<Longrightarrow>
   list_add_tail e h L =
     Some (L\<lparr>items := (items L)(h := items L h @ [e]), owner := (owner L)(e := Some h)\<rparr>)"
  by (simp add: list_add_tail_def linked_def)

lemma list_add_linked: "linked e L \<Longrightarrow> list_add e h L = None"
  by (auto simp: list_add_def linked_def)

lemma list_add_tail_linked: "linked e L \<Longrightarrow> list_add_tail e h L = None"
  by (auto simp: list_add_tail_def linked_def)

lemma lists_list_del_init:
  "klist_ok L \<Longrightarrow> items (list_del_init e L) h = remove1 e (items L h)"
  by (auto simp: list_del_init_def klist_ok_def remove1_idem split: option.split)

lemma owner_list_del_init [simp]: "owner (list_del_init e L) = (owner L)(e := None)"
  by (auto simp: list_del_init_def fun_upd_idem split: option.split)

lemma not_linked_list_del_init [simp]: "\<not> linked e (list_del_init e L)"
  by (simp add: linked_def)

lemma list_del_init_unlinked: "\<not> linked e L \<Longrightarrow> list_del_init e L = L"
  by (simp add: list_del_init_def linked_def)

lemma klist_ok_list_del_init [simp]: "klist_ok L \<Longrightarrow> klist_ok (list_del_init e L)"
  by (rule klist_okI) (auto simp: lists_list_del_init klist_ok_owner)

lemma klist_ok_list_add: "klist_ok L \<Longrightarrow> list_add e h L = Some L' \<Longrightarrow> klist_ok L'"
  by (auto simp: list_add_def klist_ok_def split: option.splits if_splits)

lemma klist_ok_list_add_tail: "klist_ok L \<Longrightarrow> list_add_tail e h L = Some L' \<Longrightarrow> klist_ok L'"
  by (auto simp: list_add_tail_def klist_ok_def split: option.splits if_splits)

lemma klist_ok_link:
  assumes "klist_ok L" "owner L e = None"
  shows "klist_ok (L\<lparr>items := (items L)(h := if b then e # items L h else items L h @ [e]),
                     owner := (owner L)(e := Some h)\<rparr>)"
proof (cases b)
  case True
  show ?thesis
    by (rule klist_ok_list_add [OF assms(1), of e h]) (simp add: list_add_def assms(2) True)
next
  case False
  show ?thesis
    by (rule klist_ok_list_add_tail [OF assms(1), of e h])
      (simp add: list_add_tail_def assms(2) False)
qed

lemma list_move_total: "\<exists>L'. list_move e h L = Some L'"
  by (simp add: list_move_def list_add_unlinked)

lemma list_move_tail_total: "\<exists>L'. list_move_tail e h L = Some L'"
  by (simp add: list_move_tail_def list_add_tail_unlinked)

lemma list_move_eq:
  "list_move e h L =
     Some ((list_del_init e L)\<lparr>items := (items (list_del_init e L))(h := e # items (list_del_init e L) h),
                              owner := (owner L)(e := Some h)\<rparr>)"
  by (simp add: list_move_def list_add_unlinked)

lemma list_move_tail_eq:
  "list_move_tail e h L =
     Some ((list_del_init e L)\<lparr>items := (items (list_del_init e L))(h := items (list_del_init e L) h @ [e]),
                              owner := (owner L)(e := Some h)\<rparr>)"
  by (simp add: list_move_tail_def list_add_tail_unlinked)

lemma klist_ok_list_move: "klist_ok L \<Longrightarrow> list_move e h L = Some L' \<Longrightarrow> klist_ok L'"
  unfolding list_move_def by (rule klist_ok_list_add [OF klist_ok_list_del_init])

lemma klist_ok_list_move_tail: "klist_ok L \<Longrightarrow> list_move_tail e h L = Some L' \<Longrightarrow> klist_ok L'"
  unfolding list_move_tail_def by (rule klist_ok_list_add_tail [OF klist_ok_list_del_init])

lemma list_del_init_list_add_tail:
  "klist_ok L \<Longrightarrow> list_add_tail e h L = Some L' \<Longrightarrow> list_del_init e L' = L"
  by (auto simp: list_add_tail_def list_del_init_def klist_ok_def remove1_append fun_upd_idem
           split: option.splits)

lemma list_del_init_list_add:
  "klist_ok L \<Longrightarrow> list_add e h L = Some L' \<Longrightarrow> list_del_init e L' = L"
  by (auto simp: list_add_def list_del_init_def klist_ok_def fun_upd_idem split: option.splits)

lemma first_entry_Some: "first_entry h L = Some e \<longleftrightarrow> (\<exists>es. items L h = e # es)"
  by (auto simp: first_entry_def split: list.splits)

lemma prev_neq_next_iff:
  assumes "klist_ok L" "e \<in> set (items L h)"
  shows "prev_neq_next e L \<longleftrightarrow> items L h \<noteq> [e]"
proof -
  have "owner L e = Some h" using assms by (simp add: klist_ok_owner)
  moreover have "2 \<le> length (items L h) \<longleftrightarrow> items L h \<noteq> [e]"
    using assms klist_ok_distinct [OF assms(1), of h] by (cases "items L h"; cases "tl (items L h)") auto
  ultimately show ?thesis by (simp add: prev_neq_next_def)
qed

end
