(* ===== verification/Kernel_State.thy ===== *)
theory Kernel_State
  imports Sched_Defs Klist
begin

text \<open>
  The state the scheduler keeps: \<open>task_struct\<close> with its three scheduling entities, the per-CPU
  \<open>rq\<close> with the WRR and RT run-queues embedded in it, task groups, and the global variables.
  Pointers are references: a task is its index, a CPU's \<open>rq\<close> is the CPU number, and an entity or
  a run-queue is either the one embedded in a task or CPU or the one a task group owns per CPU.
  Code outside the repository is a parameter: its functions are fields of the environment
  \<open>env\<close>, and its pure side effects are recorded in the state's \<open>trace\<close>.
\<close>

type_synonym tid = nat
type_synonym cpu = nat
type_synonym tgid = nat

datatype se_ref = Se_of_task tid | Se_of_group tgid cpu
datatype rq_ref = Rq_of_cpu cpu | Rq_of_group tgid cpu

datatype sched_class = stop_sched_class | rt_sched_class | wrr_sched_class
  | fair_sched_class | idle_sched_class

section \<open>Tasks\<close>

record load_weight =
  weight :: ulong
  inv_weight :: ulong

record sched_entity =
  load :: load_weight
  se_on_rq :: bool
  exec_start :: u64
  sum_exec_runtime :: u64
  vruntime :: u64
  prev_sum_exec_runtime :: u64
  nr_migrations :: u64
  exec_max :: u64

record sched_rt_entity =
  rt_timeout :: ulong
  rt_time_slice :: u32
  nr_cpus_allowed :: int
  rt_back :: "se_ref option"
  rt_parent :: "se_ref option"
  rt_rq_ptr :: "rq_ref option"
  rt_my_q :: "rq_ref option"

record sched_wrr_entity =
  wrr_timeout :: ulong
  wrr_time_slice :: u32
  wrr_back :: "se_ref option"
  wrr_parent :: "se_ref option"
  wrr_rq_ptr :: "rq_ref option"
  wrr_my_q :: "rq_ref option"

text \<open>\<open>utime\<close> to \<open>prev_stime\<close> of \<open>task_struct\<close>; \<open>cputime_t\<close> is an \<open>unsigned long\<close> of ticks.\<close>

record task_cputimes =
  utime :: ulong
  stime :: ulong
  utimescaled :: ulong
  stimescaled :: ulong
  gtime :: ulong
  prev_utime :: ulong
  prev_stime :: ulong

record task_struct =
  tstate :: u32
  tflags :: u32
  on_cpu :: bool
  on_rq :: bool
  prio :: int
  static_prio :: int
  normal_prio :: int
  rt_priority :: u32
  task_class :: sched_class
  se :: sched_entity
  rt :: sched_rt_entity
  wrr :: sched_wrr_entity
  p_times :: u32
  sched_task_group :: tgid
  policy :: int
  cpus_allowed :: "cpu set"
  has_mm :: bool
  sched_reset_on_fork :: bool
  sched_contributes_to_load :: bool
  nvcsw :: ulong
  nivcsw :: ulong
  sched_exp :: u64
  cputimes :: task_cputimes
  ti_cpu :: cpu
  ti_need_resched :: bool
  ti_preempt_count :: int

section \<open>Run-queues\<close>

text \<open>The pointer \<open>rq->rd\<close> is NULL unless \<open>rd_set\<close>; then it is the root domain \<open>rd\<close>.\<close>

record wrr_rq =
  wrr_bitmap :: bitmap
  wrr_nr_running :: ulong
  wrr_highest_curr :: int
  wrr_rq_rq :: "cpu option"
  wrr_tg :: "tgid option"

record rt_rq =
  rt_bitmap :: bitmap
  rt_nr_running :: ulong
  rt_highest_curr :: int
  rt_highest_next :: int
  rt_nr_migratory :: ulong
  rt_nr_total :: ulong
  rt_overloaded_flag :: bool
  pushable_tasks :: "(int \<times> tid) list"
  rt_throttled :: bool
  rt_time :: u64
  rt_runtime :: u64
  rt_nr_boosted :: ulong
  rt_rq_rq :: "cpu option"
  rt_tg :: "tgid option"

record rq =
  nr_running :: ulong
  cpu_load :: "nat \<Rightarrow> ulong"
  last_load_update_tick :: ulong
  skip_clock_update :: int
  rq_load :: load_weight
  nr_load_updates :: ulong
  nr_switches :: u64
  cfs_h_nr_running :: ulong
  nr_uninterruptible :: ulong
  curr :: tid
  idle :: tid
  stop :: "tid option"
  clock :: u64
  clock_task :: u64
  nr_iowait :: int
  rd :: nat
  rd_set :: bool
  post_schedule_flag :: bool
  online :: bool
  rt_avg :: u64
  age_stamp :: u64
  idle_stamp :: u64
  avg_idle :: u64
  calc_load_update :: ulong
  calc_load_active :: ulong

section \<open>Task groups\<close>

text \<open>
  \<open>struct cfs_bandwidth\<close> and the members of \<open>struct cfs_rq\<close> that setting a group's bandwidth
  writes; \<open>hierarchal_quota\<close> is an \<open>s64\<close>.
\<close>

record cfs_bandwidth =
  cfs_period :: u64
  cfs_quota :: u64
  hierarchal_quota :: u64
  cfs_timer_active :: bool
  cfs_nr_periods :: int
  cfs_nr_throttled :: int
  cfs_throttled_time :: u64

record cfs_rq =
  runtime_enabled :: bool
  runtime_remaining :: u64
  cfs_throttled :: bool

record task_group =
  css_cgroup :: bool
  tg_parent :: "tgid option"
  tg_children :: "tgid list"
  tg_wrr_rq :: "cpu \<Rightarrow> rq_ref option"
  tg_wrr_se :: "cpu \<Rightarrow> se_ref option"
  tg_rt_rq :: "cpu \<Rightarrow> rq_ref option"
  tg_rt_se :: "cpu \<Rightarrow> se_ref option"
  tg_rt_period :: u64
  tg_rt_runtime :: u64
  tg_rt_timer_active :: bool
  tg_shares :: ulong
  tg_cfs :: cfs_bandwidth

section \<open>Root domains and global variables\<close>

record root_domain =
  rd_refcount :: int
  rto_count :: int
  rd_span :: "cpu set"
  rd_online :: "cpu set"
  rto_mask :: "cpu set"

text \<open>The load average's globals; \<open>g_calc_load_update\<close> is the variable \<open>calc_load_update\<close>.\<close>

record load_globals =
  calc_load_tasks :: ulong
  g_calc_load_update :: ulong
  avenrun :: "nat \<Rightarrow> ulong"
  calc_load_idle :: "nat \<Rightarrow> ulong"
  calc_load_idx :: u32

record sched_globals =
  sysctl_sched_rt_period :: u32
  sysctl_sched_rt_runtime :: int
  sysctl_sched_time_avg :: u32
  scheduler_running :: bool
  def_rt_period :: u64
  def_rt_runtime :: u64
  task_group_list :: "tgid list"

section \<open>The kernel state\<close>

text \<open>The kinds of CPU time, an \<open>enum\<close> of a header outside the repository.\<close>

datatype cpu_usage_stat = CPUTIME_USER | CPUTIME_NICE | CPUTIME_SYSTEM | CPUTIME_SOFTIRQ
  | CPUTIME_IRQ | CPUTIME_IDLE | CPUTIME_IOWAIT | CPUTIME_STEAL | CPUTIME_GUEST | CPUTIME_GUEST_NICE

datatype ext_call =
    Account_group_exec_runtime tid u64
  | Smp_send_reschedule cpu
  | Start_bandwidth_timer tgid
  | Cpupri_set nat cpu int
  | Wq_worker_waking_up tid cpu
  | Task_note string tid
  | Cpu_note string cpu
  | Group_note string tgid
  | Group_cpu_note string tgid cpu

record kst =
  tasks :: "tid \<Rightarrow> task_struct"
  rqs :: "cpu \<Rightarrow> rq"
  nr_cpus :: nat
  this_cpu :: cpu
  jiffies :: ulong
  wrr_rqs :: "rq_ref \<Rightarrow> wrr_rq"
  wrr_gses :: "tgid \<Rightarrow> cpu \<Rightarrow> sched_wrr_entity"
  wrr_list :: "(rq_ref \<times> nat, se_ref) klist"
  leaf_wrr :: "(cpu, rq_ref) klist"
  rt_rqs :: "rq_ref \<Rightarrow> rt_rq"
  rt_gses :: "tgid \<Rightarrow> cpu \<Rightarrow> sched_rt_entity"
  rt_list :: "(rq_ref \<times> nat, se_ref) klist"
  leaf_rt :: "(cpu, rq_ref) klist"
  task_groups :: "tgid \<Rightarrow> task_group"
  group_path :: "nat \<Rightarrow> char"
  cfs_rqs :: "tgid \<Rightarrow> cpu \<Rightarrow> cfs_rq"
  ca_usage :: "nat \<Rightarrow> cpu \<Rightarrow> u64"
  ca_cpustat :: "nat \<Rightarrow> cpu \<Rightarrow> cpu_usage_stat \<Rightarrow> u64"
  rand_pos :: nat
  wake_list :: "cpu \<Rightarrow> tid list"
  cpu_online :: "cpu set"
  cpu_active :: "cpu set"
  root_domains :: "nat \<Rightarrow> root_domain"
  gload :: load_globals
  globals :: sched_globals
  kcpustat :: "cpu \<Rightarrow> cpu_usage_stat \<Rightarrow> u64"
  sig_prev :: "nat \<Rightarrow> ulong \<times> ulong"
  trace :: "ext_call list"

text \<open>
  Zeroed static memory of a machine with \<open>n\<close> CPUs, before \<open>sched_init\<close>: no list is linked and
  every pointer is NULL. Task 0 is the boot task of every CPU.
\<close>

definition zero_task :: task_struct where
  "zero_task =
     \<lparr>tstate = 0, tflags = 0, on_cpu = False, on_rq = False, prio = 0, static_prio = 0,
      normal_prio = 0, rt_priority = 0, task_class = fair_sched_class,
      se = \<lparr>load = \<lparr>weight = 0, inv_weight = 0\<rparr>, se_on_rq = False, exec_start = 0,
            sum_exec_runtime = 0, vruntime = 0, prev_sum_exec_runtime = 0, nr_migrations = 0,
            exec_max = 0\<rparr>,
      rt = \<lparr>rt_timeout = 0, rt_time_slice = 0, nr_cpus_allowed = 0, rt_back = None,
            rt_parent = None, rt_rq_ptr = None, rt_my_q = None\<rparr>,
      wrr = \<lparr>wrr_timeout = 0, wrr_time_slice = 0, wrr_back = None, wrr_parent = None,
             wrr_rq_ptr = None, wrr_my_q = None\<rparr>,
      p_times = 0, sched_task_group = 0, policy = 0, cpus_allowed = {}, has_mm = False,
      sched_reset_on_fork = False, sched_contributes_to_load = False, nvcsw = 0, nivcsw = 0,
      sched_exp = 0,
      cputimes = \<lparr>utime = 0, stime = 0, utimescaled = 0, stimescaled = 0, gtime = 0, prev_utime = 0,
                  prev_stime = 0\<rparr>,
      ti_cpu = 0, ti_need_resched = False, ti_preempt_count = 0\<rparr>"

definition zero_rq :: rq where
  "zero_rq =
     \<lparr>nr_running = 0, cpu_load = (\<lambda>_. 0), last_load_update_tick = 0, skip_clock_update = 0,
      rq_load = \<lparr>weight = 0, inv_weight = 0\<rparr>, nr_load_updates = 0, nr_switches = 0,
      cfs_h_nr_running = 0, nr_uninterruptible = 0, curr = 0, idle = 0, stop = None, clock = 0,
      clock_task = 0, nr_iowait = 0, rd = 0, rd_set = False, post_schedule_flag = False, online = False,
      rt_avg = 0, age_stamp = 0, idle_stamp = 0, avg_idle = 0, calc_load_update = 0,
      calc_load_active = 0\<rparr>"

definition zero_wrr_rq :: wrr_rq where
  "zero_wrr_rq =
     \<lparr>wrr_bitmap = (\<lambda>_. False), wrr_nr_running = 0, wrr_highest_curr = 0, wrr_rq_rq = None,
      wrr_tg = None\<rparr>"

definition zero_rt_rq :: rt_rq where
  "zero_rt_rq =
     \<lparr>rt_bitmap = (\<lambda>_. False), rt_nr_running = 0, rt_highest_curr = 0, rt_highest_next = 0,
      rt_nr_migratory = 0, rt_nr_total = 0, rt_overloaded_flag = False, pushable_tasks = [],
      rt_throttled = False, rt_time = 0, rt_runtime = 0, rt_nr_boosted = 0, rt_rq_rq = None,
      rt_tg = None\<rparr>"

definition zero_task_group :: task_group where
  "zero_task_group =
     \<lparr>css_cgroup = False, tg_parent = None, tg_children = [], tg_wrr_rq = (\<lambda>_. None),
      tg_wrr_se = (\<lambda>_. None), tg_rt_rq = (\<lambda>_. None), tg_rt_se = (\<lambda>_. None), tg_rt_period = 0,
      tg_rt_runtime = 0, tg_rt_timer_active = False, tg_shares = 0,
      tg_cfs = \<lparr>cfs_period = 0, cfs_quota = 0, hierarchal_quota = 0, cfs_timer_active = False,
                cfs_nr_periods = 0, cfs_nr_throttled = 0, cfs_throttled_time = 0\<rparr>\<rparr>"

definition bss :: "nat \<Rightarrow> kst" where
  "bss n =
     \<lparr>tasks = (\<lambda>_. zero_task), rqs = (\<lambda>_. zero_rq), nr_cpus = n, this_cpu = 0, jiffies = 0,
      wrr_rqs = (\<lambda>_. zero_wrr_rq), wrr_gses = (\<lambda>_ _. wrr zero_task), wrr_list = klist_empty,
      leaf_wrr = klist_empty, rt_rqs = (\<lambda>_. zero_rt_rq), rt_gses = (\<lambda>_ _. rt zero_task),
      rt_list = klist_empty, leaf_rt = klist_empty, task_groups = (\<lambda>_. zero_task_group),
      group_path = (\<lambda>_. CHR 0x00), 
      cfs_rqs = (\<lambda>_ _. \<lparr>runtime_enabled = False, runtime_remaining = 0, cfs_throttled = False\<rparr>),
      ca_usage = (\<lambda>_ _. 0), ca_cpustat = (\<lambda>_ _ _. 0), rand_pos = 0, wake_list = (\<lambda>_. []),
      cpu_online = {0..<n}, cpu_active = {0..<n},
      root_domains = (\<lambda>_. \<lparr>rd_refcount = 0, rto_count = 0, rd_span = {}, rd_online = {}, rto_mask = {}\<rparr>),
      gload = \<lparr>calc_load_tasks = 0, g_calc_load_update = 0, avenrun = (\<lambda>_. 0), calc_load_idle = (\<lambda>_. 0),
               calc_load_idx = 0\<rparr>,
      globals = \<lparr>sysctl_sched_rt_period = 1000000, sysctl_sched_rt_runtime = 950000,
                 sysctl_sched_time_avg = 1000, scheduler_running = False, def_rt_period = 0,
                 def_rt_runtime = 0, task_group_list = []\<rparr>,
      kcpustat = (\<lambda>_ _. 0), sig_prev = (\<lambda>_. (0, 0)), trace = []\<rparr>"

lemmas bss_defs = bss_def zero_task_def zero_rq_def zero_wrr_rq_def zero_rt_rq_def zero_task_group_def

abbreviation upd_task :: "tid \<Rightarrow> (task_struct \<Rightarrow> task_struct) \<Rightarrow> kst \<Rightarrow> kst" where
  "upd_task p f s \<equiv> s\<lparr>tasks := (tasks s)(p := f (tasks s p))\<rparr>"

abbreviation upd_rq :: "cpu \<Rightarrow> (rq \<Rightarrow> rq) \<Rightarrow> kst \<Rightarrow> kst" where
  "upd_rq c f s \<equiv> s\<lparr>rqs := (rqs s)(c := f (rqs s c))\<rparr>"

abbreviation upd_wrr_rq :: "rq_ref \<Rightarrow> (wrr_rq \<Rightarrow> wrr_rq) \<Rightarrow> kst \<Rightarrow> kst" where
  "upd_wrr_rq q f s \<equiv> s\<lparr>wrr_rqs := (wrr_rqs s)(q := f (wrr_rqs s q))\<rparr>"

abbreviation upd_tg :: "tgid \<Rightarrow> (task_group \<Rightarrow> task_group) \<Rightarrow> kst \<Rightarrow> kst" where
  "upd_tg tg f s \<equiv> s\<lparr>task_groups := (task_groups s)(tg := f (task_groups s tg))\<rparr>"

abbreviation upd_rd :: "nat \<Rightarrow> (root_domain \<Rightarrow> root_domain) \<Rightarrow> kst \<Rightarrow> kst" where
  "upd_rd d f s \<equiv> s\<lparr>root_domains := (root_domains s)(d := f (root_domains s d))\<rparr>"

abbreviation upd_rt_rq :: "rq_ref \<Rightarrow> (rt_rq \<Rightarrow> rt_rq) \<Rightarrow> kst \<Rightarrow> kst" where
  "upd_rt_rq q f s \<equiv> s\<lparr>rt_rqs := (rt_rqs s)(q := f (rt_rqs s q))\<rparr>"

definition ext :: "ext_call \<Rightarrow> kst \<Rightarrow> kst" where
  "ext c s = s\<lparr>trace := trace s @ [c]\<rparr>"

text \<open>
  The environment. \<open>autogroup_path\<close> and \<open>cgroup_path\<close> write into the caller's buffer (the first
  also says whether it did); \<open>ca_path p\<close> is the chain from the task's accounting group to the
  root; \<open>uninit_rq\<close> is where an uninitialised \<open>rq\<close> pointer happens to point, if anywhere;
  \<open>random_bytes n\<close> is what the \<open>n\<close>-th call of \<open>get_random_bytes\<close> delivers.
\<close>

record env =
  HZ :: nat
  autogroup_path :: "tgid \<Rightarrow> (nat \<Rightarrow> char) \<Rightarrow> bool \<times> (nat \<Rightarrow> char)"
  cgroup_path :: "tgid \<Rightarrow> (nat \<Rightarrow> char) \<Rightarrow> (nat \<Rightarrow> char)"
  cpuacct_active :: bool
  ca_path :: "tid \<Rightarrow> nat list"
  tsk_is_polling :: "tid \<Rightarrow> bool"
  uninit_rq :: "cpu option"
  random_bytes :: "nat \<Rightarrow> u32"

text \<open>A concrete environment, for examples: group 7's path is that of the background group.\<close>

definition sample_env :: env where
  "sample_env =
     \<lparr>HZ = 100, autogroup_path = (\<lambda>_ buf. (False, buf)),
      cgroup_path = (\<lambda>tg buf. buf(0 := CHR ''/'', 1 := (if tg = 7 then CHR ''b'' else CHR ''f''))),
      cpuacct_active = True, ca_path = (\<lambda>_. [0]), tsk_is_polling = (\<lambda>_. False),
      uninit_rq = None, random_bytes = (\<lambda>n. word_of_nat n)\<rparr>"

section \<open>The class table\<close>

text \<open>
  \<open>struct sched_class\<close>: what the core scheduler calls. A NULL member is \<open>None\<close>. The chain of
  \<open>next\<close> pointers is fixed: stop, rt, wrr, fair, idle.
\<close>

record class_ops =
  op_enqueue_task :: "cpu \<Rightarrow> tid \<Rightarrow> u32 \<Rightarrow> kst \<Rightarrow> kst option"
  op_dequeue_task :: "cpu \<Rightarrow> tid \<Rightarrow> u32 \<Rightarrow> kst \<Rightarrow> kst option"
  op_yield_task :: "cpu \<Rightarrow> kst \<Rightarrow> kst option"
  op_check_preempt_curr :: "cpu \<Rightarrow> tid \<Rightarrow> u32 \<Rightarrow> kst \<Rightarrow> kst option"
  op_pick_next_task :: "cpu \<Rightarrow> kst \<Rightarrow> (tid option \<times> kst) option"
  op_put_prev_task :: "cpu \<Rightarrow> tid \<Rightarrow> kst \<Rightarrow> kst option"
  op_select_task_rq :: "tid \<Rightarrow> u32 \<Rightarrow> u32 \<Rightarrow> kst \<Rightarrow> cpu option"
  op_pre_schedule :: "(cpu \<Rightarrow> tid \<Rightarrow> kst \<Rightarrow> kst option) option"
  op_post_schedule :: "(cpu \<Rightarrow> kst \<Rightarrow> kst option) option"
  op_task_waking :: "(tid \<Rightarrow> kst \<Rightarrow> kst option) option"
  op_task_woken :: "(cpu \<Rightarrow> tid \<Rightarrow> kst \<Rightarrow> kst option) option"
  op_set_cpus_allowed :: "(tid \<Rightarrow> cpu set \<Rightarrow> kst \<Rightarrow> kst option) option"
  op_rq_online :: "(cpu \<Rightarrow> kst \<Rightarrow> kst option) option"
  op_rq_offline :: "(cpu \<Rightarrow> kst \<Rightarrow> kst option) option"
  op_set_curr_task :: "cpu \<Rightarrow> kst \<Rightarrow> kst option"
  op_task_tick :: "cpu \<Rightarrow> tid \<Rightarrow> bool \<Rightarrow> kst \<Rightarrow> kst option"
  op_task_fork :: "(tid \<Rightarrow> kst \<Rightarrow> kst option) option"
  op_switched_from :: "(cpu \<Rightarrow> tid \<Rightarrow> kst \<Rightarrow> kst option) option"
  op_switched_to :: "cpu \<Rightarrow> tid \<Rightarrow> kst \<Rightarrow> kst option"
  op_prio_changed :: "cpu \<Rightarrow> tid \<Rightarrow> int \<Rightarrow> kst \<Rightarrow> kst option"
  op_get_rr_interval :: "(cpu \<Rightarrow> tid option \<Rightarrow> kst \<Rightarrow> (u32 \<times> kst) option) option"

fun class_next :: "sched_class \<Rightarrow> sched_class option" where
  "class_next stop_sched_class = Some rt_sched_class"
| "class_next rt_sched_class = Some wrr_sched_class"
| "class_next wrr_sched_class = Some fair_sched_class"
| "class_next fair_sched_class = Some idle_sched_class"
| "class_next idle_sched_class = None"

section \<open>Accessors and small operations\<close>

definition task_cpu :: "kst \<Rightarrow> tid \<Rightarrow> cpu" where
  "task_cpu s p = ti_cpu (tasks s p)"

definition task_has_rt_policy :: "kst \<Rightarrow> tid \<Rightarrow> bool" where
  "task_has_rt_policy s p \<longleftrightarrow> rt_policy (policy (tasks s p))"

definition task_has_wrr_policy :: "kst \<Rightarrow> tid \<Rightarrow> bool" where
  "task_has_wrr_policy s p \<longleftrightarrow> wrr_policy (policy (tasks s p))"

definition rt_task :: "kst \<Rightarrow> tid \<Rightarrow> bool" where
  "rt_task s p \<longleftrightarrow> rt_prio (prio (tasks s p))"

definition task_current :: "kst \<Rightarrow> cpu \<Rightarrow> tid \<Rightarrow> bool" where
  "task_current s c p \<longleftrightarrow> curr (rqs s c) = p"

definition task_running :: "kst \<Rightarrow> cpu \<Rightarrow> tid \<Rightarrow> bool" where
  "task_running s c p \<longleftrightarrow> on_cpu (tasks s p)"

definition set_tsk_need_resched :: "tid \<Rightarrow> kst \<Rightarrow> kst" where
  "set_tsk_need_resched p s = upd_task p (\<lambda>t. t\<lparr>ti_need_resched := True\<rparr>) s"

definition clear_tsk_need_resched :: "tid \<Rightarrow> kst \<Rightarrow> kst" where
  "clear_tsk_need_resched p s = upd_task p (\<lambda>t. t\<lparr>ti_need_resched := False\<rparr>) s"

definition test_tsk_need_resched :: "kst \<Rightarrow> tid \<Rightarrow> bool" where
  "test_tsk_need_resched s p \<longleftrightarrow> ti_need_resched (tasks s p)"

definition inc_nr_running :: "cpu \<Rightarrow> kst \<Rightarrow> kst" where
  "inc_nr_running c s = upd_rq c (\<lambda>r. r\<lparr>nr_running := nr_running r + 1\<rparr>) s"

definition dec_nr_running :: "cpu \<Rightarrow> kst \<Rightarrow> kst" where
  "dec_nr_running c s = upd_rq c (\<lambda>r. r\<lparr>nr_running := nr_running r - 1\<rparr>) s"

text \<open>\<open>resched_task\<close> of core.c in the SMP build.\<close>

definition resched_task :: "env \<Rightarrow> tid \<Rightarrow> kst \<Rightarrow> kst" where
  "resched_task E p s =
     (if test_tsk_need_resched s p then s
      else let s = set_tsk_need_resched p s; c = task_cpu s p
           in if c = this_cpu s then s
              else if \<not> tsk_is_polling E p then ext (Smp_send_reschedule c) s
              else s)"

text \<open>\<open>cpuacct_charge\<close> of core.c: every accounting group from the task's up to the root.\<close>

definition cpuacct_charge :: "env \<Rightarrow> tid \<Rightarrow> u64 \<Rightarrow> kst \<Rightarrow> kst" where
  "cpuacct_charge E p cputime s =
     (if \<not> cpuacct_active E then s
      else let c = task_cpu s p in
        s\<lparr>ca_usage := fold (\<lambda>ca u. u(ca := (u ca)(c := u ca c + cputime)))
                           (ca_path E p) (ca_usage s)\<rparr>)"

end
