(* ===== verification/Prio_Array.thy ===== *)
theory Prio_Array
  imports Prelude
begin

text \<open>
  The abstract priority array behind \<open>struct wrr_prio_array\<close> and \<open>struct rt_prio_array\<close>: one
  FIFO queue per level, a bitmap with a delimiter bit, and a counter. It is the specification
  the WRR classes implement; the interface a scheduling class offers to the core scheduler is
  the locale \<open>sched_queue\<close>, whose client lemmas (round trips, FIFO service, round-robin
  fairness) are proved once here.
\<close>

abbreviation LEVELS :: nat where "LEVELS \<equiv> 100"

record 'e parray =
  pq :: "nat \<Rightarrow> 'e list"
  pb :: bitmap
  pn :: nat

section \<open>Well-formed arrays\<close>

definition pa_ok :: "'e parray \<Rightarrow> bool" where
  "pa_ok A \<longleftrightarrow>
     (\<forall>i<LEVELS. pb A i \<longleftrightarrow> pq A i \<noteq> []) \<and> pb A LEVELS \<and> (\<forall>i\<ge>LEVELS. pq A i = []) \<and>
     pn A = (\<Sum>i<LEVELS. length (pq A i)) \<and>
     (\<forall>i. distinct (pq A i)) \<and> (\<forall>i j e. e \<in> set (pq A i) \<longrightarrow> e \<in> set (pq A j) \<longrightarrow> i = j)"

definition pa_members :: "'e parray \<Rightarrow> 'e set" where
  "pa_members A = (\<Union>i<LEVELS. set (pq A i))"

definition pa_enq :: "nat \<Rightarrow> 'e \<Rightarrow> bool \<Rightarrow> 'e parray \<Rightarrow> 'e parray" where
  "pa_enq i e head A =
     A\<lparr>pq := (pq A)(i := if head then e # pq A i else pq A i @ [e]),
       pb := (pb A)(i := True), pn := pn A + 1\<rparr>"

definition pa_deq :: "nat \<Rightarrow> 'e \<Rightarrow> 'e parray \<Rightarrow> 'e parray" where
  "pa_deq i e A =
     A\<lparr>pq := (pq A)(i := remove1 e (pq A i)),
       pb := (pb A)(i := (remove1 e (pq A i) \<noteq> [])), pn := pn A - 1\<rparr>"

definition pa_requeue :: "nat \<Rightarrow> 'e \<Rightarrow> bool \<Rightarrow> 'e parray \<Rightarrow> 'e parray" where
  "pa_requeue i e head A =
     A\<lparr>pq := (pq A)(i := if head then e # remove1 e (pq A i) else remove1 e (pq A i) @ [e])\<rparr>"

definition pa_pick :: "'e parray \<Rightarrow> 'e option" where
  "pa_pick A = (if pn A = 0 then None else Some (hd (pq A (find_next_bit (pb A) (LEVELS + 1) 0))))"

lemma pa_members_iff: "pa_ok A \<Longrightarrow> e \<in> pa_members A \<longleftrightarrow> (\<exists>i. e \<in> set (pq A i))"
  unfolding pa_members_def pa_ok_def by (metis UN_iff empty_iff empty_set lessThan_iff not_less)

lemma pa_ok_bit: "pa_ok A \<Longrightarrow> i < LEVELS \<Longrightarrow> pb A i \<longleftrightarrow> pq A i \<noteq> []"
  by (simp add: pa_ok_def)

lemma pa_ok_count: "pa_ok A \<Longrightarrow> pn A = (\<Sum>i<LEVELS. length (pq A i))"
  by (simp add: pa_ok_def)

lemma pa_ok_distinct: "pa_ok A \<Longrightarrow> distinct (pq A i)"
  by (simp add: pa_ok_def)

lemma pa_ok_disjoint: "pa_ok A \<Longrightarrow> e \<in> set (pq A i) \<Longrightarrow> e \<in> set (pq A j) \<Longrightarrow> i = j"
  by (auto simp: pa_ok_def)

lemma pa_ok_level: "pa_ok A \<Longrightarrow> e \<in> set (pq A i) \<Longrightarrow> i < LEVELS"
  by (metis empty_iff empty_set not_less pa_ok_def)

lemma length_sum_upd:
  fixes n :: nat
  assumes "i < n"
  shows "(\<Sum>j<n. length ((Q(i := xs)) j)) + length (Q i) = (\<Sum>j<n. length (Q j)) + length xs"
proof -
  have "(\<Sum>j<n. ((\<lambda>j. length (Q j))(i := length xs)) j) + length (Q i) =
      (\<Sum>j<n. length (Q j)) + length xs"
    using assms by (intro sum_fun_upd) auto
  moreover have "(\<Sum>j<n. ((\<lambda>j. length (Q j))(i := length xs)) j) = (\<Sum>j<n. length ((Q(i := xs)) j))"
    by (rule sum.cong) auto
  ultimately show ?thesis by simp
qed

lemma pa_ok_enq:
  assumes "pa_ok A" "i < LEVELS" "e \<notin> pa_members A"
  shows "pa_ok (pa_enq i e head A)"
proof -
  let ?xs = "if head then e # pq A i else pq A i @ [e]"
  have e: "\<And>j. e \<notin> set (pq A j)" using assms by (simp add: pa_members_iff)
  have "length ?xs = Suc (length (pq A i))" by simp
  then have "(\<Sum>j<LEVELS. length (((pq A)(i := ?xs)) j)) = pn A + 1"
    using length_sum_upd [OF assms(2), of "pq A" ?xs] pa_ok_count [OF assms(1)] by linarith
  with assms e show ?thesis
    unfolding pa_ok_def pa_enq_def by (auto split: if_splits)
qed

lemma pa_ok_deq:
  assumes "pa_ok A" "e \<in> set (pq A i)"
  shows "pa_ok (pa_deq i e A)"
proof -
  let ?xs = "remove1 e (pq A i)"
  have i: "i < LEVELS" using assms by (rule pa_ok_level)
  have "length (pq A i) = Suc (length ?xs)"
    using assms(2) length_pos_if_in_set [OF assms(2)] by (simp add: length_remove1)
  then have "(\<Sum>j<LEVELS. length (((pq A)(i := ?xs)) j)) = pn A - 1"
    using length_sum_upd [OF i, of "pq A" ?xs] pa_ok_count [OF assms(1)] by linarith
  with assms i show ?thesis
    unfolding pa_ok_def pa_deq_def by (auto split: if_splits dest: notin_set_remove1)
qed

lemma pa_ok_requeue:
  assumes "pa_ok A" "e \<in> set (pq A i)"
  shows "pa_ok (pa_requeue i e head A)"
proof -
  let ?xs = "if head then e # remove1 e (pq A i) else remove1 e (pq A i) @ [e]"
  have i: "i < LEVELS" using assms by (rule pa_ok_level)
  have len: "length ?xs = length (pq A i)"
    using assms(2) length_pos_if_in_set [OF assms(2)] by (auto simp: length_remove1)
  then have "(\<Sum>j<LEVELS. length (((pq A)(i := ?xs)) j)) = pn A"
    using length_sum_upd [OF i, of "pq A" ?xs] pa_ok_count [OF assms(1)] by linarith
  moreover have "set ?xs = set (pq A i)" "distinct ?xs"
    using assms by (auto simp: pa_ok_def)
  moreover have "?xs \<noteq> []" "pq A i \<noteq> []" using assms(2) by auto
  ultimately show ?thesis
    using assms i unfolding pa_ok_def pa_requeue_def by auto
qed

lemma pa_members_enq:
  "pa_ok A \<Longrightarrow> i < LEVELS \<Longrightarrow> pa_members (pa_enq i e head A) = insert e (pa_members A)"
  by (auto simp: pa_members_def pa_enq_def split: if_splits)

lemma pa_members_deq:
  assumes "pa_ok A" "e \<in> set (pq A i)"
  shows "pa_members (pa_deq i e A) = pa_members A - {e}"
proof -
  have "i < LEVELS" "\<And>j. j \<noteq> i \<Longrightarrow> e \<notin> set (pq A j)"
    using assms by (auto dest: pa_ok_level pa_ok_disjoint)
  then show ?thesis
    using assms by (auto simp: pa_members_def pa_deq_def pa_ok_distinct split: if_splits)
qed

lemma pa_members_requeue:
  assumes "pa_ok A" "e \<in> set (pq A i)"
  shows "pa_members (pa_requeue i e head A) = pa_members A"
proof -
  have "set (remove1 e (pq A i)) = set (pq A i) - {e}"
    using assms by (simp add: pa_ok_distinct)
  with assms show ?thesis
    by (auto simp: pa_members_def pa_requeue_def split: if_splits dest: pa_ok_level)
qed

lemma pa_deq_enq:
  assumes "pa_ok A" "i < LEVELS" "e \<notin> pa_members A"
  shows "pa_deq i e (pa_enq i e head A) = A"
proof -
  have "e \<notin> set (pq A i)" using assms by (simp add: pa_members_iff)
  with assms show ?thesis
    by (cases head) (simp_all add: pa_deq_def pa_enq_def remove1_append fun_upd_idem pa_ok_bit)
qed

text \<open>Taking an entry out and putting it back at the same end is a requeue.\<close>

lemma pa_enq_deq:
  assumes "pa_ok A" "e \<in> set (pq A i)"
  shows "pa_enq i e head (pa_deq i e A) = pa_requeue i e head A"
proof -
  have i: "i < LEVELS" and ne: "pq A i \<noteq> []"
    using assms by (auto dest: pa_ok_level)
  have "pb A i" using assms(1) i ne by (simp add: pa_ok_bit)
  moreover have "0 < pn A"
    using assms i ne by (auto simp: pa_ok_count intro!: sum_pos2 [of _ i])
  ultimately show ?thesis
    by (simp add: pa_enq_def pa_deq_def pa_requeue_def fun_upd_idem)
qed

section \<open>Picking\<close>

lemma pa_pick_None: "pa_ok A \<Longrightarrow> pa_pick A = None \<longleftrightarrow> pa_members A = {}"
  by (simp add: pa_pick_def pa_members_def pa_ok_count)

lemma pa_first_level:
  assumes "pa_ok A" "pn A \<noteq> 0"
  defines "i \<equiv> find_next_bit (pb A) (LEVELS + 1) 0"
  shows "i < LEVELS" "pq A i \<noteq> []" "\<And>j. j < i \<Longrightarrow> pq A j = []"
proof -
  obtain k where k: "k < LEVELS" "pq A k \<noteq> []"
    using assms(1,2) by (auto simp: pa_ok_count)
  then have bk: "pb A k" using assms(1) by (simp add: pa_ok_bit)
  have f: "i \<le> k \<and> pb A i"
    unfolding i_def using find_next_bit_least [of 0 k "LEVELS + 1" "pb A"] k bk by simp
  then show lev: "i < LEVELS" using k by simp
  then show "pq A i \<noteq> []" using f assms(1) by (simp add: pa_ok_bit)
  show "pq A j = []" if "j < i" for j
  proof -
    have "\<not> pb A j"
      using that k bk lev
      by (cases rule: find_next_bit_cases [of "pb A" "LEVELS + 1" 0]) (auto simp: i_def)
    then show ?thesis using that lev assms(1) by (simp add: pa_ok_bit)
  qed
qed

lemma pa_pick_Some:
  assumes "pa_ok A" "pa_pick A = Some e"
  obtains i es where "i < LEVELS" "pq A i = e # es" "\<And>j. j < i \<Longrightarrow> pq A j = []"
proof -
  let ?i = "find_next_bit (pb A) (LEVELS + 1) 0"
  have "pn A \<noteq> 0" "e = hd (pq A ?i)" using assms(2) by (auto simp: pa_pick_def split: if_splits)
  note this pa_first_level [OF assms(1) this(1)]
  then show thesis by (intro that [of ?i "tl (pq A ?i)"]) auto
qed

lemma pa_pick_eqI:
  assumes "pa_ok A" "i < LEVELS" "pq A i = e # es" "\<And>j. j < i \<Longrightarrow> pq A j = []"
  shows "pa_pick A = Some e"
proof -
  have "pn A \<noteq> 0" using assms by (auto simp: pa_ok_count intro!: bexI [of _ i])
  moreover have "find_next_bit (pb A) (LEVELS + 1) 0 = i"
    using assms by (intro find_next_bit_hit) (auto simp: pa_ok_bit)
  ultimately show ?thesis using assms by (simp add: pa_pick_def)
qed

section \<open>Round-robin rotation at the highest level\<close>

text \<open>One round: the picked entry goes to the tail of its level.\<close>

definition pa_rotate :: "nat \<Rightarrow> 'e parray \<Rightarrow> 'e parray" where
  "pa_rotate i A = A\<lparr>pq := (pq A)(i := rotate1 (pq A i))\<rparr>"

lemma pa_requeue_hd:
  "pq A i = e # es \<Longrightarrow> pa_requeue i e False A = pa_rotate i A"
  by (simp add: pa_requeue_def pa_rotate_def)

lemma pa_rotate_pow: "((pa_rotate i) ^^ k) A = A\<lparr>pq := (pq A)(i := rotate k (pq A i))\<rparr>"
proof (induction k)
  case 0
  then show ?case by simp
next
  case (Suc k)
  have "(pa_rotate i ^^ Suc k) A = pa_rotate i (A\<lparr>pq := (pq A)(i := rotate k (pq A i))\<rparr>)"
    by (simp add: Suc.IH fun_upd_def)
  also have "\<dots> = A\<lparr>pq := (pq A)(i := rotate (Suc k) (pq A i))\<rparr>"
    by (simp add: pa_rotate_def)
  finally show ?case .
qed

lemma pa_ok_rotate:
  assumes "pa_ok A" shows "pa_ok (pa_rotate i A)"
proof (cases "pq A i")
  case Nil
  then have "pa_rotate i A = A" by (simp add: pa_rotate_def fun_upd_idem)
  with assms show ?thesis by simp
next
  case (Cons e es)
  then show ?thesis using pa_ok_requeue [OF assms, of e i False] by (simp add: pa_requeue_hd)
qed

lemma pa_ok_rotate_pow: "pa_ok A \<Longrightarrow> pa_ok ((pa_rotate i ^^ k) A)"
  by (induction k) (simp_all add: pa_ok_rotate)

section \<open>The interface of a priority-queued class\<close>

text \<open>
  \<open>rotations pick requeue k s\<close> picks and requeues to the tail \<open>k\<close> times and collects the
  entries picked.
\<close>

fun rotations ::
  "('s \<Rightarrow> ('e option \<times> 's) option) \<Rightarrow> ('e \<Rightarrow> bool \<Rightarrow> 's \<Rightarrow> 's option) \<Rightarrow> nat \<Rightarrow> 's \<Rightarrow> ('e list \<times> 's) option"
where
  "rotations pick requeue 0 s = Some ([], s)"
| "rotations pick requeue (Suc k) s =
     (case pick s of
        Some (Some e, s1) \<Rightarrow>
          (case requeue e False s1 of
             Some s2 \<Rightarrow> map_option (map_prod ((#) e) id) (rotations pick requeue k s2)
           | None \<Rightarrow> None)
      | _ \<Rightarrow> None)"

text \<open>
  What a priority-queued scheduling class promises to its callers, for one run-queue: \<open>inv\<close> is
  the run-queue's invariant, \<open>view\<close> its abstract array, \<open>fits e i s\<close> says that entry \<open>e\<close>
  belongs on level \<open>i\<close> of this run-queue, and \<open>cap\<close> bounds the machine counter.
\<close>

locale prio_class =
  fixes inv :: "'s \<Rightarrow> bool"
    and view :: "'s \<Rightarrow> 'e parray"
    and fits :: "'e \<Rightarrow> nat \<Rightarrow> 's \<Rightarrow> bool"
    and cap :: nat
    and enq :: "'e \<Rightarrow> bool \<Rightarrow> 's \<Rightarrow> 's option"
    and deq :: "'e \<Rightarrow> 's \<Rightarrow> 's option"
    and pick :: "'s \<Rightarrow> ('e option \<times> 's) option"
  assumes inv_view: "inv s \<Longrightarrow> pa_ok (view s)"
    and fits_level: "fits e i s \<Longrightarrow> i < LEVELS"
    and queued_fits: "inv s \<Longrightarrow> e \<in> set (pq (view s) i) \<Longrightarrow> fits e i s"
    and enq_law: "inv s \<Longrightarrow> fits e i s \<Longrightarrow> e \<notin> pa_members (view s) \<Longrightarrow> pn (view s) < cap \<Longrightarrow>
        \<exists>s'. enq e head s = Some s' \<and> inv s' \<and> view s' = pa_enq i e head (view s) \<and>
             (\<forall>e j. fits e j s' = fits e j s)"
    and deq_law: "inv s \<Longrightarrow> e \<in> set (pq (view s) i) \<Longrightarrow>
        \<exists>s'. deq e s = Some s' \<and> inv s' \<and> view s' = pa_deq i e (view s) \<and>
             (\<forall>e j. fits e j s' = fits e j s)"
    and pick_law: "inv s \<Longrightarrow>
        \<exists>s'. pick s = Some (pa_pick (view s), s') \<and> inv s' \<and> view s' = view s \<and>
             (\<forall>e j. fits e j s' = fits e j s)"
begin

text \<open>Queueing an entry and removing it again gives the array back.\<close>

lemma round_trip:
  assumes "inv s" "fits e i s" "e \<notin> pa_members (view s)" "pn (view s) < cap"
  shows "\<exists>s1 s2. enq e head s = Some s1 \<and> deq e s1 = Some s2 \<and> inv s2 \<and> view s2 = view s"
proof -
  obtain s1 where s1: "enq e head s = Some s1" "inv s1" "view s1 = pa_enq i e head (view s)"
    using enq_law assms by blast
  have ok: "pa_ok (view s)" and i: "i < LEVELS"
    using assms(1,2) by (auto intro: inv_view fits_level)
  have "e \<in> set (pq (view s1) i)" by (simp add: s1 pa_enq_def)
  then obtain s2 where "deq e s1 = Some s2" "inv s2" "view s2 = pa_deq i e (view s1)"
    using deq_law [OF s1(2)] by blast
  then show ?thesis using s1 pa_deq_enq [OF ok i assms(3)] by auto
qed

text \<open>A pick serves the lowest non-empty level, and its head.\<close>

lemma pick_is_first:
  assumes "inv s" "pick s = Some (Some e, s')"
  shows "\<exists>i es. i < LEVELS \<and> pq (view s) i = e # es \<and> (\<forall>j<i. pq (view s) j = [])"
proof -
  have "pa_pick (view s) = Some e" using pick_law [OF assms(1)] assms(2) by auto
  then show ?thesis using pa_pick_Some [OF inv_view [OF assms(1)]] by metis
qed

lemma pick_idle_iff:
  assumes "inv s"
  shows "(\<exists>s'. pick s = Some (None, s')) \<longleftrightarrow> pa_members (view s) = {}"
  using pick_law [OF assms] pa_pick_None [OF inv_view [OF assms]] by auto

text \<open>An entry queued on a level above every busy one is picked next.\<close>

lemma pick_new_highest:
  assumes "inv s" "fits e i s" "e \<notin> pa_members (view s)" "pn (view s) < cap"
    "\<And>j. j < i \<Longrightarrow> pq (view s) j = []" "head \<or> pq (view s) i = []"
  shows "\<exists>s1 s2. enq e head s = Some s1 \<and> pick s1 = Some (Some e, s2)"
proof -
  obtain s1 where s1: "enq e head s = Some s1" "inv s1" "view s1 = pa_enq i e head (view s)"
    using enq_law assms(1-4) by blast
  have "pa_pick (view s1) = Some e"
    using assms(2,5,6) inv_view [OF s1(2)]
    by (intro pa_pick_eqI [of _ i _ "pq (view s) i"]) (auto simp: s1(3) pa_enq_def dest: fits_level)
  then show ?thesis using s1(1) pick_law [OF s1(2)] by auto
qed

end

text \<open>A class that requeues an entry on its own level serves that level round-robin.\<close>

locale sched_queue = prio_class inv view fits cap enq deq pick
  for inv :: "'s \<Rightarrow> bool"
    and view :: "'s \<Rightarrow> 'e parray"
    and fits :: "'e \<Rightarrow> nat \<Rightarrow> 's \<Rightarrow> bool"
    and cap :: nat
    and enq :: "'e \<Rightarrow> bool \<Rightarrow> 's \<Rightarrow> 's option"
    and deq :: "'e \<Rightarrow> 's \<Rightarrow> 's option"
    and pick :: "'s \<Rightarrow> ('e option \<times> 's) option" +
  fixes requeue :: "'e \<Rightarrow> bool \<Rightarrow> 's \<Rightarrow> 's option"
  assumes requeue_law: "inv s \<Longrightarrow> e \<in> set (pq (view s) i) \<Longrightarrow>
        \<exists>s'. requeue e head s = Some s' \<and> inv s' \<and> view s' = pa_requeue i e head (view s) \<and>
             (\<forall>e j. fits e j s' = fits e j s)"
begin

text \<open>
  Round-robin rotation: over one full round every entry of the highest level is served exactly once, in
  queue order, and nothing else is served.
\<close>

lemma rotations_view:
  assumes "inv s" "i < LEVELS" "pq (view s) i \<noteq> []" "\<And>j. j < i \<Longrightarrow> pq (view s) j = []"
  shows "\<exists>s'. rotations pick requeue k s = Some (map (\<lambda>n. pq (view s) i ! (n mod length (pq (view s) i))) [0..<k], s') \<and>
           inv s' \<and> view s' = (pa_rotate i ^^ k) (view s)"
  using assms
proof (induction k arbitrary: s)
  case 0
  then show ?case by simp
next
  case (Suc k)
  obtain e es where q: "pq (view s) i = e # es" using Suc.prems(3) by (cases "pq (view s) i") auto
  have "pa_pick (view s) = Some e"
    using pa_pick_eqI [OF inv_view [OF Suc.prems(1)] Suc.prems(2) q Suc.prems(4)] .
  then obtain s1 where s1: "pick s = Some (Some e, s1)" "inv s1" "view s1 = view s"
    using pick_law [OF Suc.prems(1)] by auto
  have "e \<in> set (pq (view s1) i)" by (simp add: s1 q)
  from requeue_law [OF s1(2) this, of False]
  obtain s2 where s2: "requeue e False s1 = Some s2" "inv s2" "view s2 = pa_rotate i (view s)"
    by (auto simp: s1(3) pa_requeue_hd [of _ _ _ es] q)
  have qi: "pq (view s2) i = es @ [e]" and qj: "\<And>j. j < i \<Longrightarrow> pq (view s2) j = []"
    using Suc.prems(4) by (auto simp: s2(3) pa_rotate_def q)
  then obtain s3 where s3: "rotations pick requeue k s2 =
      Some (map (\<lambda>n. (es @ [e]) ! (n mod length (es @ [e]))) [0..<k], s3)"
      "inv s3" "view s3 = (pa_rotate i ^^ k) (view s2)"
    using Suc.IH [OF s2(2) Suc.prems(2)] by auto
  have shift: "(es @ [e]) ! (n mod Suc (length es)) = (e # es) ! (Suc n mod Suc (length es))" for n
    using mod_less_divisor [of "Suc (length es)" n] by (auto simp: mod_Suc nth_append less_Suc_eq)
  have "rotations pick requeue (Suc k) s = Some (e # map (\<lambda>n. (e # es) ! (Suc n mod Suc (length es))) [0..<k], s3)"
    using s1(1) s2(1) s3(1) shift by simp
  moreover have "e # map (\<lambda>n. (e # es) ! (Suc n mod Suc (length es))) [0..<k] =
      map (\<lambda>n. (e # es) ! (n mod Suc (length es))) [0..<Suc k]"
    by (simp add: upt_conv_Cons map_Suc_upt [symmetric] del: upt_Suc)
  moreover have "view s3 = (pa_rotate i ^^ Suc k) (view s)"
    by (simp add: s3(3) s2(3) funpow_swap1)
  ultimately show ?case using s3(2) q by auto
qed

lemma full_round:
  assumes "inv s" "i < LEVELS" "pq (view s) i \<noteq> []" "\<And>j. j < i \<Longrightarrow> pq (view s) j = []"
  shows "\<exists>s'. rotations pick requeue (length (pq (view s) i)) s = Some (pq (view s) i, s') \<and>
           inv s' \<and> view s' = view s"
proof -
  let ?xs = "pq (view s) i"
  have "map (\<lambda>n. ?xs ! (n mod length ?xs)) [0..<length ?xs] = ?xs"
    by (rule nth_equalityI) auto
  moreover have "(pa_rotate i ^^ length ?xs) (view s) = view s"
    by (simp add: pa_rotate_pow rotate_id)
  ultimately show ?thesis using rotations_view [OF assms, of "length ?xs"] by auto
qed

end

end
