(* ===== verification/Wrr_Queue.thy ===== *)
theory Wrr_Queue
  imports Kernel_State Prio_Array
begin

text \<open>
  What the WRR classes share: addressing of \<open>struct wrr_prio_array\<close>, the view of a CPU's
  \<open>struct wrr_rq\<close> as an abstract priority array, the invariant of all CPUs' WRR queues, and the
  net effect of enqueueing, dequeueing and moving an entity. The invariant is parametrised by
  the level function \<open>lev\<close> (the queue index a task's \<open>rt_priority\<close> selects), which differs
  between the classes.
\<close>

section \<open>Addressing the priority array\<close>

text \<open>\<open>array->queue + i\<close>: a head outside the array is not one of its lists (\<open>None\<close>).\<close>

definition array_queue :: "rq_ref \<Rightarrow> int \<Rightarrow> (rq_ref \<times> nat) option" where
  "array_queue q i = (if 0 \<le> i \<and> i < MAX_WRR_PRIO then Some (q, nat i) else None)"

definition set_wrr_bit :: "nat \<Rightarrow> wrr_rq \<Rightarrow> wrr_rq" where
  "set_wrr_bit i r = r\<lparr>wrr_bitmap := (wrr_bitmap r)(i := True)\<rparr>"

definition clear_wrr_bit :: "nat \<Rightarrow> wrr_rq \<Rightarrow> wrr_rq" where
  "clear_wrr_bit i r = r\<lparr>wrr_bitmap := (wrr_bitmap r)(i := False)\<rparr>"

lemma array_queue_nat: "i < LEVELS \<Longrightarrow> array_queue q (int i) = Some (q, i)"
  by (simp add: array_queue_def)

lemma array_queue_range: "array_queue q i = Some h \<Longrightarrow> 0 \<le> i \<and> i < 100"
  by (auto simp: array_queue_def split: if_splits)

section \<open>Initialisation\<close>

text \<open>
  \<open>init_wrr_rq\<close> and \<open>init_tg_wrr_entry\<close> of core.c. An entity is stored in its task or in
  \<open>wrr_gses\<close>.
\<close>

definition get_wrr_se :: "kst \<Rightarrow> se_ref \<Rightarrow> sched_wrr_entity" where
  "get_wrr_se s e = (case e of Se_of_task p \<Rightarrow> wrr (tasks s p) | Se_of_group tg c \<Rightarrow> wrr_gses s tg c)"

definition upd_wrr_se :: "se_ref \<Rightarrow> (sched_wrr_entity \<Rightarrow> sched_wrr_entity) \<Rightarrow> kst \<Rightarrow> kst" where
  "upd_wrr_se e f s = (case e of
      Se_of_task p \<Rightarrow> upd_task p (\<lambda>t. t\<lparr>wrr := f (wrr t)\<rparr>) s
    | Se_of_group tg c \<Rightarrow>
        s\<lparr>wrr_gses := (wrr_gses s)(tg := (wrr_gses s tg)(c := f (wrr_gses s tg c)))\<rparr>)"

definition init_wrr_rq :: "rq_ref \<Rightarrow> kst \<Rightarrow> kst" where
  "init_wrr_rq q s =
     (let s = fold (\<lambda>i s. upd_wrr_rq q (clear_wrr_bit i) (s\<lparr>wrr_list := init_head (q, i) (wrr_list s)\<rparr>))
                [0..<nat MAX_WRR_PRIO] s
      in upd_wrr_rq q (set_wrr_bit (nat MAX_WRR_PRIO)) s)"

definition init_tg_wrr_entry ::
  "tgid \<Rightarrow> rq_ref \<Rightarrow> se_ref option \<Rightarrow> cpu \<Rightarrow> se_ref option \<Rightarrow> kst \<Rightarrow> kst" where
  "init_tg_wrr_entry tg q wrr_se c parent s =
     (let s = upd_wrr_rq q (\<lambda>r. r\<lparr>wrr_highest_curr := MAX_WRR_PRIO\<rparr>) s;
          s = upd_wrr_rq q (\<lambda>r. r\<lparr>wrr_rq_rq := Some c\<rparr>) s;
          s = upd_wrr_rq q (\<lambda>r. r\<lparr>wrr_tg := Some tg\<rparr>) s;
          upd_tg = (\<lambda>f s. s\<lparr>task_groups := (task_groups s)(tg := f (task_groups s tg))\<rparr>);
          s = upd_tg (\<lambda>g. g\<lparr>tg_wrr_rq := (tg_wrr_rq g)(c := Some q)\<rparr>) s;
          s = upd_tg (\<lambda>g. g\<lparr>tg_wrr_se := (tg_wrr_se g)(c := wrr_se)\<rparr>) s
      in case wrr_se of
           None \<Rightarrow> s
         | Some e \<Rightarrow>
             let s = upd_wrr_se e (\<lambda>w. w\<lparr>wrr_rq_ptr := (case parent of
                                            None \<Rightarrow> Some (Rq_of_cpu c)
                                          | Some pe \<Rightarrow> wrr_my_q (get_wrr_se s pe))\<rparr>) s;
                 s = upd_wrr_se e (\<lambda>w. w\<lparr>wrr_my_q := Some q\<rparr>) s;
                 s = upd_wrr_se e (\<lambda>w. w\<lparr>wrr_parent := parent\<rparr>) s
             in s\<lparr>wrr_list := (wrr_list s)\<lparr>owner := (owner (wrr_list s))(e := None)\<rparr>\<rparr>)"

text \<open>The WRR part of \<open>sched_init\<close>'s loop over the possible CPUs; 0 is the root task group.\<close>

definition root_task_group :: tgid where "root_task_group = 0"

definition sched_init_wrr_cpu :: "cpu \<Rightarrow> kst \<Rightarrow> kst" where
  "sched_init_wrr_cpu c s =
     (let s = upd_rq c (\<lambda>r. r\<lparr>nr_running := 0\<rparr>) s;
          s = init_wrr_rq (Rq_of_cpu c) s;
          s = s\<lparr>leaf_wrr := init_head c (leaf_wrr s)\<rparr>
      in init_tg_wrr_entry root_task_group (Rq_of_cpu c) None c None s)"

definition sched_init_wrr :: "kst \<Rightarrow> kst" where
  "sched_init_wrr s = fold sched_init_wrr_cpu [0..<nr_cpus s] s"

section \<open>View and invariant\<close>

definition wrr_view :: "cpu \<Rightarrow> kst \<Rightarrow> se_ref parray" where
  "wrr_view c s =
     \<lparr>pq = (\<lambda>i. items (wrr_list s) (Rq_of_cpu c, i)),
      pb = wrr_bitmap (wrr_rqs s (Rq_of_cpu c)),
      pn = unat (wrr_nr_running (wrr_rqs s (Rq_of_cpu c)))\<rparr>"

definition wrr_fits :: "(u32 \<Rightarrow> int) \<Rightarrow> cpu \<Rightarrow> se_ref \<Rightarrow> nat \<Rightarrow> kst \<Rightarrow> bool" where
  "wrr_fits lev c e i s \<longleftrightarrow>
     i < LEVELS \<and> c < nr_cpus s \<and> (case e of
        Se_of_task p \<Rightarrow> lev (rt_priority (tasks s p)) = int i \<and> task_cpu s p = c
      | Se_of_group _ _ \<Rightarrow> False)"

definition wrr_rq_ok :: "cpu \<Rightarrow> kst \<Rightarrow> bool" where
  "wrr_rq_ok c s \<longleftrightarrow>
     pa_ok (wrr_view c s) \<and> wrr_rq_rq (wrr_rqs s (Rq_of_cpu c)) = Some c \<and>
     owner (leaf_wrr s) (Rq_of_cpu c) =
       (if wrr_nr_running (wrr_rqs s (Rq_of_cpu c)) = 0 then None else Some c)"

definition wrr_placed :: "(u32 \<Rightarrow> int) \<Rightarrow> kst \<Rightarrow> bool" where
  "wrr_placed lev s \<longleftrightarrow>
     (\<forall>e q i. owner (wrr_list s) e = Some (q, i) \<longrightarrow>
        (\<exists>c. q = Rq_of_cpu c \<and> wrr_fits lev c e i s))"

definition wrr_inv :: "(u32 \<Rightarrow> int) \<Rightarrow> kst \<Rightarrow> bool" where
  "wrr_inv lev s \<longleftrightarrow>
     klist_ok (wrr_list s) \<and> klist_ok (leaf_wrr s) \<and> wrr_placed lev s \<and> (\<forall>c < nr_cpus s. wrr_rq_ok c s)"

lemma wrr_view_simps [simp]:
  "pq (wrr_view c s) i = items (wrr_list s) (Rq_of_cpu c, i)"
  "pb (wrr_view c s) = wrr_bitmap (wrr_rqs s (Rq_of_cpu c))"
  "pn (wrr_view c s) = unat (wrr_nr_running (wrr_rqs s (Rq_of_cpu c)))"
  by (simp_all add: wrr_view_def)

lemma wrr_invD:
  assumes "wrr_inv lev s"
  shows "klist_ok (wrr_list s)" "klist_ok (leaf_wrr s)" "wrr_placed lev s"
    "c < nr_cpus s \<Longrightarrow> wrr_rq_ok c s" "c < nr_cpus s \<Longrightarrow> pa_ok (wrr_view c s)"
  using assms by (auto simp: wrr_inv_def wrr_rq_ok_def)

lemma wrr_fits_cases:
  assumes "wrr_fits lev c e i s"
  obtains p where "e = Se_of_task p" "lev (rt_priority (tasks s p)) = int i" "task_cpu s p = c"
    "i < LEVELS" "c < nr_cpus s"
  using assms by (cases e) (auto simp: wrr_fits_def)

lemma wrr_fits_task [simp]:
  "wrr_fits lev c (Se_of_task p) i s \<longleftrightarrow>
     i < LEVELS \<and> c < nr_cpus s \<and> lev (rt_priority (tasks s p)) = int i \<and> task_cpu s p = c"
  by (auto simp: wrr_fits_def)

lemma wrr_placedD:
  "wrr_inv lev s \<Longrightarrow> owner (wrr_list s) e = Some (q, i) \<Longrightarrow> \<exists>c. q = Rq_of_cpu c \<and> wrr_fits lev c e i s"
  by (simp add: wrr_inv_def wrr_placed_def)

lemma wrr_fits_bounds: "wrr_fits lev c e i s \<Longrightarrow> i < LEVELS \<and> c < nr_cpus s"
  by (simp add: wrr_fits_def)

lemma queued_wrr_fits:
  assumes "wrr_inv lev s" "e \<in> set (items (wrr_list s) (Rq_of_cpu c, i))"
  shows "wrr_fits lev c e i s"
  using assms by (fastforce simp: wrr_inv_def wrr_placed_def klist_ok_owner)

lemma wrr_linked_view:
  assumes "wrr_inv lev s" "wrr_fits lev c e i s"
  shows "linked e (wrr_list s) \<longleftrightarrow> e \<in> pa_members (wrr_view c s)"
proof
  assume "linked e (wrr_list s)"
  then obtain q j where o: "owner (wrr_list s) e = Some (q, j)" by (auto simp: linked_def)
  then obtain d where d: "q = Rq_of_cpu d" "wrr_fits lev d e j s"
    using wrr_placedD [OF assms(1)] by blast
  have "d = c" using d(2) assms(2) by (auto elim!: wrr_fits_cases)
  then have "e \<in> set (pq (wrr_view c s) j)"
    using o d assms(1) by (simp add: klist_ok_owner wrr_invD)
  then show "e \<in> pa_members (wrr_view c s)"
    using pa_members_iff [OF wrr_invD(5) [OF assms(1)]] wrr_fits_bounds [OF assms(2)] by blast
next
  assume "e \<in> pa_members (wrr_view c s)"
  then show "linked e (wrr_list s)"
    using assms(1) pa_members_iff [OF wrr_invD(5) [OF assms(1)]] wrr_fits_bounds [OF assms(2)]
    by (auto simp: linked_def klist_ok_owner wrr_invD)
qed

lemma wrr_unlinked:
  "wrr_inv lev s \<Longrightarrow> wrr_fits lev c e i s \<Longrightarrow> e \<notin> pa_members (wrr_view c s) \<Longrightarrow>
   owner (wrr_list s) e = None"
  using wrr_linked_view not_linked_iff by metis

section \<open>States that agree on the WRR queues\<close>

text \<open>Most bookkeeping leaves the queues, the tasks' levels and their CPUs alone.\<close>

definition wrr_same :: "kst \<Rightarrow> kst \<Rightarrow> bool" where
  "wrr_same s s' \<longleftrightarrow>
     nr_cpus s' = nr_cpus s \<and> wrr_list s' = wrr_list s \<and> leaf_wrr s' = leaf_wrr s \<and> wrr_rqs s' = wrr_rqs s \<and>
     (\<forall>p. rt_priority (tasks s' p) = rt_priority (tasks s p) \<and> task_cpu s' p = task_cpu s p)"

lemma wrr_same_refl [simp]: "wrr_same s s"
  by (simp add: wrr_same_def)

lemma wrr_same_trans: "wrr_same s s' \<Longrightarrow> wrr_same s' s'' \<Longrightarrow> wrr_same s s''"
  by (simp add: wrr_same_def)

lemma wrr_same_fits: "wrr_same s s' \<Longrightarrow> wrr_fits lev c e i s' = wrr_fits lev c e i s"
  by (auto simp: wrr_same_def wrr_fits_def split: se_ref.splits)

lemma wrr_same_nr_cpus: "wrr_same s s' \<Longrightarrow> nr_cpus s' = nr_cpus s"
  by (simp add: wrr_same_def)

lemma wrr_same_view: "wrr_same s s' \<Longrightarrow> wrr_view c s' = wrr_view c s"
  by (simp add: wrr_same_def wrr_view_def)

lemma wrr_same_inv: "wrr_same s s' \<Longrightarrow> wrr_inv lev s' = wrr_inv lev s"
  by (simp add: wrr_inv_def wrr_placed_def wrr_rq_ok_def wrr_same_fits wrr_same_view)
    (simp add: wrr_same_def)

lemma wrr_same_ext [simp]: "wrr_same s (ext x s)"
  by (simp add: wrr_same_def ext_def task_cpu_def)

lemma wrr_same_resched_task [simp]: "wrr_same s (resched_task E p s)"
  by (simp add: wrr_same_def resched_task_def Let_def set_tsk_need_resched_def ext_def task_cpu_def)

lemma wrr_same_set_tsk_need_resched [simp]: "wrr_same s (set_tsk_need_resched p s)"
  by (simp add: wrr_same_def set_tsk_need_resched_def task_cpu_def)

lemma wrr_same_nr_running [simp]:
  "wrr_same s (inc_nr_running c s)" "wrr_same s (dec_nr_running c s)"
  by (simp_all add: wrr_same_def inc_nr_running_def dec_nr_running_def task_cpu_def)

lemma wrr_same_cpuacct_charge [simp]: "wrr_same s (cpuacct_charge E p d s)"
  by (simp add: wrr_same_def cpuacct_charge_def Let_def task_cpu_def)

section \<open>Net effects\<close>

definition q_enq :: "cpu \<Rightarrow> nat \<Rightarrow> se_ref \<Rightarrow> bool \<Rightarrow> kst \<Rightarrow> kst" where
  "q_enq c i e head s =
     (let q = Rq_of_cpu c; L = wrr_list s; F = leaf_wrr s; r = wrr_rqs s q; xs = items L (q, i) in
      s\<lparr>leaf_wrr := (if wrr_nr_running r = 0
                     then F\<lparr>items := (items F)(c := q # items F c), owner := (owner F)(q := Some c)\<rparr>
                     else F),
        wrr_list := L\<lparr>items := (items L)((q, i) := if head then e # xs else xs @ [e]),
                      owner := (owner L)(e := Some (q, i))\<rparr>,
        wrr_rqs := (wrr_rqs s)(q := r\<lparr>wrr_bitmap := (wrr_bitmap r)(i := True),
                                      wrr_nr_running := wrr_nr_running r + 1\<rparr>)\<rparr>)"

definition q_deq :: "cpu \<Rightarrow> nat \<Rightarrow> se_ref \<Rightarrow> kst \<Rightarrow> kst" where
  "q_deq c i e s =
     (let q = Rq_of_cpu c; L = list_del_init e (wrr_list s); r = wrr_rqs s q in
      s\<lparr>wrr_list := L,
        leaf_wrr := (if wrr_nr_running r = 1 then list_del_init q (leaf_wrr s) else leaf_wrr s),
        wrr_rqs := (wrr_rqs s)(q := r\<lparr>wrr_bitmap := (wrr_bitmap r)(i := items L (q, i) \<noteq> []),
                                      wrr_nr_running := wrr_nr_running r - 1\<rparr>)\<rparr>)"

definition q_move :: "cpu \<Rightarrow> nat \<Rightarrow> se_ref \<Rightarrow> bool \<Rightarrow> kst \<Rightarrow> kst" where
  "q_move c i e head s =
     (let q = Rq_of_cpu c; L = list_del_init e (wrr_list s); xs = items L (q, i) in
      s\<lparr>wrr_list := L\<lparr>items := (items L)((q, i) := if head then e # xs else xs @ [e]),
                     owner := (owner L)(e := Some (q, i))\<rparr>\<rparr>)"

lemma nr_cpus_net [simp]:
  "nr_cpus (q_enq c i e head s) = nr_cpus s" "nr_cpus (q_deq c i e s) = nr_cpus s"
  "nr_cpus (q_move c i e head s) = nr_cpus s" "nr_cpus (inc_nr_running d s) = nr_cpus s"
  "nr_cpus (dec_nr_running d s) = nr_cpus s"
  by (simp_all add: q_enq_def q_deq_def q_move_def inc_nr_running_def dec_nr_running_def Let_def)

lemma rqs_net [simp]:
  "rqs (q_enq c i e head s) = rqs s" "rqs (q_deq c i e s) = rqs s" "rqs (q_move c i e head s) = rqs s"
  by (simp_all add: q_enq_def q_deq_def q_move_def Let_def)

lemma tasks_net [simp]:
  "tasks (q_enq c i e head s) = tasks s" "tasks (q_deq c i e s) = tasks s"
  "tasks (q_move c i e head s) = tasks s"
  by (simp_all add: q_enq_def q_deq_def q_move_def Let_def)

text \<open>Queues of other CPUs are not touched.\<close>

lemma net_other_cpu:
  "d \<noteq> c \<Longrightarrow> wrr_view d (q_enq c i e head s) = wrr_view d s"
  "d \<noteq> c \<Longrightarrow> wrr_inv lev s \<Longrightarrow> e \<in> set (items (wrr_list s) (Rq_of_cpu c, i)) \<Longrightarrow>
     wrr_view d (q_deq c i e s) = wrr_view d s"
  "d \<noteq> c \<Longrightarrow> wrr_inv lev s \<Longrightarrow> e \<in> set (items (wrr_list s) (Rq_of_cpu c, i)) \<Longrightarrow>
     wrr_view d (q_move c i e head s) = wrr_view d s"
  by (simp_all add: q_enq_def q_deq_def q_move_def Let_def wrr_view_def list_del_init_def
      klist_ok_owner wrr_invD)

lemma wrr_inv_q_enq:
  assumes inv: "wrr_inv lev s" and fits: "wrr_fits lev c e i s"
    and new: "e \<notin> pa_members (wrr_view c s)"
    and cap: "pn (wrr_view c s) < 2 ^ 32 - 1"
  shows "wrr_view c (q_enq c i e head s) = pa_enq i e head (wrr_view c s)"
    and "wrr_inv lev (q_enq c i e head s)"
    and "wrr_fits lev d e' j (q_enq c i e head s) = wrr_fits lev d e' j s"
proof -
  let ?s = "q_enq c i e head s" and ?q = "Rq_of_cpu c"
  have inc: "unat (wrr_nr_running (wrr_rqs s ?q) + 1) = Suc (unat (wrr_nr_running (wrr_rqs s ?q)))"
    using cap by (intro unat_inc) simp
  have ne: "wrr_nr_running (wrr_rqs s ?q) + 1 \<noteq> 0" using inc by (metis Zero_not_Suc unat_0)
  show view: "wrr_view c ?s = pa_enq i e head (wrr_view c s)"
    by (simp add: q_enq_def Let_def wrr_view_def pa_enq_def fun_eq_iff inc)
  have unl: "\<not> linked e (wrr_list s)" using wrr_linked_view [OF inv fits] new by simp
  have other: "wrr_view d ?s = wrr_view d s" if "d \<noteq> c" for d
    using that by (simp add: q_enq_def Let_def wrr_view_def)
  show fits': "wrr_fits lev d e' j ?s = wrr_fits lev d e' j s" for d e' j
    by (simp add: q_enq_def Let_def wrr_fits_def task_cpu_def split: se_ref.split)
  have i: "i < LEVELS" and c: "c < nr_cpus s" using fits by (simp_all add: wrr_fits_def)
  have nr: "nr_cpus ?s = nr_cpus s" by (simp add: q_enq_def Let_def)
  have ok: "pa_ok (wrr_view d ?s)" if "d < nr_cpus s" for d
    using pa_ok_enq [OF wrr_invD(5) [OF inv c] i new] other [of d] wrr_invD(5) [OF inv that]
    by (cases "d = c") (simp_all add: view)
  have "klist_ok (wrr_list ?s)"
    using klist_ok_link [OF wrr_invD(1) [OF inv], of e "(?q, i)" head] unl
    by (cases head; cases "owner (wrr_list s) e") (simp_all add: q_enq_def Let_def linked_def)
  moreover have "klist_ok (leaf_wrr ?s)"
    using klist_ok_link [OF wrr_invD(2) [OF inv], of ?q c True] wrr_invD(2) [OF inv] wrr_invD(4) [OF inv c]
    by (simp add: q_enq_def Let_def wrr_rq_ok_def)
  moreover have "wrr_placed lev ?s"
    using wrr_invD(3) [OF inv] fits unfolding wrr_placed_def fits'
    by (auto simp: q_enq_def Let_def)
  moreover have "wrr_rq_ok d ?s" if "d < nr_cpus s" for d
    unfolding wrr_rq_ok_def using ok [OF that] wrr_invD(4) [OF inv that] ne
    by (cases "d = c") (auto simp: q_enq_def Let_def wrr_rq_ok_def)
  ultimately show "wrr_inv lev ?s" by (simp add: wrr_inv_def nr)
qed

lemma wrr_inv_q_deq:
  assumes inv: "wrr_inv lev s" and mem: "e \<in> set (items (wrr_list s) (Rq_of_cpu c, i))"
  shows "wrr_view c (q_deq c i e s) = pa_deq i e (wrr_view c s)"
    and "wrr_inv lev (q_deq c i e s)"
    and "wrr_fits lev d e' j (q_deq c i e s) = wrr_fits lev d e' j s"
proof -
  let ?s = "q_deq c i e s" and ?q = "Rq_of_cpu c"
  let ?n = "wrr_nr_running (wrr_rqs s ?q)"
  have c: "c < nr_cpus s" using wrr_fits_bounds [OF queued_wrr_fits [OF inv mem]] by simp
  have nr: "nr_cpus ?s = nr_cpus s" by (simp add: q_deq_def Let_def)
  have K: "klist_ok (wrr_list s)" and ok0: "pa_ok (wrr_view c s)"
    using wrr_invD [OF inv] c by simp_all
  have own: "owner (wrr_list s) e = Some (?q, i)" using mem K by (simp add: klist_ok_owner)
  have mem': "e \<in> set (pq (wrr_view c s) i)" using mem by simp
  have "pn (wrr_view c s) \<noteq> 0"
    using pa_ok_count [OF ok0] pa_ok_level [OF ok0 mem'] mem' by (auto intro!: bexI [of _ i])
  then have n0: "?n \<noteq> 0" by (simp add: unat_eq_zero)
  show view: "wrr_view c ?s = pa_deq i e (wrr_view c s)"
    using own unat_dec [OF n0]
    by (simp add: q_deq_def Let_def wrr_view_def pa_deq_def fun_eq_iff list_del_init_def)
  have other: "wrr_view d ?s = wrr_view d s" if "d \<noteq> c" for d
    using that own by (simp add: q_deq_def Let_def wrr_view_def list_del_init_def)
  show fits': "wrr_fits lev d e' j ?s = wrr_fits lev d e' j s" for d e' j
    by (simp add: q_deq_def Let_def wrr_fits_def task_cpu_def split: se_ref.split)
  have ok: "pa_ok (wrr_view d ?s)" if "d < nr_cpus s" for d
    using pa_ok_deq [OF ok0 mem'] other [of d] wrr_invD(5) [OF inv that]
    by (cases "d = c") (simp_all add: view)
  have "klist_ok (wrr_list ?s)" "klist_ok (leaf_wrr ?s)"
    using K wrr_invD(2) [OF inv] by (simp_all add: q_deq_def Let_def)
  moreover have "wrr_placed lev ?s"
    using wrr_invD(3) [OF inv] unfolding wrr_placed_def fits'
    by (simp add: q_deq_def Let_def)
  moreover have "wrr_rq_ok d ?s" if "d < nr_cpus s" for d
    unfolding wrr_rq_ok_def using ok [OF that] wrr_invD(4) [OF inv that] n0
    by (cases "d = c") (simp_all add: q_deq_def Let_def wrr_rq_ok_def)
  ultimately show "wrr_inv lev ?s" by (simp add: wrr_inv_def nr)
qed

lemma wrr_inv_q_move:
  assumes inv: "wrr_inv lev s" and mem: "e \<in> set (items (wrr_list s) (Rq_of_cpu c, i))"
  shows "wrr_view c (q_move c i e head s) = pa_requeue i e head (wrr_view c s)"
    and "wrr_inv lev (q_move c i e head s)"
    and "wrr_fits lev d e' j (q_move c i e head s) = wrr_fits lev d e' j s"
proof -
  let ?s = "q_move c i e head s" and ?q = "Rq_of_cpu c"
  have c: "c < nr_cpus s" using wrr_fits_bounds [OF queued_wrr_fits [OF inv mem]] by simp
  have nr: "nr_cpus ?s = nr_cpus s" by (simp add: q_move_def Let_def)
  have K: "klist_ok (wrr_list s)" and ok0: "pa_ok (wrr_view c s)"
    using wrr_invD [OF inv] c by simp_all
  have own: "owner (wrr_list s) e = Some (?q, i)" using mem K by (simp add: klist_ok_owner)
  have mem': "e \<in> set (pq (wrr_view c s) i)" using mem by simp
  show view: "wrr_view c ?s = pa_requeue i e head (wrr_view c s)"
    using own by (simp add: q_move_def Let_def wrr_view_def pa_requeue_def fun_eq_iff list_del_init_def)
  have other: "wrr_view d ?s = wrr_view d s" if "d \<noteq> c" for d
    using that own by (simp add: q_move_def Let_def wrr_view_def list_del_init_def)
  show fits': "wrr_fits lev d e' j ?s = wrr_fits lev d e' j s" for d e' j
    by (simp add: q_move_def Let_def wrr_fits_def task_cpu_def split: se_ref.split)
  have ok: "pa_ok (wrr_view d ?s)" if "d < nr_cpus s" for d
    using pa_ok_requeue [OF ok0 mem'] other [of d] wrr_invD(5) [OF inv that]
    by (cases "d = c") (simp_all add: view)
  have "klist_ok (wrr_list ?s)"
    using klist_ok_link [OF klist_ok_list_del_init [OF K, of e], of e "(?q, i)" head]
    by (cases head) (simp_all add: q_move_def Let_def)
  moreover have "klist_ok (leaf_wrr ?s)"
    using wrr_invD(2) [OF inv] by (simp add: q_move_def Let_def)
  moreover have "wrr_placed lev ?s"
    using wrr_invD(3) [OF inv] queued_wrr_fits [OF inv mem] unfolding wrr_placed_def fits'
    by (simp add: q_move_def Let_def)
  moreover have "wrr_rq_ok d ?s" if "d < nr_cpus s" for d
    unfolding wrr_rq_ok_def using ok [OF that] wrr_invD(4) [OF inv that]
    by (simp add: q_move_def Let_def wrr_rq_ok_def)
  ultimately show "wrr_inv lev ?s" by (simp add: wrr_inv_def nr)
qed

section \<open>Initialisation establishes the invariant\<close>

lemma init_wrr_rq_eq:
  assumes "wrr_list s = klist_empty"
  shows "init_wrr_rq q s = upd_wrr_rq q (\<lambda>r. r\<lparr>wrr_bitmap :=
           (\<lambda>i. if i < LEVELS then False else if i = LEVELS then True else wrr_bitmap r i)\<rparr>) s"
proof -
  have "fold (\<lambda>i s. upd_wrr_rq q (clear_wrr_bit i) (s\<lparr>wrr_list := init_head (q, i) (wrr_list s)\<rparr>)) [0..<n] s =
      upd_wrr_rq q (\<lambda>r. r\<lparr>wrr_bitmap := (\<lambda>i. if i < n then False else wrr_bitmap r i)\<rparr>) s" for n
  proof (induction n)
    case 0
    then show ?case by simp
  next
    case (Suc n)
    then show ?case
      using assms by (simp add: clear_wrr_bit_def init_head_def klist_empty_def fun_eq_iff less_Suc_eq)
  qed
  then show ?thesis
    by (simp add: init_wrr_rq_def set_wrr_bit_def fun_eq_iff)
qed

definition booted :: "nat \<Rightarrow> kst \<Rightarrow> bool" where
  "booted k s \<longleftrightarrow>
     wrr_list s = klist_empty \<and> leaf_wrr s = klist_empty \<and> (\<forall>q. wrr_nr_running (wrr_rqs s q) = 0) \<and>
     (\<forall>c<k. wrr_rq_rq (wrr_rqs s (Rq_of_cpu c)) = Some c \<and>
            (\<forall>i<LEVELS. \<not> wrr_bitmap (wrr_rqs s (Rq_of_cpu c)) i) \<and>
            wrr_bitmap (wrr_rqs s (Rq_of_cpu c)) LEVELS)"

lemma booted_inv: "booted (nr_cpus s) s \<Longrightarrow> wrr_inv lev s"
  by (simp add: booted_def wrr_inv_def wrr_placed_def wrr_rq_ok_def pa_ok_def klist_empty_def
      klist_ok_def)

lemma sched_init_wrr_booted:
  assumes "booted 0 s"
  shows "booted (nr_cpus s) (sched_init_wrr s)" "nr_cpus (sched_init_wrr s) = nr_cpus s"
proof -
  have step: "booted (Suc k) (sched_init_wrr_cpu k s') \<and> nr_cpus (sched_init_wrr_cpu k s') = nr_cpus s'"
    if "booted k s'" for k s'
    using that
    by (simp add: booted_def init_wrr_rq_eq sched_init_wrr_cpu_def init_tg_wrr_entry_def Let_def
        less_Suc_eq)
  have "booted k (fold sched_init_wrr_cpu [0..<k] s) \<and>
        nr_cpus (fold sched_init_wrr_cpu [0..<k] s) = nr_cpus s" for k
  proof (induction k)
    case 0
    then show ?case using assms by simp
  next
    case (Suc k)
    then show ?case using step by simp
  qed
  then show "booted (nr_cpus s) (sched_init_wrr s)" "nr_cpus (sched_init_wrr s) = nr_cpus s"
    unfolding sched_init_wrr_def by blast+
qed

lemma booted_bss: "booted 0 (bss n)"
  by (simp add: booted_def bss_defs)

definition machine :: "nat \<Rightarrow> kst" where
  "machine n = sched_init_wrr (bss n)"

lemma machine_inv [simp]: "wrr_inv lev (machine n)" "nr_cpus (machine n) = n"
proof -
  have n: "nr_cpus (bss n) = n" by (simp add: bss_def)
  then show "nr_cpus (machine n) = n" using sched_init_wrr_booted(2) [OF booted_bss, of n] by (simp add: machine_def)
  then show "wrr_inv lev (machine n)"
    using sched_init_wrr_booted(1) [OF booted_bss, of n] n by (intro booted_inv) (simp add: machine_def)
qed

lemma machine_tasks_inv [simp]:
  "wrr_inv lev ((machine n)\<lparr>tasks := T\<rparr>)" "nr_cpus ((machine n)\<lparr>tasks := T\<rparr>) = n"
proof -
  have "booted n ((machine n)\<lparr>tasks := T\<rparr>)"
    using sched_init_wrr_booted(1) [OF booted_bss, of n]
    by (simp add: machine_def booted_def bss_def)
  then show "wrr_inv lev ((machine n)\<lparr>tasks := T\<rparr>)"
    using booted_inv [of "(machine n)\<lparr>tasks := T\<rparr>"] by simp
  show "nr_cpus ((machine n)\<lparr>tasks := T\<rparr>) = n" by simp
qed

text \<open>
  A sample machine: one CPU, tasks below 10 share \<open>rt_priority\<close> 50, the others have 40; all are
  WRR tasks in the root group with two ticks left.
\<close>

definition sample_task :: "tid \<Rightarrow> task_struct" where
  "sample_task p = zero_task\<lparr>rt_priority := (if p < 10 then 50 else 40), policy := SCHED_WRR,
     task_class := wrr_sched_class, on_rq := True,
     wrr := (wrr zero_task)\<lparr>wrr_time_slice := 1\<rparr>\<rparr>"

definition sample :: kst where
  "sample = (machine 1)\<lparr>tasks := sample_task\<rparr>"

lemma machine_fields [simp]:
  "wrr_list (machine n) = klist_empty" "leaf_wrr (machine n) = klist_empty"
  "wrr_nr_running (wrr_rqs (machine n) q) = 0"
  using sched_init_wrr_booted(1) [OF booted_bss, of n]
  by (simp_all add: machine_def booted_def)

lemma sample_fields [simp]:
  "nr_cpus sample = 1" "wrr_list sample = klist_empty" "leaf_wrr sample = klist_empty"
  "wrr_nr_running (wrr_rqs sample q) = 0" "tasks sample = sample_task"
  by (simp_all add: sample_def)

lemma sample_inv [simp]: "wrr_inv lev sample"
  unfolding sample_def by (rule machine_tasks_inv)

lemma sample_task_simps [simp]:
  "rt_priority (sample_task p) = (if p < 10 then 50 else 40)" "policy (sample_task p) = SCHED_WRR"
  "ti_cpu (sample_task p) = 0" "wrr_time_slice (wrr (sample_task p)) = 1"
  "sched_task_group (sample_task p) = 0" "task_class (sample_task p) = wrr_sched_class"
  "on_rq (sample_task p)"
  by (simp_all add: sample_task_def zero_task_def)

end
