(* ===== verification/Class_Run.thy ===== *)
theory Class_Run
  imports Wrr_Queue
begin

text \<open>
  Runs of a scheduling class: the calls the core scheduler makes into the class table of a
  WRR class, the protocol it follows, and the locale that turns "each allowed call keeps the
  invariant" into "no run crashes".
\<close>

section \<open>Events\<close>

text \<open>
  A task is woken onto its own CPU when it is not queued and put to sleep when it is; the tick
  and yield are for the CPU's current task. \<open>Reschedule\<close> is the put/pick/set sequence of
  \<open>__schedule\<close>.
\<close>

datatype wrr_event =
    Wake cpu tid u32
  | Sleep cpu tid u32
  | Yield cpu
  | Tick cpu
  | Reschedule cpu

fun class_exec :: "class_ops \<Rightarrow> wrr_event \<Rightarrow> kst \<Rightarrow> kst option" where
  "class_exec C (Wake c p flags) s = op_enqueue_task C c p flags s"
| "class_exec C (Sleep c p flags) s = op_dequeue_task C c p flags s"
| "class_exec C (Yield c) s = op_yield_task C c s"
| "class_exec C (Tick c) s = op_task_tick C c (curr (rqs s c)) False s"
| "class_exec C (Reschedule c) s = do {
     s \<leftarrow> op_put_prev_task C c (curr (rqs s c)) s;
     (next, s) \<leftarrow> op_pick_next_task C c s;
     Some (upd_rq c (\<lambda>r. r\<lparr>curr := (case next of Some p \<Rightarrow> p | None \<Rightarrow> idle r)\<rparr>) s)
   }"

fun class_enabled :: "wrr_event \<Rightarrow> kst \<Rightarrow> bool" where
  "class_enabled (Wake c p flags) s \<longleftrightarrow>
     c < nr_cpus s \<and> task_cpu s p = c \<and> rt_priority (tasks s p) < 100 \<and>
     \<not> linked (Se_of_task p) (wrr_list s) \<and>
     unat (wrr_nr_running (wrr_rqs s (Rq_of_cpu c))) < 2 ^ 32 - 1"
| "class_enabled (Sleep c p flags) s \<longleftrightarrow> task_cpu s p = c \<and> linked (Se_of_task p) (wrr_list s)"
| "class_enabled (Yield c) s \<longleftrightarrow>
     task_cpu s (curr (rqs s c)) = c \<and> linked (Se_of_task (curr (rqs s c))) (wrr_list s)"
| "class_enabled (Tick c) s \<longleftrightarrow>
     task_cpu s (curr (rqs s c)) = c \<and>
     (policy (tasks s (curr (rqs s c))) = SCHED_WRR \<longrightarrow>
        linked (Se_of_task (curr (rqs s c))) (wrr_list s))"
| "class_enabled (Reschedule c) s \<longleftrightarrow> c < nr_cpus s"

inductive class_step :: "class_ops \<Rightarrow> kst \<Rightarrow> kst \<Rightarrow> bool" for C where
  class_event: "class_enabled ev s \<Longrightarrow> class_exec C ev s = Some s' \<Longrightarrow> class_step C s s'"

inductive_cases class_stepE: "class_step C s s'"

section \<open>Safety of all runs\<close>

locale safe_class =
  fixes C :: class_ops
    and inv :: "kst \<Rightarrow> bool"
  assumes event_law: "inv s \<Longrightarrow> class_enabled ev s \<Longrightarrow>
      \<exists>s'. class_exec C ev s = Some s' \<and> inv s' \<and> nr_cpus s' = nr_cpus s"
begin

lemma step_inv: "class_step C s s' \<Longrightarrow> inv s \<Longrightarrow> inv s' \<and> nr_cpus s' = nr_cpus s"
  by (erule class_stepE) (use event_law in fastforce)

lemma run_inv: "(class_step C)\<^sup>*\<^sup>* s0 s \<Longrightarrow> inv s0 \<Longrightarrow> inv s \<and> nr_cpus s = nr_cpus s0"
proof (induction rule: rtranclp_induct)
  case base
  then show ?case by simp
next
  case (step s s')
  then show ?case using step_inv [OF step.hyps(2)] by simp
qed

lemma run_safe:
  assumes "(class_step C)\<^sup>*\<^sup>* s0 s" "inv s0"
  shows "inv s \<and> nr_cpus s = nr_cpus s0 \<and> (\<forall>ev. class_enabled ev s \<longrightarrow> class_exec C ev s \<noteq> None)"
  using run_inv [OF assms] event_law by fastforce

end

section \<open>Facts the WRR classes share\<close>

lemma linked_level:
  assumes "wrr_inv lev s" "linked (Se_of_task p) (wrr_list s)" "task_cpu s p = c"
  obtains i where "Se_of_task p \<in> set (items (wrr_list s) (Rq_of_cpu c, i))"
proof -
  obtain q i where o: "owner (wrr_list s) (Se_of_task p) = Some (q, i)"
    using assms(2) by (auto simp: linked_def)
  then have "q = Rq_of_cpu c" using wrr_placedD [OF assms(1)] assms(3) by fastforce
  then show thesis
    using o that [of i] klist_ok_owner [OF wrr_invD(1) [OF assms(1)]] by simp
qed

lemma wrr_same_set_curr: "wrr_same s (upd_rq c (\<lambda>r. r\<lparr>curr := f r\<rparr>) s)"
  by (simp add: wrr_same_def task_cpu_def)

lemma wrr_same_exec_start:
  "wrr_same s (upd_task p (\<lambda>t. t\<lparr>se := (se t)\<lparr>exec_start := x\<rparr>\<rparr>) s)"
  by (simp add: wrr_same_def task_cpu_def)

lemma wrr_same_set_slice:
  "wrr_same s (upd_task p (\<lambda>t. t\<lparr>wrr := (wrr t)\<lparr>wrr_time_slice := x\<rparr>\<rparr>) s)"
  by (simp add: wrr_same_def task_cpu_def)

text \<open>An entity that is picked has the lowest level of all queued on its CPU.\<close>

lemma picked_level_le:
  assumes "wrr_inv lev s" "c < nr_cpus s" "pa_pick (wrr_view c s) = Some (Se_of_task p)"
    "Se_of_task r \<in> set (items (wrr_list s) (Rq_of_cpu c, k))"
  shows "lev (rt_priority (tasks s p)) \<le> lev (rt_priority (tasks s r))"
proof -
  have ok: "pa_ok (wrr_view c s)" using assms(1,2) by (rule wrr_invD)
  obtain i es where i: "pq (wrr_view c s) i = Se_of_task p # es" "\<And>j. j < i \<Longrightarrow> pq (wrr_view c s) j = []"
    using pa_pick_Some [OF ok assms(3)] by metis
  have "i \<le> k" using i(2) [of k] assms(4) by (cases "i \<le> k") auto
  moreover have "wrr_fits lev c (Se_of_task p) i s" "wrr_fits lev c (Se_of_task r) k s"
    using queued_wrr_fits [OF assms(1), of "Se_of_task p" c i] queued_wrr_fits [OF assms(1,4)] i(1)
    by simp_all
  ultimately show ?thesis by simp
qed

end
