(* ===== verification/Wrr_Basic.thy ===== *)
theory Wrr_Basic
  imports Class_Run
begin

text \<open>
  kernel/wrr_basic.c: the basic weighted round robin class. Each function of the file is a
  definition of the same name; \<open>printk\<close> has no effect on the state and is left out.
\<close>

section \<open>Foreground and background\<close>

text \<open>
  The path of a task group lives in the static buffer \<open>group_path\<close>; the callers read its
  second character.
\<close>

definition task_group_path :: "env \<Rightarrow> tgid \<Rightarrow> kst \<Rightarrow> kst" where
  "task_group_path E tg s =
     (let (done, buf) = autogroup_path E tg (group_path s); s = s\<lparr>group_path := buf\<rparr> in
      if done then s
      else if \<not> css_cgroup (task_groups s tg) then
        s\<lparr>group_path := (group_path s)(0 := CHR 0x00)\<rparr>
      else s\<lparr>group_path := cgroup_path E tg (group_path s)\<rparr>)"

section \<open>Entities and run-queues\<close>

definition wrr_task_of :: "se_ref \<Rightarrow> tid option" where
  "wrr_task_of wrr_se = (case wrr_se of Se_of_task p \<Rightarrow> Some p | Se_of_group _ _ \<Rightarrow> None)"

definition rq_of_wrr_rq :: "kst \<Rightarrow> rq_ref \<Rightarrow> cpu option" where
  "rq_of_wrr_rq s q = wrr_rq_rq (wrr_rqs s q)"

definition wrr_rq_of_se :: "kst \<Rightarrow> se_ref \<Rightarrow> rq_ref option" where
  "wrr_rq_of_se s wrr_se = do {
     p \<leftarrow> wrr_task_of wrr_se;
     Some (Rq_of_cpu (task_cpu s p))
   }"

definition wrr_se_prio :: "kst \<Rightarrow> se_ref \<Rightarrow> int option" where
  "wrr_se_prio s wrr_se = do {
     p \<leftarrow> wrr_task_of wrr_se;
     Some (sint (rt_priority (tasks s p)))
   }"

text \<open>\<open>update_curr_wrr\<close>: charge the time since the last update to the current WRR task.\<close>

definition update_curr_wrr :: "env \<Rightarrow> cpu \<Rightarrow> kst \<Rightarrow> kst" where
  "update_curr_wrr E c s =
     (let p = curr (rqs s c) in
      if task_class (tasks s p) \<noteq> wrr_sched_class then s
      else
        let delta_exec = clock_task (rqs s c) - exec_start (se (tasks s p));
            delta_exec = (if sint delta_exec < 0 then 0 else delta_exec);
            s = upd_task p (\<lambda>t. t\<lparr>se := (se t)\<lparr>exec_max := max (exec_max (se t)) delta_exec\<rparr>\<rparr>) s;
            s = upd_task p (\<lambda>t. t\<lparr>se := (se t)\<lparr>sum_exec_runtime :=
                                  sum_exec_runtime (se t) + delta_exec\<rparr>\<rparr>) s;
            s = ext (Account_group_exec_runtime p delta_exec) s;
            s = upd_task p (\<lambda>t. t\<lparr>se := (se t)\<lparr>exec_start := clock_task (rqs s c)\<rparr>\<rparr>) s
        in cpuacct_charge E p delta_exec s)"

section \<open>Enqueue and dequeue\<close>

definition list_del_leaf_wrr_rq :: "rq_ref \<Rightarrow> kst \<Rightarrow> kst option" where
  "list_del_leaf_wrr_rq q s = do {
     F \<leftarrow> list_del_rcu q (leaf_wrr s);
     Some (s\<lparr>leaf_wrr := F\<rparr>)
   }"

definition list_add_leaf_wrr_rq :: "rq_ref \<Rightarrow> kst \<Rightarrow> kst option" where
  "list_add_leaf_wrr_rq q s = do {
     c \<leftarrow> rq_of_wrr_rq s q;
     F \<leftarrow> list_add q c (leaf_wrr s);
     Some (s\<lparr>leaf_wrr := F\<rparr>)
   }"

definition dequeue_wrr_entity :: "se_ref \<Rightarrow> kst \<Rightarrow> kst option" where
  "dequeue_wrr_entity wrr_se s = do {
     q \<leftarrow> wrr_rq_of_se s wrr_se;
     let s = s\<lparr>wrr_list := list_del_init wrr_se (wrr_list s)\<rparr>;
     prio \<leftarrow> wrr_se_prio s wrr_se;
     queue \<leftarrow> array_queue q prio;
     let s = (if head_empty queue (wrr_list s) then upd_wrr_rq q (clear_wrr_bit (nat prio)) s else s);
     let s = upd_wrr_rq q (\<lambda>r. r\<lparr>wrr_nr_running := wrr_nr_running r - 1\<rparr>) s;
     if wrr_nr_running (wrr_rqs s q) = 0 then list_del_leaf_wrr_rq q s else Some s
   }"

definition dequeue_task_wrr :: "env \<Rightarrow> cpu \<Rightarrow> tid \<Rightarrow> u32 \<Rightarrow> kst \<Rightarrow> kst option" where
  "dequeue_task_wrr E c p flags s = do {
     let s = update_curr_wrr E c s;
     s \<leftarrow> dequeue_wrr_entity (Se_of_task p) s;
     Some (dec_nr_running c s)
   }"

definition enqueue_wrr_entity :: "se_ref \<Rightarrow> bool \<Rightarrow> kst \<Rightarrow> kst option" where
  "enqueue_wrr_entity wrr_se head s = do {
     q \<leftarrow> wrr_rq_of_se s wrr_se;
     prio \<leftarrow> wrr_se_prio s wrr_se;
     queue \<leftarrow> array_queue q prio;
     s \<leftarrow> (if wrr_nr_running (wrr_rqs s q) = 0 then list_add_leaf_wrr_rq q s else Some s);
     L \<leftarrow> (if head then list_add wrr_se queue (wrr_list s)
          else list_add_tail wrr_se queue (wrr_list s));
     let s = s\<lparr>wrr_list := L\<rparr>;
     let s = upd_wrr_rq q (set_wrr_bit (nat prio)) s;
     Some (upd_wrr_rq q (\<lambda>r. r\<lparr>wrr_nr_running := wrr_nr_running r + 1\<rparr>) s)
   }"

definition enqueue_task_wrr :: "cpu \<Rightarrow> tid \<Rightarrow> u32 \<Rightarrow> kst \<Rightarrow> kst option" where
  "enqueue_task_wrr c p flags s = do {
     s \<leftarrow> enqueue_wrr_entity (Se_of_task p) (flags AND ENQUEUE_HEAD \<noteq> 0) s;
     Some (inc_nr_running c s)
   }"

definition requeue_task_wrr :: "cpu \<Rightarrow> tid \<Rightarrow> bool \<Rightarrow> kst \<Rightarrow> kst option" where
  "requeue_task_wrr c p head s = do {
     prio \<leftarrow> wrr_se_prio s (Se_of_task p);
     queue \<leftarrow> array_queue (Rq_of_cpu c) prio;
     L \<leftarrow> (if head then list_move (Se_of_task p) queue (wrr_list s)
          else list_move_tail (Se_of_task p) queue (wrr_list s));
     Some (s\<lparr>wrr_list := L\<rparr>)
   }"

definition yield_task_wrr :: "cpu \<Rightarrow> kst \<Rightarrow> kst option" where
  "yield_task_wrr c s = requeue_task_wrr c (curr (rqs s c)) False s"

section \<open>Preemption, picking, ticking\<close>

definition check_preempt_curr_wrr :: "env \<Rightarrow> cpu \<Rightarrow> tid \<Rightarrow> u32 \<Rightarrow> kst \<Rightarrow> kst" where
  "check_preempt_curr_wrr E c p flags s =
     (if rt_priority (tasks s (curr (rqs s c))) < rt_priority (tasks s p)
      then resched_task E (curr (rqs s c)) s
      else s)"

definition pick_next_task_wrr :: "cpu \<Rightarrow> kst \<Rightarrow> (tid option \<times> kst) option" where
  "pick_next_task_wrr c s =
     (if wrr_nr_running (wrr_rqs s (Rq_of_cpu c)) = 0 then Some (None, s)
      else do {
        let q = Rq_of_cpu c;
        let idx = find_next_bit (wrr_bitmap (wrr_rqs s q)) (nat MAX_WRR_PRIO + 1) 0;
        _ \<leftarrow> BUG_ON (int idx \<ge> MAX_WRR_PRIO);
        queue \<leftarrow> array_queue q (int idx);
        next \<leftarrow> first_entry queue (wrr_list s);
        p \<leftarrow> wrr_task_of next;
        Some (Some p, upd_task p (\<lambda>t. t\<lparr>se := (se t)\<lparr>exec_start := clock_task (rqs s c)\<rparr>\<rparr>) s)
      })"

definition put_prev_task_wrr :: "env \<Rightarrow> cpu \<Rightarrow> tid \<Rightarrow> kst \<Rightarrow> kst" where
  "put_prev_task_wrr E c p s = update_curr_wrr E c s"

definition set_curr_task_wrr :: "cpu \<Rightarrow> kst \<Rightarrow> kst" where
  "set_curr_task_wrr c s =
     upd_task (curr (rqs s c)) (\<lambda>t. t\<lparr>se := (se t)\<lparr>exec_start := clock_task (rqs s c)\<rparr>\<rparr>) s"

definition task_tick_wrr :: "env \<Rightarrow> cpu \<Rightarrow> tid \<Rightarrow> bool \<Rightarrow> kst \<Rightarrow> kst option" where
  "task_tick_wrr E c p queued s = do {
     let s = update_curr_wrr E c s;
     if policy (tasks s p) \<noteq> SCHED_WRR then Some s
     else do {
       let s = upd_task p (\<lambda>t. t\<lparr>wrr := (wrr t)\<lparr>wrr_time_slice := wrr_time_slice (wrr t) - 1\<rparr>\<rparr>) s;
       if wrr_time_slice (wrr (tasks s p)) \<noteq> 0 then Some s
       else do {
         let s = task_group_path E (sched_task_group (tasks s p)) s;
         let slice = (if group_path s 1 \<noteq> CHR ''b'' then WRR_FORE_TIMESLICE (HZ E)
                      else WRR_BACK_TIMESLICE (HZ E));
         let s = upd_task p (\<lambda>t. t\<lparr>wrr := (wrr t)\<lparr>wrr_time_slice := slice\<rparr>\<rparr>) s;
         if prev_neq_next (Se_of_task p) (wrr_list s) then do {
           s \<leftarrow> requeue_task_wrr c p False s;
           Some (set_tsk_need_resched p s)
         }
         else Some s
       }
     }
   }"

text \<open>The C function returns \<open>-EINVAL\<close> as an unsigned number when there is no task.\<close>

definition get_rr_interval_wrr :: "env \<Rightarrow> cpu \<Rightarrow> tid option \<Rightarrow> kst \<Rightarrow> u32 \<times> kst" where
  "get_rr_interval_wrr E c task s =
     (case task of
        None \<Rightarrow> (word_of_int (- EINVAL), s)
      | Some p \<Rightarrow>
          let s = task_group_path E (sched_task_group (tasks s p)) s in
          (if group_path s 1 \<noteq> CHR ''b'' then WRR_FORE_TIMESLICE (HZ E)
           else WRR_BACK_TIMESLICE (HZ E), s))"

definition task_fork_wrr :: "tid \<Rightarrow> kst \<Rightarrow> kst" where
  "task_fork_wrr p s = s"

definition switched_to_wrr :: "env \<Rightarrow> cpu \<Rightarrow> tid \<Rightarrow> kst \<Rightarrow> kst" where
  "switched_to_wrr E c p s =
     (if on_rq (tasks s p) \<and> curr (rqs s c) \<noteq> p then
        if rt_priority (tasks s p) < rt_priority (tasks s (curr (rqs s c)))
        then resched_task E (curr (rqs s c)) s
        else s
      else s)"

definition free_wrr_sched_group :: "tgid \<Rightarrow> kst \<Rightarrow> kst" where
  "free_wrr_sched_group tg s = s"

definition alloc_wrr_sched_group :: "tgid \<Rightarrow> tgid option \<Rightarrow> kst \<Rightarrow> int \<times> kst" where
  "alloc_wrr_sched_group tg parent s = (1, s)"

section \<open>Dummy members and the class table\<close>

text \<open>
  \<open>select_task_rq_wrr\<close> is declared \<open>int\<close> and returns nothing: there is no value a caller may
  use (\<open>None\<close>).
\<close>

definition select_task_rq_wrr :: "tid \<Rightarrow> u32 \<Rightarrow> u32 \<Rightarrow> kst \<Rightarrow> cpu option" where
  "select_task_rq_wrr p sd_flag flags s = None"

definition set_cpus_allowed_wrr :: "tid \<Rightarrow> cpu set \<Rightarrow> kst \<Rightarrow> kst" where
  "set_cpus_allowed_wrr p new_mask s = s"

definition rq_offline_wrr :: "cpu \<Rightarrow> kst \<Rightarrow> kst" where "rq_offline_wrr c s = s"
definition rq_online_wrr :: "cpu \<Rightarrow> kst \<Rightarrow> kst" where "rq_online_wrr c s = s"
definition pre_schedule_wrr :: "cpu \<Rightarrow> tid \<Rightarrow> kst \<Rightarrow> kst" where "pre_schedule_wrr c prev s = s"
definition post_schedule_wrr :: "cpu \<Rightarrow> kst \<Rightarrow> kst" where "post_schedule_wrr c s = s"
definition task_woken_wrr :: "cpu \<Rightarrow> tid \<Rightarrow> kst \<Rightarrow> kst" where "task_woken_wrr c p s = s"
definition switched_from_wrr :: "cpu \<Rightarrow> tid \<Rightarrow> kst \<Rightarrow> kst" where "switched_from_wrr c p s = s"
definition prio_changed_wrr :: "cpu \<Rightarrow> tid \<Rightarrow> int \<Rightarrow> kst \<Rightarrow> kst" where "prio_changed_wrr c p oldprio s = s"

lemmas wrr_dummy_defs = set_cpus_allowed_wrr_def rq_offline_wrr_def rq_online_wrr_def
  pre_schedule_wrr_def post_schedule_wrr_def task_woken_wrr_def switched_from_wrr_def
  prio_changed_wrr_def task_fork_wrr_def

definition wrr_class :: "env \<Rightarrow> class_ops" where
  "wrr_class E =
     \<lparr>op_enqueue_task = enqueue_task_wrr,
      op_dequeue_task = dequeue_task_wrr E,
      op_yield_task = yield_task_wrr,
      op_check_preempt_curr = (\<lambda>c p flags s. Some (check_preempt_curr_wrr E c p flags s)),
      op_pick_next_task = pick_next_task_wrr,
      op_put_prev_task = (\<lambda>c p s. Some (put_prev_task_wrr E c p s)),
      op_select_task_rq = select_task_rq_wrr,
      op_pre_schedule = Some (\<lambda>c p s. Some (pre_schedule_wrr c p s)),
      op_post_schedule = Some (\<lambda>c s. Some (post_schedule_wrr c s)),
      op_task_waking = None,
      op_task_woken = Some (\<lambda>c p s. Some (task_woken_wrr c p s)),
      op_set_cpus_allowed = Some (\<lambda>p m s. Some (set_cpus_allowed_wrr p m s)),
      op_rq_online = Some (\<lambda>c s. Some (rq_online_wrr c s)),
      op_rq_offline = Some (\<lambda>c s. Some (rq_offline_wrr c s)),
      op_set_curr_task = (\<lambda>c s. Some (set_curr_task_wrr c s)),
      op_task_tick = task_tick_wrr E,
      op_task_fork = Some (\<lambda>p s. Some (task_fork_wrr p s)),
      op_switched_from = Some (\<lambda>c p s. Some (switched_from_wrr c p s)),
      op_switched_to = (\<lambda>c p s. Some (switched_to_wrr E c p s)),
      op_prio_changed = (\<lambda>c p old s. Some (prio_changed_wrr c p old s)),
      op_get_rr_interval = Some (\<lambda>c p s. Some (get_rr_interval_wrr E c p s))\<rparr>"

section \<open>What leaves the queues alone\<close>

abbreviation basic_inv :: "kst \<Rightarrow> bool" where "basic_inv \<equiv> wrr_inv sint"

lemma wrr_same_update_curr [simp]: "wrr_same s (update_curr_wrr E c s)"
  by (simp add: update_curr_wrr_def Let_def wrr_same_def cpuacct_charge_def ext_def task_cpu_def)

lemma wrr_same_task_group_path [simp]: "wrr_same s (task_group_path E tg s)"
  by (simp add: task_group_path_def Let_def wrr_same_def task_cpu_def split: prod.split)

lemma wrr_same_set_curr_task [simp]: "wrr_same s (set_curr_task_wrr c s)"
  by (simp add: set_curr_task_wrr_def wrr_same_def task_cpu_def)

lemma wrr_same_check_preempt [simp]: "wrr_same s (check_preempt_curr_wrr E c p flags s)"
  by (simp add: check_preempt_curr_wrr_def)

lemma wrr_same_switched_to [simp]: "wrr_same s (switched_to_wrr E c p s)"
  by (simp add: switched_to_wrr_def)

lemma wrr_same_put_prev_task [simp]: "wrr_same s (put_prev_task_wrr E c p s)"
  by (simp add: put_prev_task_wrr_def)

section \<open>Net effects of the operations\<close>

lemma enqueue_wrr_entity_eq:
  assumes "basic_inv s" "wrr_fits sint c e i s" "e \<notin> pa_members (wrr_view c s)"
  shows "enqueue_wrr_entity e head s = Some (q_enq c i e head s)"
proof -
  obtain p where p: "e = Se_of_task p" "sint (rt_priority (tasks s p)) = int i" "task_cpu s p = c"
    "i < LEVELS" "c < nr_cpus s"
    using assms(2) by (rule wrr_fits_cases)
  have unl: "owner (wrr_list s) e = None"
    using assms by (rule wrr_unlinked)
  have ok: "wrr_rq_ok c s" using assms(1) p(5) by (rule wrr_invD)
  have task: "wrr_rq_of_se s e = Some (Rq_of_cpu c)" "wrr_se_prio s e = Some (int i)"
    by (simp_all add: wrr_rq_of_se_def wrr_se_prio_def wrr_task_of_def p)
  show ?thesis
    using ok unl p(4) task
    by (cases "wrr_nr_running (wrr_rqs s (Rq_of_cpu c)) = 0"; cases head)
      (simp_all add: enqueue_wrr_entity_def array_queue_nat list_add_leaf_wrr_rq_def
        rq_of_wrr_rq_def wrr_rq_ok_def list_add_def list_add_tail_def q_enq_def Let_def set_wrr_bit_def)
qed

lemma dequeue_wrr_entity_eq:
  assumes "basic_inv s" "e \<in> set (items (wrr_list s) (Rq_of_cpu c, i))"
  shows "dequeue_wrr_entity e s = Some (q_deq c i e s)"
proof -
  obtain p where p: "e = Se_of_task p" "sint (rt_priority (tasks s p)) = int i" "task_cpu s p = c"
    "i < LEVELS" "c < nr_cpus s"
    using queued_wrr_fits [OF assms] by (rule wrr_fits_cases)
  have ok: "wrr_rq_ok c s" and pok: "pa_ok (wrr_view c s)"
    using wrr_invD(4,5) [OF assms(1)] p(5) by blast+
  have bit: "wrr_bitmap (wrr_rqs s (Rq_of_cpu c)) i"
    using pa_ok_bit [OF pok p(4)] assms(2) by auto
  have n0: "wrr_nr_running (wrr_rqs s (Rq_of_cpu c)) \<noteq> 0"
    using pa_ok_count [OF pok] assms(2) p(4) by (auto intro!: bexI [of _ i])
  show ?thesis
    using ok p(4) bit n0
    by (simp add: dequeue_wrr_entity_def array_queue_nat p wrr_rq_of_se_def wrr_se_prio_def
        wrr_task_of_def head_empty_def q_deq_def Let_def clear_wrr_bit_def wrr_rq_ok_def
        list_del_leaf_wrr_rq_def list_del_rcu_def fun_upd_idem)
qed

lemma requeue_task_wrr_eq:
  assumes "basic_inv s" "Se_of_task p \<in> set (items (wrr_list s) (Rq_of_cpu c, i))"
  shows "requeue_task_wrr c p head s = Some (q_move c i (Se_of_task p) head s)"
proof -
  have "sint (rt_priority (tasks s p)) = int i" "i < LEVELS"
    using queued_wrr_fits [OF assms] by auto
  then show ?thesis
    by (cases head) (simp_all add: requeue_task_wrr_def wrr_se_prio_def wrr_task_of_def
        array_queue_nat list_move_eq list_move_tail_eq q_move_def Let_def)
qed

text \<open>Picking does not look at priorities, so it works for every level function.\<close>

lemma pick_next_task_wrr_eq:
  assumes "wrr_inv lev s" "c < nr_cpus s"
  shows "(pa_pick (wrr_view c s) = None \<and> pick_next_task_wrr c s = Some (None, s)) \<or>
     (\<exists>p. pa_pick (wrr_view c s) = Some (Se_of_task p) \<and> pick_next_task_wrr c s =
        Some (Some p, upd_task p (\<lambda>t. t\<lparr>se := (se t)\<lparr>exec_start := clock_task (rqs s c)\<rparr>\<rparr>) s))"
proof (cases "pn (wrr_view c s) = 0")
  case True
  then show ?thesis by (simp add: pa_pick_def pick_next_task_wrr_def unat_eq_zero)
next
  case False
  let ?i = "find_next_bit (wrr_bitmap (wrr_rqs s (Rq_of_cpu c))) 101 0"
  have ok: "pa_ok (wrr_view c s)" using assms by (rule wrr_invD)
  have i: "?i < LEVELS" and ne: "items (wrr_list s) (Rq_of_cpu c, ?i) \<noteq> []"
    using pa_first_level(1,2) [OF ok False] by simp_all
  then obtain e es where es: "items (wrr_list s) (Rq_of_cpu c, ?i) = e # es"
    by (cases "items (wrr_list s) (Rq_of_cpu c, ?i)") auto
  have "wrr_fits lev c e ?i s" by (rule queued_wrr_fits [OF assms(1)]) (simp add: es)
  then obtain p where p: "e = Se_of_task p" by (rule wrr_fits_cases)
  have "pa_pick (wrr_view c s) = Some (Se_of_task p)"
    using False es p by (simp add: pa_pick_def)
  moreover have "wrr_nr_running (wrr_rqs s (Rq_of_cpu c)) \<noteq> 0" using False by auto
  ultimately show ?thesis
    using es p i by (simp add: pick_next_task_wrr_def array_queue_nat first_entry_def wrr_task_of_def)
qed

section \<open>The class as a priority-queued class\<close>

definition basic_enq :: "cpu \<Rightarrow> se_ref \<Rightarrow> bool \<Rightarrow> kst \<Rightarrow> kst option" where
  "basic_enq c e head s = (case e of
      Se_of_task p \<Rightarrow> enqueue_task_wrr c p (if head then ENQUEUE_HEAD else 0) s
    | Se_of_group _ _ \<Rightarrow> None)"

definition basic_deq :: "env \<Rightarrow> cpu \<Rightarrow> se_ref \<Rightarrow> kst \<Rightarrow> kst option" where
  "basic_deq E c e s = (case e of
      Se_of_task p \<Rightarrow> dequeue_task_wrr E c p 0 s
    | Se_of_group _ _ \<Rightarrow> None)"

definition basic_requeue :: "cpu \<Rightarrow> se_ref \<Rightarrow> bool \<Rightarrow> kst \<Rightarrow> kst option" where
  "basic_requeue c e head s = (case e of
      Se_of_task p \<Rightarrow> requeue_task_wrr c p head s
    | Se_of_group _ _ \<Rightarrow> None)"

definition basic_pick :: "cpu \<Rightarrow> kst \<Rightarrow> (se_ref option \<times> kst) option" where
  "basic_pick c s = map_option (map_prod (map_option Se_of_task) id) (pick_next_task_wrr c s)"

text \<open>The refinement of each operation, its state named.\<close>

lemma enqueue_task_wrr_refines:
  assumes "basic_inv s" "wrr_fits sint c (Se_of_task p) i s"
    "Se_of_task p \<notin> pa_members (wrr_view c s)" "pn (wrr_view c s) < 2 ^ 32 - 1"
  shows "\<exists>s'. enqueue_task_wrr c p flags s = Some s' \<and> basic_inv s' \<and> nr_cpus s' = nr_cpus s \<and>
     wrr_view c s' = pa_enq i (Se_of_task p) (flags AND ENQUEUE_HEAD \<noteq> 0) (wrr_view c s) \<and>
     (\<forall>e j. wrr_fits sint c e j s' = wrr_fits sint c e j s)"
proof -
  let ?head = "flags AND ENQUEUE_HEAD \<noteq> 0"
  let ?s = "q_enq c i (Se_of_task p) ?head s"
  note eff = wrr_inv_q_enq [OF assms, where head = ?head]
  have same: "wrr_same ?s (inc_nr_running c ?s)" by simp
  have "enqueue_task_wrr c p flags s = Some (inc_nr_running c ?s)"
    using enqueue_wrr_entity_eq [OF assms(1-3)] by (simp add: enqueue_task_wrr_def)
  with eff wrr_same_inv [OF same] wrr_same_view [OF same] wrr_same_fits [OF same] show ?thesis
    by (intro exI [of _ "inc_nr_running c ?s"]) simp
qed

lemma dequeue_task_wrr_refines:
  assumes "basic_inv s" "Se_of_task p \<in> set (items (wrr_list s) (Rq_of_cpu c, i))"
  shows "\<exists>s'. dequeue_task_wrr E c p flags s = Some s' \<and> basic_inv s' \<and> nr_cpus s' = nr_cpus s \<and>
     wrr_view c s' = pa_deq i (Se_of_task p) (wrr_view c s) \<and>
     (\<forall>e j. wrr_fits sint c e j s' = wrr_fits sint c e j s)"
proof -
  let ?u = "update_curr_wrr E c s"
  let ?s = "q_deq c i (Se_of_task p) ?u"
  have u: "wrr_same s ?u" and d: "wrr_same ?s (dec_nr_running c ?s)" by simp_all
  have inv: "basic_inv ?u" using assms(1) wrr_same_inv [OF u] by simp
  have mem: "Se_of_task p \<in> set (items (wrr_list ?u) (Rq_of_cpu c, i))"
    using assms(2) u by (simp add: wrr_same_def)
  note eff = wrr_inv_q_deq [OF inv mem]
  have "dequeue_task_wrr E c p flags s = Some (dec_nr_running c ?s)"
    using dequeue_wrr_entity_eq [OF inv mem] by (simp add: dequeue_task_wrr_def)
  with eff wrr_same_inv [OF d] wrr_same_view [OF d] wrr_same_fits [OF d]
    wrr_same_view [OF u] wrr_same_fits [OF u] wrr_same_nr_cpus [OF u] show ?thesis
    by (intro exI [of _ "dec_nr_running c ?s"]) simp
qed

lemma requeue_task_wrr_refines:
  assumes "basic_inv s" "Se_of_task p \<in> set (items (wrr_list s) (Rq_of_cpu c, i))"
  shows "\<exists>s'. requeue_task_wrr c p head s = Some s' \<and> basic_inv s' \<and> nr_cpus s' = nr_cpus s \<and>
     wrr_view c s' = pa_requeue i (Se_of_task p) head (wrr_view c s) \<and>
     (\<forall>e j. wrr_fits sint c e j s' = wrr_fits sint c e j s)"
  using requeue_task_wrr_eq [OF assms] wrr_inv_q_move [OF assms] by simp

lemma pick_next_task_wrr_refines:
  assumes "wrr_inv lev s" "c < nr_cpus s"
  shows "\<exists>r s'. pick_next_task_wrr c s = Some (r, s') \<and>
     map_option Se_of_task r = pa_pick (wrr_view c s) \<and> wrr_same s s'"
  using pick_next_task_wrr_eq [OF assms]
  by (elim disjE exE conjE) (simp_all add: wrr_same_exec_start)

interpretation basic: sched_queue "\<lambda>s. basic_inv s \<and> c < nr_cpus s" "wrr_view c" "\<lambda>e i s. wrr_fits sint c e i s" "2 ^ 32 - 1"
  "basic_enq c" "basic_deq E c" "basic_pick c" "basic_requeue c" for c E
proof unfold_locales
  fix s e i and head :: bool
  show "basic_inv s \<and> c < nr_cpus s \<Longrightarrow> pa_ok (wrr_view c s)" using wrr_invD(5) by blast
  show "wrr_fits sint c e i s \<Longrightarrow> i < LEVELS" by (simp add: wrr_fits_def)
  assume "basic_inv s \<and> c < nr_cpus s"
  then have inv: "basic_inv s" and c: "c < nr_cpus s" by simp_all
  show fits: "e \<in> set (pq (wrr_view c s) i) \<Longrightarrow> wrr_fits sint c e i s"
    using queued_wrr_fits [OF inv] by simp
  show "\<exists>s'. basic_enq c e head s = Some s' \<and> (basic_inv s' \<and> c < nr_cpus s') \<and>
      wrr_view c s' = pa_enq i e head (wrr_view c s) \<and>
      (\<forall>e j. wrr_fits sint c e j s' = wrr_fits sint c e j s)"
    if "wrr_fits sint c e i s" "e \<notin> pa_members (wrr_view c s)" "pn (wrr_view c s) < 2 ^ 32 - 1"
  proof -
    note fit = that(1)
    obtain p where "e = Se_of_task p" using fit by (rule wrr_fits_cases)
    with enqueue_task_wrr_refines [OF inv, of c p i "if head then ENQUEUE_HEAD else 0"] that c
    show ?thesis by (cases head) (auto simp: basic_enq_def ENQUEUE_HEAD_def simp del: wrr_fits_task)
  qed
  show "\<exists>s'. basic_deq E c e s = Some s' \<and> (basic_inv s' \<and> c < nr_cpus s') \<and>
      wrr_view c s' = pa_deq i e (wrr_view c s) \<and>
      (\<forall>e j. wrr_fits sint c e j s' = wrr_fits sint c e j s)"
    if "e \<in> set (pq (wrr_view c s) i)"
  proof -
    note fit = fits [OF that]
    obtain p where p: "e = Se_of_task p" using fit by (rule wrr_fits_cases)
    have "Se_of_task p \<in> set (items (wrr_list s) (Rq_of_cpu c, i))" using that p by simp
    from dequeue_task_wrr_refines [OF inv this, of E 0] show ?thesis
      using c by (auto simp: basic_deq_def p simp del: wrr_fits_task)
  qed
  show "\<exists>s'. basic_requeue c e head s = Some s' \<and> (basic_inv s' \<and> c < nr_cpus s') \<and>
      wrr_view c s' = pa_requeue i e head (wrr_view c s) \<and>
      (\<forall>e j. wrr_fits sint c e j s' = wrr_fits sint c e j s)"
    if "e \<in> set (pq (wrr_view c s) i)"
  proof -
    note fit = fits [OF that]
    obtain p where p: "e = Se_of_task p" using fit by (rule wrr_fits_cases)
    have "Se_of_task p \<in> set (items (wrr_list s) (Rq_of_cpu c, i))" using that p by simp
    from requeue_task_wrr_refines [OF inv this, of head] show ?thesis
      using c by (auto simp: basic_requeue_def p simp del: wrr_fits_task)
  qed
  show "\<exists>s'. basic_pick c s = Some (pa_pick (wrr_view c s), s') \<and> (basic_inv s' \<and> c < nr_cpus s') \<and>
      wrr_view c s' = wrr_view c s \<and> (\<forall>e j. wrr_fits sint c e j s' = wrr_fits sint c e j s)"
    using pick_next_task_wrr_refines [OF inv c] inv c
    by (auto simp: basic_pick_def wrr_same_nr_cpus wrr_same_inv wrr_same_view wrr_same_fits)
qed

section \<open>Accounting and the tick\<close>

lemma update_curr_frame [simp]:
  "wrr (tasks (update_curr_wrr E c s) p) = wrr (tasks s p)"
  "policy (tasks (update_curr_wrr E c s) p) = policy (tasks s p)"
  "sched_task_group (tasks (update_curr_wrr E c s) p) = sched_task_group (tasks s p)"
  "ti_need_resched (tasks (update_curr_wrr E c s) p) = ti_need_resched (tasks s p)"
  "rt_priority (tasks (update_curr_wrr E c s) p) = rt_priority (tasks s p)"
  "group_path (update_curr_wrr E c s) = group_path s"
  "task_groups (update_curr_wrr E c s) = task_groups s"
  "rqs (update_curr_wrr E c s) = rqs s"
  "wrr_list (update_curr_wrr E c s) = wrr_list s" "leaf_wrr (update_curr_wrr E c s) = leaf_wrr s"
  "wrr_rqs (update_curr_wrr E c s) = wrr_rqs s" "nr_cpus (update_curr_wrr E c s) = nr_cpus s"
  "ti_cpu (tasks (update_curr_wrr E c s) p) = ti_cpu (tasks s p)"
  by (simp_all add: update_curr_wrr_def Let_def cpuacct_charge_def ext_def)

lemma task_group_path_frame [simp]:
  "tasks (task_group_path E tg s) = tasks s" "wrr_list (task_group_path E tg s) = wrr_list s"
  "rqs (task_group_path E tg s) = rqs s" "leaf_wrr (task_group_path E tg s) = leaf_wrr s"
  "wrr_rqs (task_group_path E tg s) = wrr_rqs s" "nr_cpus (task_group_path E tg s) = nr_cpus s"
  by (simp_all add: task_group_path_def Let_def split: prod.split)

lemma group_path_task_group_path:
  "group_path s' = group_path s \<Longrightarrow> task_groups s' = task_groups s \<Longrightarrow>
   group_path (task_group_path E tg s') = group_path (task_group_path E tg s)"
  by (simp add: task_group_path_def Let_def split: prod.split)

text \<open>The slice a task of group \<open>tg\<close> gets next.\<close>

definition next_slice :: "env \<Rightarrow> tgid \<Rightarrow> kst \<Rightarrow> u32" where
  "next_slice E tg s =
     (if group_path (task_group_path E tg s) 1 \<noteq> CHR ''b'' then WRR_FORE_TIMESLICE (HZ E)
      else WRR_BACK_TIMESLICE (HZ E))"

text \<open>The tick of a WRR task: which of the three things happens, and what it changes.\<close>

lemma task_tick_wrr_running:
  assumes "policy (tasks s p) = SCHED_WRR" "wrr_time_slice (wrr (tasks s p)) \<noteq> 1"
  shows "\<exists>s'. task_tick_wrr E c p queued s = Some s' \<and> wrr_same s s' \<and>
    wrr_time_slice (wrr (tasks s' p)) = wrr_time_slice (wrr (tasks s p)) - 1 \<and>
    ti_need_resched (tasks s' p) = ti_need_resched (tasks s p)"
proof -
  let ?u = "update_curr_wrr E c s"
  have "wrr_time_slice (wrr (tasks s p)) - 1 \<noteq> 0" using assms(2) by simp
  then show ?thesis
    using assms wrr_same_trans [OF wrr_same_update_curr wrr_same_set_slice, of s E c p]
    by (simp add: task_tick_wrr_def Let_def)
qed

lemma task_tick_wrr_alone:
  assumes "policy (tasks s p) = SCHED_WRR" "wrr_time_slice (wrr (tasks s p)) = 1"
    "\<not> prev_neq_next (Se_of_task p) (wrr_list s)"
  shows "\<exists>s'. task_tick_wrr E c p queued s = Some s' \<and> wrr_same s s' \<and>
    wrr_time_slice (wrr (tasks s' p)) = next_slice E (sched_task_group (tasks s p)) s \<and>
    ti_need_resched (tasks s' p) = ti_need_resched (tasks s p)"
proof -
  let ?s1 = "upd_task p (\<lambda>t. t\<lparr>wrr := (wrr t)\<lparr>wrr_time_slice := wrr_time_slice (wrr t) - 1\<rparr>\<rparr>)
      (update_curr_wrr E c s)"
  let ?s2 = "task_group_path E (sched_task_group (tasks s p)) ?s1"
  have gp: "group_path ?s2 = group_path (task_group_path E (sched_task_group (tasks s p)) s)"
    by (rule group_path_task_group_path) simp_all
  have same: "wrr_same s (upd_task p (\<lambda>t. t\<lparr>wrr := (wrr t)\<lparr>wrr_time_slice := x\<rparr>\<rparr>) ?s2)" for x
    by (simp add: wrr_same_def task_cpu_def)
  show ?thesis
    using assms gp same by (simp add: task_tick_wrr_def next_slice_def Let_def)
qed

lemma task_tick_wrr_rotates:
  assumes "basic_inv s" "policy (tasks s p) = SCHED_WRR" "wrr_time_slice (wrr (tasks s p)) = 1"
    "Se_of_task p \<in> set (items (wrr_list s) (Rq_of_cpu c, i))"
    "items (wrr_list s) (Rq_of_cpu c, i) \<noteq> [Se_of_task p]"
  shows "\<exists>s'. task_tick_wrr E c p queued s = Some s' \<and> basic_inv s' \<and>
    wrr_view c s' = pa_requeue i (Se_of_task p) False (wrr_view c s) \<and>
    wrr_time_slice (wrr (tasks s' p)) = next_slice E (sched_task_group (tasks s p)) s \<and>
    ti_need_resched (tasks s' p) \<and> nr_cpus s' = nr_cpus s"
proof -
  let ?s1 = "upd_task p (\<lambda>t. t\<lparr>wrr := (wrr t)\<lparr>wrr_time_slice := wrr_time_slice (wrr t) - 1\<rparr>\<rparr>)
      (update_curr_wrr E c s)"
  let ?s2 = "task_group_path E (sched_task_group (tasks s p)) ?s1"
  let ?sl = "next_slice E (sched_task_group (tasks s p)) s"
  let ?s3 = "upd_task p (\<lambda>t. t\<lparr>wrr := (wrr t)\<lparr>wrr_time_slice := ?sl\<rparr>\<rparr>) ?s2"
  let ?s4 = "q_move c i (Se_of_task p) False ?s3"
  have gp: "group_path ?s2 = group_path (task_group_path E (sched_task_group (tasks s p)) s)"
    by (rule group_path_task_group_path) simp_all
  have same: "wrr_same s ?s3"
    by (simp add: wrr_same_def task_cpu_def)
  have inv: "basic_inv ?s3" using assms(1) wrr_same_inv [OF same] by simp
  have mem: "Se_of_task p \<in> set (items (wrr_list ?s3) (Rq_of_cpu c, i))" using assms(4) by simp
  have pn: "prev_neq_next (Se_of_task p) (wrr_list s)"
    using prev_neq_next_iff [OF wrr_invD(1) [OF assms(1)] assms(4)] assms(5) by simp
  have "task_tick_wrr E c p queued s = Some (set_tsk_need_resched p ?s4)"
    using assms(2,3) pn gp requeue_task_wrr_eq [OF inv mem, of False]
    by (simp add: task_tick_wrr_def next_slice_def Let_def)
  moreover have "wrr_same ?s4 (set_tsk_need_resched p ?s4)" by simp
  note post = wrr_same_inv [OF this] wrr_same_view [OF this] wrr_same_nr_cpus [OF this]
  ultimately show ?thesis
    using wrr_inv_q_move(1,2) [OF inv mem, where head = False] wrr_same_view [OF same]
      wrr_same_nr_cpus [OF same]
    by (intro exI [of _ "set_tsk_need_resched p ?s4"]) (simp add: post, simp add: set_tsk_need_resched_def)
qed

lemma task_tick_wrr_preserves:
  assumes "basic_inv s" "task_cpu s p = c"
  shows "\<exists>s'. task_tick_wrr E c p queued s = Some s' \<and> basic_inv s' \<and> nr_cpus s' = nr_cpus s"
proof -
  note keep = wrr_same_inv [of s _ sint] wrr_same_nr_cpus [of s]
  consider "policy (tasks s p) \<noteq> SCHED_WRR"
    | (run) "policy (tasks s p) = SCHED_WRR" "wrr_time_slice (wrr (tasks s p)) \<noteq> 1"
    | (alone) "policy (tasks s p) = SCHED_WRR" "wrr_time_slice (wrr (tasks s p)) = 1"
        "\<not> prev_neq_next (Se_of_task p) (wrr_list s)"
    | (rot) "policy (tasks s p) = SCHED_WRR" "wrr_time_slice (wrr (tasks s p)) = 1"
        "prev_neq_next (Se_of_task p) (wrr_list s)"
    by blast
  then show ?thesis
  proof cases
    case 1
    then show ?thesis using assms keep [OF wrr_same_update_curr] by (simp add: task_tick_wrr_def)
  next
    case run
    from task_tick_wrr_running [OF run, of E c queued] show ?thesis using assms(1) keep by blast
  next
    case alone
    from task_tick_wrr_alone [OF alone, of E c queued] show ?thesis using assms(1) keep by blast
  next
    case rot
    have "linked (Se_of_task p) (wrr_list s)"
      using rot(3) by (auto simp: prev_neq_next_def linked_def split: option.splits)
    then obtain i where i: "Se_of_task p \<in> set (items (wrr_list s) (Rq_of_cpu c, i))"
      using linked_level [OF assms(1) _ assms(2)] by metis
    have "items (wrr_list s) (Rq_of_cpu c, i) \<noteq> [Se_of_task p]"
      using rot(3) prev_neq_next_iff [OF wrr_invD(1) [OF assms(1)] i] by simp
    from task_tick_wrr_rotates [OF assms(1) rot(1,2) i this, of E queued] show ?thesis by blast
  qed
qed

end
