(* ===== verification/Wrr_RMLFQ.thy ===== *)
theory Wrr_RMLFQ
  imports Wrr_Basic "HOL-Library.Signed_Division"
begin

text \<open>
  Bonus/RevisedWRR/wrr_RMLFQ.c: the randomised multi-level feedback variant. Its functions carry
  the suffix \<open>_m\<close>; those whose bodies repeat wrr_basic.c are proved equal to them below. A
  task's level is 99 minus its \<open>rt_priority\<close>, and requeueing moves it by a random draw to the
  stage ten levels below or above, or keeps it.
\<close>

section \<open>The functions of the file\<close>

definition getRand :: "env \<Rightarrow> kst \<Rightarrow> u32 \<times> kst" where
  "getRand E s = (random_bytes E (rand_pos s), s\<lparr>rand_pos := rand_pos s + 1\<rparr>)"

definition task_group_path_m :: "env \<Rightarrow> tgid \<Rightarrow> kst \<Rightarrow> kst" where
  "task_group_path_m E tg s =
     (let (done, buf) = autogroup_path E tg (group_path s); s = s\<lparr>group_path := buf\<rparr> in
      if done then s
      else if \<not> css_cgroup (task_groups s tg) then
        s\<lparr>group_path := (group_path s)(0 := CHR 0x00)\<rparr>
      else s\<lparr>group_path := cgroup_path E tg (group_path s)\<rparr>)"

definition wrr_task_of_m :: "se_ref \<Rightarrow> tid option" where
  "wrr_task_of_m wrr_se = (case wrr_se of Se_of_task p \<Rightarrow> Some p | Se_of_group _ _ \<Rightarrow> None)"

definition rq_of_wrr_rq_m :: "kst \<Rightarrow> rq_ref \<Rightarrow> cpu option" where
  "rq_of_wrr_rq_m s q = wrr_rq_rq (wrr_rqs s q)"

definition wrr_rq_of_se_m :: "kst \<Rightarrow> se_ref \<Rightarrow> rq_ref option" where
  "wrr_rq_of_se_m s wrr_se = do {
     p \<leftarrow> wrr_task_of_m wrr_se;
     Some (Rq_of_cpu (task_cpu s p))
   }"

definition wrr_se_prio_m :: "kst \<Rightarrow> se_ref \<Rightarrow> int option" where
  "wrr_se_prio_m s wrr_se = do {
     p \<leftarrow> wrr_task_of_m wrr_se;
     Some (sint (99 - rt_priority (tasks s p)))
   }"

definition wrr_task_prio :: "kst \<Rightarrow> tid \<Rightarrow> int" where
  "wrr_task_prio s p = sint (99 - rt_priority (tasks s p))"

definition update_curr_wrr_m :: "env \<Rightarrow> cpu \<Rightarrow> kst \<Rightarrow> kst" where
  "update_curr_wrr_m E c s =
     (let p = curr (rqs s c) in
      if task_class (tasks s p) \<noteq> wrr_sched_class then s
      else
        let delta_exec = clock_task (rqs s c) - exec_start (se (tasks s p));
            delta_exec = (if sint delta_exec < 0 then 0 else delta_exec);
            s = upd_task p (\<lambda>t. t\<lparr>se := (se t)\<lparr>exec_max := max (exec_max (se t)) delta_exec\<rparr>\<rparr>) s;
            s = upd_task p (\<lambda>t. t\<lparr>se := (se t)\<lparr>sum_exec_runtime :=
                                  sum_exec_runtime (se t) + delta_exec\<rparr>\<rparr>) s;
            s = ext (Account_group_exec_runtime p delta_exec) s;
            s = upd_task p (\<lambda>t. t\<lparr>se := (se t)\<lparr>exec_start := clock_task (rqs s c)\<rparr>\<rparr>) s
        in cpuacct_charge E p delta_exec s)"

definition list_del_leaf_wrr_rq_m :: "rq_ref \<Rightarrow> kst \<Rightarrow> kst option" where
  "list_del_leaf_wrr_rq_m q s = do {
     F \<leftarrow> list_del_rcu q (leaf_wrr s);
     Some (s\<lparr>leaf_wrr := F\<rparr>)
   }"

definition dequeue_wrr_entity_m :: "se_ref \<Rightarrow> kst \<Rightarrow> kst option" where
  "dequeue_wrr_entity_m wrr_se s = do {
     q \<leftarrow> wrr_rq_of_se_m s wrr_se;
     let s = s\<lparr>wrr_list := list_del_init wrr_se (wrr_list s)\<rparr>;
     prio \<leftarrow> wrr_se_prio_m s wrr_se;
     queue \<leftarrow> array_queue q prio;
     let s = (if head_empty queue (wrr_list s) then upd_wrr_rq q (clear_wrr_bit (nat prio)) s else s);
     let s = upd_wrr_rq q (\<lambda>r. r\<lparr>wrr_nr_running := wrr_nr_running r - 1\<rparr>) s;
     if wrr_nr_running (wrr_rqs s q) = 0 then list_del_leaf_wrr_rq_m q s else Some s
   }"

definition dequeue_task_wrr_m :: "env \<Rightarrow> cpu \<Rightarrow> tid \<Rightarrow> u32 \<Rightarrow> kst \<Rightarrow> kst option" where
  "dequeue_task_wrr_m E c p flags s = do {
     let s = update_curr_wrr_m E c s;
     s \<leftarrow> dequeue_wrr_entity_m (Se_of_task p) s;
     Some (dec_nr_running c s)
   }"

definition list_add_leaf_wrr_rq_m :: "rq_ref \<Rightarrow> kst \<Rightarrow> kst option" where
  "list_add_leaf_wrr_rq_m q s = do {
     c \<leftarrow> rq_of_wrr_rq_m s q;
     F \<leftarrow> list_add q c (leaf_wrr s);
     Some (s\<lparr>leaf_wrr := F\<rparr>)
   }"

definition enqueue_wrr_entity_m :: "se_ref \<Rightarrow> bool \<Rightarrow> kst \<Rightarrow> kst option" where
  "enqueue_wrr_entity_m wrr_se head s = do {
     q \<leftarrow> wrr_rq_of_se_m s wrr_se;
     prio \<leftarrow> wrr_se_prio_m s wrr_se;
     queue \<leftarrow> array_queue q prio;
     s \<leftarrow> (if wrr_nr_running (wrr_rqs s q) = 0 then list_add_leaf_wrr_rq_m q s else Some s);
     L \<leftarrow> (if head then list_add wrr_se queue (wrr_list s)
          else list_add_tail wrr_se queue (wrr_list s));
     let s = s\<lparr>wrr_list := L\<rparr>;
     let s = upd_wrr_rq q (set_wrr_bit (nat prio)) s;
     Some (upd_wrr_rq q (\<lambda>r. r\<lparr>wrr_nr_running := wrr_nr_running r + 1\<rparr>) s)
   }"

definition enqueue_task_wrr_m :: "cpu \<Rightarrow> tid \<Rightarrow> u32 \<Rightarrow> kst \<Rightarrow> kst option" where
  "enqueue_task_wrr_m c p flags s = do {
     s \<leftarrow> enqueue_wrr_entity_m (Se_of_task p) (flags AND ENQUEUE_HEAD \<noteq> 0) s;
     Some (inc_nr_running c s)
   }"

text \<open>
  \<open>x * UNSIGNED_MAX / 10\<close>. The kernel is compiled as gnu89 for a 32-bit target, where the
  constant 4294967295 is an \<open>unsigned long\<close> of 32 bits, so the product wraps.
\<close>

definition UNSIGNED_MAX :: ulong where "UNSIGNED_MAX = 4294967295"

definition stage_share :: "u32 \<Rightarrow> u32" where
  "stage_share x = x * UNSIGNED_MAX div 10"

definition requeue_task_wrr_m :: "env \<Rightarrow> cpu \<Rightarrow> tid \<Rightarrow> bool \<Rightarrow> kst \<Rightarrow> kst option" where
  "requeue_task_wrr_m E c p head s = do {
     let (r, s) = getRand E s;
     let prio = wrr_task_prio s p;
     let wrr_se = Se_of_task p;
     let q = Rq_of_cpu c;
     queue \<leftarrow> array_queue q prio;
     high_queue \<leftarrow> (if prio < 90 then array_queue q (prio + 10) else Some queue);
     low_queue \<leftarrow> (if prio > 9 then array_queue q (prio - 10) else Some queue);
     let tm = p_times (tasks s p);
     if r < stage_share (tm + word_of_int (prio div 20)) then do {
       let s = upd_task p (\<lambda>t. t\<lparr>p_times := 1\<rparr>) s;
       let s = s\<lparr>wrr_list := list_del_init wrr_se (wrr_list s)\<rparr>;
       L \<leftarrow> (if head then list_add wrr_se low_queue (wrr_list s)
            else list_add_tail wrr_se low_queue (wrr_list s));
       let s = s\<lparr>wrr_list := L\<rparr>;
       if prio > 9 then
         let s = (if head_empty queue (wrr_list s) then upd_wrr_rq q (clear_wrr_bit (nat prio)) s else s);
             s = upd_wrr_rq q (set_wrr_bit (nat (prio - 10))) s
         in Some (upd_task p (\<lambda>t. t\<lparr>rt_priority := rt_priority t + 10\<rparr>) s)
       else Some s
     }
     else if r > stage_share (5 - tm + word_of_int (prio div 20)) then do {
       let s = upd_task p (\<lambda>t. t\<lparr>p_times := 1\<rparr>) s;
       let s = s\<lparr>wrr_list := list_del_init wrr_se (wrr_list s)\<rparr>;
       L \<leftarrow> (if head then list_add wrr_se high_queue (wrr_list s)
            else list_add_tail wrr_se high_queue (wrr_list s));
       let s = s\<lparr>wrr_list := L\<rparr>;
       if prio < 90 then
         let s = (if head_empty queue (wrr_list s) then upd_wrr_rq q (clear_wrr_bit (nat prio)) s else s);
             s = upd_wrr_rq q (set_wrr_bit (nat (prio + 10))) s
         in Some (upd_task p (\<lambda>t. t\<lparr>rt_priority := rt_priority t - 10\<rparr>) s)
       else Some s
     }
     else do {
       let s = upd_task p (\<lambda>t. t\<lparr>p_times := p_times t + 1\<rparr>) s;
       L \<leftarrow> (if head then list_move wrr_se queue (wrr_list s)
            else list_move_tail wrr_se queue (wrr_list s));
       Some (s\<lparr>wrr_list := L\<rparr>)
     }
   }"

definition yield_task_wrr_m :: "env \<Rightarrow> cpu \<Rightarrow> kst \<Rightarrow> kst option" where
  "yield_task_wrr_m E c s = requeue_task_wrr_m E c (curr (rqs s c)) False s"

definition check_preempt_curr_wrr_m :: "env \<Rightarrow> cpu \<Rightarrow> tid \<Rightarrow> u32 \<Rightarrow> kst \<Rightarrow> kst" where
  "check_preempt_curr_wrr_m E c p flags s =
     (if wrr_task_prio s p < wrr_task_prio s (curr (rqs s c))
      then resched_task E (curr (rqs s c)) s
      else s)"

definition pick_next_task_wrr_m :: "cpu \<Rightarrow> kst \<Rightarrow> (tid option \<times> kst) option" where
  "pick_next_task_wrr_m c s =
     (if wrr_nr_running (wrr_rqs s (Rq_of_cpu c)) = 0 then Some (None, s)
      else do {
        let q = Rq_of_cpu c;
        let idx = find_next_bit (wrr_bitmap (wrr_rqs s q)) (nat MAX_WRR_PRIO + 1) 0;
        _ \<leftarrow> BUG_ON (int idx \<ge> MAX_WRR_PRIO);
        queue \<leftarrow> array_queue q (int idx);
        next \<leftarrow> first_entry queue (wrr_list s);
        p \<leftarrow> wrr_task_of_m next;
        Some (Some p, upd_task p (\<lambda>t. t\<lparr>se := (se t)\<lparr>exec_start := clock_task (rqs s c)\<rparr>\<rparr>) s)
      })"

definition put_prev_task_wrr_m :: "env \<Rightarrow> cpu \<Rightarrow> tid \<Rightarrow> kst \<Rightarrow> kst" where
  "put_prev_task_wrr_m E c p s = update_curr_wrr_m E c s"

definition set_curr_task_wrr_m :: "cpu \<Rightarrow> kst \<Rightarrow> kst" where
  "set_curr_task_wrr_m c s =
     upd_task (curr (rqs s c)) (\<lambda>t. t\<lparr>se := (se t)\<lparr>exec_start := clock_task (rqs s c)\<rparr>\<rparr>) s"

definition task_tick_wrr_m :: "env \<Rightarrow> cpu \<Rightarrow> tid \<Rightarrow> bool \<Rightarrow> kst \<Rightarrow> kst option" where
  "task_tick_wrr_m E c p queued s = do {
     let s = update_curr_wrr_m E c s;
     if policy (tasks s p) \<noteq> SCHED_WRR then Some s
     else do {
       let s = upd_task p (\<lambda>t. t\<lparr>wrr := (wrr t)\<lparr>wrr_time_slice := wrr_time_slice (wrr t) - 1\<rparr>\<rparr>) s;
       if wrr_time_slice (wrr (tasks s p)) \<noteq> 0 then Some s
       else do {
         let stage = wrr_task_prio s p sdiv 10 + 1;
         let s = task_group_path_m E (sched_task_group (tasks s p)) s;
         let slice = (if group_path s 1 \<noteq> CHR ''b'' then WRR_FORE_TIMESLICE (HZ E) * word_of_int stage
                      else WRR_BACK_TIMESLICE (HZ E));
         let s = upd_task p (\<lambda>t. t\<lparr>wrr := (wrr t)\<lparr>wrr_time_slice := slice\<rparr>\<rparr>) s;
         let s = set_tsk_need_resched p s;
         requeue_task_wrr_m E c p False s
       }
     }
   }"

definition get_rr_interval_wrr_m :: "env \<Rightarrow> cpu \<Rightarrow> tid option \<Rightarrow> kst \<Rightarrow> u32 \<times> kst" where
  "get_rr_interval_wrr_m E c task s =
     (case task of
        None \<Rightarrow> (word_of_int (- EINVAL), s)
      | Some p \<Rightarrow>
          let stage = wrr_task_prio s p sdiv 10 + 1;
              s = task_group_path_m E (sched_task_group (tasks s p)) s in
          (if group_path s 1 \<noteq> CHR ''b'' then WRR_FORE_TIMESLICE (HZ E) * word_of_int stage
           else WRR_BACK_TIMESLICE (HZ E), s))"

definition task_fork_wrr_m :: "tid \<Rightarrow> kst \<Rightarrow> kst" where
  "task_fork_wrr_m p s = s"

definition switched_to_wrr_m :: "env \<Rightarrow> cpu \<Rightarrow> tid \<Rightarrow> kst \<Rightarrow> kst" where
  "switched_to_wrr_m E c p s =
     (if on_rq (tasks s p) \<and> curr (rqs s c) \<noteq> p then
        if wrr_task_prio s p < wrr_task_prio s (curr (rqs s c))
        then resched_task E (curr (rqs s c)) s
        else s
      else s)"

definition free_wrr_sched_group_m :: "tgid \<Rightarrow> kst \<Rightarrow> kst" where
  "free_wrr_sched_group_m tg s = s"

definition alloc_wrr_sched_group_m :: "tgid \<Rightarrow> tgid option \<Rightarrow> kst \<Rightarrow> int \<times> kst" where
  "alloc_wrr_sched_group_m tg parent s = (1, s)"

definition select_task_rq_wrr_m :: "tid \<Rightarrow> u32 \<Rightarrow> u32 \<Rightarrow> kst \<Rightarrow> cpu option" where
  "select_task_rq_wrr_m p sd_flag flags s = None"

definition set_cpus_allowed_wrr_m :: "tid \<Rightarrow> cpu set \<Rightarrow> kst \<Rightarrow> kst" where
  "set_cpus_allowed_wrr_m p new_mask s = s"

definition rq_offline_wrr_m :: "cpu \<Rightarrow> kst \<Rightarrow> kst" where "rq_offline_wrr_m c s = s"

definition rq_online_wrr_m :: "cpu \<Rightarrow> kst \<Rightarrow> kst" where "rq_online_wrr_m c s = s"

definition pre_schedule_wrr_m :: "cpu \<Rightarrow> tid \<Rightarrow> kst \<Rightarrow> kst" where "pre_schedule_wrr_m c prev s = s"

definition post_schedule_wrr_m :: "cpu \<Rightarrow> kst \<Rightarrow> kst" where "post_schedule_wrr_m c s = s"

definition task_woken_wrr_m :: "cpu \<Rightarrow> tid \<Rightarrow> kst \<Rightarrow> kst" where "task_woken_wrr_m c p s = s"

definition switched_from_wrr_m :: "cpu \<Rightarrow> tid \<Rightarrow> kst \<Rightarrow> kst" where "switched_from_wrr_m c p s = s"

definition prio_changed_wrr_m :: "cpu \<Rightarrow> tid \<Rightarrow> int \<Rightarrow> kst \<Rightarrow> kst" where "prio_changed_wrr_m c p oldprio s = s"

definition wrr_class_m :: "env \<Rightarrow> class_ops" where
  "wrr_class_m E =
     \<lparr>op_enqueue_task = enqueue_task_wrr_m,
      op_dequeue_task = dequeue_task_wrr_m E,
      op_yield_task = yield_task_wrr_m E,
      op_check_preempt_curr = (\<lambda>c p flags s. Some (check_preempt_curr_wrr_m E c p flags s)),
      op_pick_next_task = pick_next_task_wrr_m,
      op_put_prev_task = (\<lambda>c p s. Some (put_prev_task_wrr_m E c p s)),
      op_select_task_rq = select_task_rq_wrr_m,
      op_pre_schedule = Some (\<lambda>c p s. Some (pre_schedule_wrr_m c p s)),
      op_post_schedule = Some (\<lambda>c s. Some (post_schedule_wrr_m c s)),
      op_task_waking = None,
      op_task_woken = Some (\<lambda>c p s. Some (task_woken_wrr_m c p s)),
      op_set_cpus_allowed = Some (\<lambda>p m s. Some (set_cpus_allowed_wrr_m p m s)),
      op_rq_online = Some (\<lambda>c s. Some (rq_online_wrr_m c s)),
      op_rq_offline = Some (\<lambda>c s. Some (rq_offline_wrr_m c s)),
      op_set_curr_task = (\<lambda>c s. Some (set_curr_task_wrr_m c s)),
      op_task_tick = task_tick_wrr_m E,
      op_task_fork = Some (\<lambda>p s. Some (task_fork_wrr_m p s)),
      op_switched_from = Some (\<lambda>c p s. Some (switched_from_wrr_m c p s)),
      op_switched_to = (\<lambda>c p s. Some (switched_to_wrr_m E c p s)),
      op_prio_changed = (\<lambda>c p old s. Some (prio_changed_wrr_m c p old s)),
      op_get_rr_interval = Some (\<lambda>c p s. Some (get_rr_interval_wrr_m E c p s))\<rparr>"

section \<open>Functions shared with the basic class\<close>

lemma rmlfq_shared [simp]:
  "task_group_path_m = task_group_path" "wrr_task_of_m = wrr_task_of"
  "rq_of_wrr_rq_m = rq_of_wrr_rq" "wrr_rq_of_se_m = wrr_rq_of_se"
  "update_curr_wrr_m = update_curr_wrr" "list_del_leaf_wrr_rq_m = list_del_leaf_wrr_rq"
  "list_add_leaf_wrr_rq_m = list_add_leaf_wrr_rq" "pick_next_task_wrr_m = pick_next_task_wrr"
  "put_prev_task_wrr_m = put_prev_task_wrr" "set_curr_task_wrr_m = set_curr_task_wrr"
  by (intro ext; simp add: task_group_path_m_def task_group_path_def wrr_task_of_m_def wrr_task_of_def
      rq_of_wrr_rq_m_def rq_of_wrr_rq_def wrr_rq_of_se_m_def wrr_rq_of_se_def update_curr_wrr_m_def
      update_curr_wrr_def list_del_leaf_wrr_rq_m_def list_del_leaf_wrr_rq_def
      list_add_leaf_wrr_rq_m_def list_add_leaf_wrr_rq_def pick_next_task_wrr_m_def
      pick_next_task_wrr_def put_prev_task_wrr_m_def put_prev_task_wrr_def
      set_curr_task_wrr_m_def set_curr_task_wrr_def)+


section \<open>Levels and the invariant\<close>

definition mlfq_level :: "u32 \<Rightarrow> int" where
  "mlfq_level x = sint (99 - x)"

abbreviation mlfq_inv :: "kst \<Rightarrow> bool" where "mlfq_inv \<equiv> wrr_inv mlfq_level"

lemma mlfq_level_prio:
  assumes "mlfq_level x = int i" "i < 100"
  shows "x = word_of_nat (99 - i)"
proof -
  have "99 - x = word_of_nat i" using sint_levelD(1) assms unfolding mlfq_level_def by blast
  then have "x = 99 - word_of_nat i" by (metis diff_diff_eq2 add_diff_cancel_left' diff_add_cancel)
  also have "\<dots> = word_of_nat (99 - i)" using assms(2) by (simp add: of_nat_diff)
  finally show ?thesis .
qed

lemma mlfq_level_of_nat:
  assumes "i < 100"
  shows "mlfq_level (word_of_nat (99 - i)) = int i"
proof -
  have "(99 - word_of_nat (99 - i) :: u32) = word_of_nat i" using assms by (simp add: of_nat_diff)
  moreover have "sint (word_of_nat i :: u32) = int i"
    using assms by (subst sint_small) (simp_all add: word_less_nat_alt unat_of_nat)
  ultimately show ?thesis by (simp add: mlfq_level_def)
qed

lemma wrr_task_prio_level: "wrr_task_prio s p = mlfq_level (rt_priority (tasks s p))"
  by (simp add: wrr_task_prio_def mlfq_level_def)

section \<open>Net effects\<close>

lemma enqueue_wrr_entity_m_eq:
  assumes "mlfq_inv s" "wrr_fits mlfq_level c e i s" "e \<notin> pa_members (wrr_view c s)"
  shows "enqueue_wrr_entity_m e head s = Some (q_enq c i e head s)"
proof -
  obtain p where p: "e = Se_of_task p" "mlfq_level (rt_priority (tasks s p)) = int i"
    "task_cpu s p = c" "i < LEVELS" "c < nr_cpus s"
    using assms(2) by (rule wrr_fits_cases)
  have unl: "owner (wrr_list s) e = None" using assms by (rule wrr_unlinked)
  have ok: "wrr_rq_ok c s" using assms(1) p(5) by (rule wrr_invD)
  have task: "wrr_rq_of_se s e = Some (Rq_of_cpu c)" "wrr_se_prio_m s e = Some (int i)"
    using p by (simp_all add: wrr_rq_of_se_def wrr_se_prio_m_def wrr_task_of_def mlfq_level_def)
  show ?thesis
    using ok unl p(4) task
    by (cases "wrr_nr_running (wrr_rqs s (Rq_of_cpu c)) = 0"; cases head)
      (simp_all add: enqueue_wrr_entity_m_def array_queue_nat list_add_leaf_wrr_rq_def
        rq_of_wrr_rq_def wrr_rq_ok_def list_add_def list_add_tail_def q_enq_def Let_def set_wrr_bit_def)
qed

lemma dequeue_wrr_entity_m_eq:
  assumes "mlfq_inv s" "e \<in> set (items (wrr_list s) (Rq_of_cpu c, i))"
  shows "dequeue_wrr_entity_m e s = Some (q_deq c i e s)"
proof -
  obtain p where p: "e = Se_of_task p" "mlfq_level (rt_priority (tasks s p)) = int i"
    "task_cpu s p = c" "i < LEVELS" "c < nr_cpus s"
    using queued_wrr_fits [OF assms] by (rule wrr_fits_cases)
  have ok: "wrr_rq_ok c s" and pok: "pa_ok (wrr_view c s)"
    using wrr_invD(4,5) [OF assms(1)] p(5) by blast+
  have bit: "wrr_bitmap (wrr_rqs s (Rq_of_cpu c)) i"
    using pa_ok_bit [OF pok p(4)] assms(2) by auto
  have n0: "wrr_nr_running (wrr_rqs s (Rq_of_cpu c)) \<noteq> 0"
    using pa_ok_count [OF pok] assms(2) p(4) by (auto intro!: bexI [of _ i])
  show ?thesis
    using ok p(4) bit n0 p(2) [unfolded mlfq_level_def]
    by (simp add: dequeue_wrr_entity_m_def array_queue_nat p(1,3) wrr_rq_of_se_def wrr_se_prio_m_def
        wrr_task_of_def head_empty_def q_deq_def Let_def clear_wrr_bit_def wrr_rq_ok_def
        list_del_leaf_wrr_rq_def list_del_rcu_def fun_upd_idem)
qed

text \<open>
  Requeueing: where the draw sends a task of level \<open>i\<close>. \<open>q_shift\<close> is the move of an entity from
  one level to another, its new priority included.
\<close>

definition stage_down :: "u32 \<Rightarrow> u32 \<Rightarrow> nat \<Rightarrow> bool" where
  "stage_down r tm i \<longleftrightarrow> r < stage_share (tm + word_of_nat (i div 20))"

definition stage_up :: "u32 \<Rightarrow> u32 \<Rightarrow> nat \<Rightarrow> bool" where
  "stage_up r tm i \<longleftrightarrow> \<not> stage_down r tm i \<and> r > stage_share (5 - tm + word_of_nat (i div 20))"

definition next_level :: "u32 \<Rightarrow> u32 \<Rightarrow> nat \<Rightarrow> nat" where
  "next_level r tm i =
     (if stage_down r tm i then (if i > 9 then i - 10 else i)
      else if stage_up r tm i then (if i < 90 then i + 10 else i)
      else i)"

definition next_times :: "u32 \<Rightarrow> u32 \<Rightarrow> nat \<Rightarrow> u32" where
  "next_times r tm i = (if stage_down r tm i \<or> stage_up r tm i then 1 else tm + 1)"

definition q_shift :: "cpu \<Rightarrow> nat \<Rightarrow> nat \<Rightarrow> tid \<Rightarrow> bool \<Rightarrow> kst \<Rightarrow> kst" where
  "q_shift c i j p head s =
     (let q = Rq_of_cpu c; e = Se_of_task p; L = list_del_init e (wrr_list s); xs = items L (q, j);
          r = wrr_rqs s q in
      s\<lparr>tasks := (tasks s)(p := (tasks s p)\<lparr>rt_priority := word_of_nat (99 - j)\<rparr>),
        wrr_list := L\<lparr>items := (items L)((q, j) := if head then e # xs else xs @ [e]),
                      owner := (owner L)(e := Some (q, j))\<rparr>,
        wrr_rqs := (wrr_rqs s)(q :=
           r\<lparr>wrr_bitmap := (wrr_bitmap r)(i := items L (q, i) \<noteq> [], j := True)\<rparr>)\<rparr>)"

definition q_stage :: "cpu \<Rightarrow> nat \<Rightarrow> nat \<Rightarrow> tid \<Rightarrow> bool \<Rightarrow> kst \<Rightarrow> kst" where
  "q_stage c i j p head s =
     (if i = j then q_move c i (Se_of_task p) head s else q_shift c i j p head s)"

lemma next_level_bound: "i < LEVELS \<Longrightarrow> next_level r tm i < LEVELS"
  by (auto simp: next_level_def)

lemma wrr_same_draw:
  "wrr_same s (upd_task p (\<lambda>t. t\<lparr>p_times := x\<rparr>) (s\<lparr>rand_pos := y\<rparr>))"
  by (simp add: wrr_same_def task_cpu_def)

text \<open>A move to another stage, as the code does it.\<close>

definition move_stage :: "cpu \<Rightarrow> nat \<Rightarrow> nat \<Rightarrow> tid \<Rightarrow> bool \<Rightarrow> kst \<Rightarrow> kst option" where
  "move_stage c i j p head s = do {
     L \<leftarrow> (if head then list_move (Se_of_task p) (Rq_of_cpu c, j) (wrr_list s)
          else list_move_tail (Se_of_task p) (Rq_of_cpu c, j) (wrr_list s));
     let s = s\<lparr>wrr_list := L\<rparr>;
     if i \<noteq> j then
       let s = (if head_empty (Rq_of_cpu c, i) (wrr_list s)
                then upd_wrr_rq (Rq_of_cpu c) (clear_wrr_bit i) s else s);
           s = upd_wrr_rq (Rq_of_cpu c) (set_wrr_bit j) s
       in Some (upd_task p (\<lambda>t. t\<lparr>rt_priority := word_of_nat (99 - j)\<rparr>) s)
     else Some s
   }"

lemma move_stage_eq:
  assumes "wrr_bitmap (wrr_rqs s (Rq_of_cpu c)) i"
  shows "move_stage c i j p head s = Some (q_stage c i j p head s)"
proof (cases "i = j")
  case True
  then show ?thesis
    by (cases head) (simp_all add: move_stage_def q_stage_def q_move_def list_move_eq
        list_move_tail_eq Let_def)
next
  case False
  let ?L = "list_del_init (Se_of_task p) (wrr_list s)"
  have bit: "(wrr_bitmap (wrr_rqs s (Rq_of_cpu c)))(i := True) = wrr_bitmap (wrr_rqs s (Rq_of_cpu c))"
    using assms by (simp add: fun_upd_idem)
  show ?thesis
  proof (cases "items ?L (Rq_of_cpu c, i) = []")
    case True
    with False show ?thesis
      by (cases head) (simp_all add: move_stage_def q_stage_def q_shift_def list_move_eq
          list_move_tail_eq Let_def head_empty_def clear_wrr_bit_def set_wrr_bit_def)
  next
    case ne: False
    with False show ?thesis
      by (cases head) (simp_all add: move_stage_def q_stage_def q_shift_def list_move_eq
          list_move_tail_eq Let_def head_empty_def set_wrr_bit_def bit)
  qed
qed

lemma requeue_task_wrr_m_stages:
  fixes i :: nat and E :: env
  assumes lv: "mlfq_level (rt_priority (tasks s p)) = int i" and i: "i < LEVELS"
  defines "r \<equiv> random_bytes E (rand_pos s)" and "tm \<equiv> p_times (tasks s p)"
  shows "requeue_task_wrr_m E c p head s =
    move_stage c i (next_level r tm i) p head
      (upd_task p (\<lambda>t. t\<lparr>p_times := next_times r tm i\<rparr>) (s\<lparr>rand_pos := rand_pos s + 1\<rparr>))"
proof -
  have rt: "rt_priority (tasks s p) = word_of_nat (99 - i)"
    using mlfq_level_prio [OF lv] i by simp
  have down: "rt_priority (tasks s p) + 10 = word_of_nat (99 - (i - 10))" if "9 < i"
    using that i by (simp add: rt of_nat_diff)
  have up: "rt_priority (tasks s p) - 10 = word_of_nat (99 - (i + 10))" if "i < 90"
    using that by (simp add: rt of_nat_diff)
  have lv': "mlfq_level (99 - word_of_nat i) = int i"
    using lv i by (simp add: rt of_nat_diff)
  have aq: "array_queue (Rq_of_cpu c) (int i - 10) = Some (Rq_of_cpu c, i - 10)" if "9 < i"
    using that i array_queue_nat [of "i - 10"] by (simp add: of_nat_diff)
  have aq': "array_queue (Rq_of_cpu c) (int i + 10) = Some (Rq_of_cpu c, i + 10)" if "i < 90"
    using that array_queue_nat [of "i + 10"] by simp
  have nats: "nat (int i - 10) = i - 10" "nat (int i + 10) = i + 10" "int i div 20 = int (i div 20)"
    by simp_all
  have ne: "i \<noteq> i - 10" if "9 < i" using that by simp
  note defs = requeue_task_wrr_m_def getRand_def wrr_task_prio_level lv lv' array_queue_nat i
    next_level_def next_times_def q_stage_def Let_def nats move_stage_def if_distrib [of tasks] list_move_def list_move_tail_def
    stage_down_def stage_up_def r_def tm_def
  show ?thesis
    using down up aq aq' ne
    by (cases "stage_down r tm i"; cases "stage_up r tm i"; cases "9 < i"; cases "i < 90")
      (simp_all add: defs cong: if_cong)
qed

lemma requeue_task_wrr_m_eq:
  fixes i :: nat and E :: env
  assumes inv: "mlfq_inv s" and mem: "Se_of_task p \<in> set (items (wrr_list s) (Rq_of_cpu c, i))"
  defines "r \<equiv> random_bytes E (rand_pos s)" and "tm \<equiv> p_times (tasks s p)"
  shows "requeue_task_wrr_m E c p head s =
    Some (q_stage c i (next_level r tm i) p head
      (upd_task p (\<lambda>t. t\<lparr>p_times := next_times r tm i\<rparr>) (s\<lparr>rand_pos := rand_pos s + 1\<rparr>)))"
proof -
  have lv: "mlfq_level (rt_priority (tasks s p)) = int i" and i: "i < LEVELS" and c: "c < nr_cpus s"
    using queued_wrr_fits [OF inv mem] by simp_all
  have "wrr_bitmap (wrr_rqs s (Rq_of_cpu c)) i"
    using pa_ok_bit [OF wrr_invD(5) [OF inv c] i] mem by auto
  then show ?thesis
    unfolding requeue_task_wrr_m_stages [OF lv i] r_def tm_def by (intro move_stage_eq) simp
qed

text \<open>A shift keeps the invariant and is a dequeue followed by an enqueue on the new level.\<close>

lemma wrr_inv_q_shift:
  assumes inv: "mlfq_inv s" and mem: "Se_of_task p \<in> set (items (wrr_list s) (Rq_of_cpu c, i))"
    and j: "j < LEVELS" "i \<noteq> j"
  shows "wrr_view c (q_shift c i j p head s) = pa_enq j (Se_of_task p) head (pa_deq i (Se_of_task p) (wrr_view c s))"
    and "mlfq_inv (q_shift c i j p head s)"
proof -
  let ?s = "q_shift c i j p head s" and ?q = "Rq_of_cpu c" and ?e = "Se_of_task p"
  have fit: "wrr_fits mlfq_level c ?e i s" using inv mem by (rule queued_wrr_fits)
  then have c: "c < nr_cpus s" "task_cpu s p = c" by simp_all
  have K: "klist_ok (wrr_list s)" and ok0: "pa_ok (wrr_view c s)"
    using wrr_invD [OF inv] c by simp_all
  have own: "owner (wrr_list s) ?e = Some (?q, i)" using mem K by (simp add: klist_ok_owner)
  have mem': "?e \<in> set (pq (wrr_view c s) i)" using mem by simp
  have "pn (wrr_view c s) \<noteq> 0"
    using pa_ok_count [OF ok0] pa_ok_level [OF ok0 mem'] mem' by (auto intro!: bexI [of _ i])
  then show view: "wrr_view c ?s = pa_enq j ?e head (pa_deq i ?e (wrr_view c s))"
    using own j by (simp add: q_shift_def Let_def wrr_view_def pa_enq_def pa_deq_def fun_eq_iff
        list_del_init_def)
  have other: "wrr_view d ?s = wrr_view d s" if "d \<noteq> c" for d
    using that own by (simp add: q_shift_def Let_def wrr_view_def list_del_init_def)
  have nr: "nr_cpus ?s = nr_cpus s" by (simp add: q_shift_def Let_def)
  have "?e \<notin> pa_members (pa_deq i ?e (wrr_view c s))" by (simp add: pa_members_deq [OF ok0 mem'])
  from pa_ok_enq [OF pa_ok_deq [OF ok0 mem'] j(1) this] have "pa_ok (wrr_view c ?s)" by (simp add: view)
  then have ok: "pa_ok (wrr_view d ?s)" if "d < nr_cpus s" for d
    using other [of d] wrr_invD(5) [OF inv that] by (cases "d = c") simp_all
  have "klist_ok (wrr_list ?s)"
    using klist_ok_link [OF klist_ok_list_del_init [OF K, of ?e], of ?e "(?q, j)" head]
    by (cases head) (simp_all add: q_shift_def Let_def)
  moreover have "klist_ok (leaf_wrr ?s)" using wrr_invD(2) [OF inv] by (simp add: q_shift_def Let_def)
  moreover have "wrr_placed mlfq_level ?s"
    unfolding wrr_placed_def
  proof (intro allI impI)
    fix e q k assume o: "owner (wrr_list ?s) e = Some (q, k)"
    show "\<exists>d. q = Rq_of_cpu d \<and> wrr_fits mlfq_level d e k ?s"
    proof (cases "e = ?e")
      case True
      then show ?thesis
        using o j c mlfq_level_of_nat [of j]
        by (simp add: q_shift_def Let_def task_cpu_def)
    next
      case False
      then have "owner (wrr_list s) e = Some (q, k)" using o by (simp add: q_shift_def Let_def)
      from wrr_placedD [OF inv this] False show ?thesis
        by (auto simp: q_shift_def Let_def wrr_fits_def task_cpu_def split: se_ref.splits)
    qed
  qed
  moreover have "wrr_rq_ok d ?s" if "d < nr_cpus s" for d
    unfolding wrr_rq_ok_def using ok [OF that] wrr_invD(4) [OF inv that]
    by (cases "d = c") (simp_all add: q_shift_def Let_def wrr_rq_ok_def)
  ultimately show "mlfq_inv ?s" by (simp add: wrr_inv_def nr)
qed

lemma nr_cpus_q_stage [simp]: "nr_cpus (q_stage c i j p head s) = nr_cpus s"
  by (simp add: q_stage_def q_shift_def Let_def)

lemma wrr_inv_q_stage:
  assumes "mlfq_inv s" "Se_of_task p \<in> set (items (wrr_list s) (Rq_of_cpu c, i))" "j < LEVELS"
  shows "wrr_view c (q_stage c i j p head s) = pa_enq j (Se_of_task p) head (pa_deq i (Se_of_task p) (wrr_view c s))"
    and "mlfq_inv (q_stage c i j p head s)"
proof -
  have ok: "pa_ok (wrr_view c s)"
    using wrr_invD(5) [OF assms(1)] wrr_fits_bounds [OF queued_wrr_fits [OF assms(1,2)]] by blast
  show "wrr_view c (q_stage c i j p head s) = pa_enq j (Se_of_task p) head (pa_deq i (Se_of_task p) (wrr_view c s))"
    using wrr_inv_q_move(1) [OF assms(1,2), where head = head] wrr_inv_q_shift(1) [OF assms, where head = head]
      pa_enq_deq [OF ok, of "Se_of_task p" i head] assms(2)
    by (cases "i = j") (simp_all add: q_stage_def)
  show "mlfq_inv (q_stage c i j p head s)"
    using wrr_inv_q_move(2) [OF assms(1,2), where head = head] wrr_inv_q_shift(2) [OF assms, where head = head]
    by (cases "i = j") (simp_all add: q_stage_def)
qed

section \<open>The class operations\<close>

lemma enqueue_task_wrr_m_refines:
  assumes "mlfq_inv s" "wrr_fits mlfq_level c (Se_of_task p) i s"
    "Se_of_task p \<notin> pa_members (wrr_view c s)" "pn (wrr_view c s) < 2 ^ 32 - 1"
  shows "\<exists>s'. enqueue_task_wrr_m c p flags s = Some s' \<and> mlfq_inv s' \<and> nr_cpus s' = nr_cpus s \<and>
     wrr_view c s' = pa_enq i (Se_of_task p) (flags AND ENQUEUE_HEAD \<noteq> 0) (wrr_view c s) \<and>
     (\<forall>e j. wrr_fits mlfq_level c e j s' = wrr_fits mlfq_level c e j s)"
proof -
  let ?head = "flags AND ENQUEUE_HEAD \<noteq> 0"
  let ?s = "q_enq c i (Se_of_task p) ?head s"
  note eff = wrr_inv_q_enq [OF assms, where head = ?head]
  have same: "wrr_same ?s (inc_nr_running c ?s)" by simp
  have "enqueue_task_wrr_m c p flags s = Some (inc_nr_running c ?s)"
    using enqueue_wrr_entity_m_eq [OF assms(1-3)] by (simp add: enqueue_task_wrr_m_def)
  with eff wrr_same_inv [OF same] wrr_same_view [OF same] wrr_same_fits [OF same] show ?thesis
    by (intro exI [of _ "inc_nr_running c ?s"]) simp
qed

lemma dequeue_task_wrr_m_refines:
  assumes "mlfq_inv s" "Se_of_task p \<in> set (items (wrr_list s) (Rq_of_cpu c, i))"
  shows "\<exists>s'. dequeue_task_wrr_m E c p flags s = Some s' \<and> mlfq_inv s' \<and> nr_cpus s' = nr_cpus s \<and>
     wrr_view c s' = pa_deq i (Se_of_task p) (wrr_view c s) \<and>
     (\<forall>e j. wrr_fits mlfq_level c e j s' = wrr_fits mlfq_level c e j s)"
proof -
  let ?u = "update_curr_wrr E c s"
  let ?s = "q_deq c i (Se_of_task p) ?u"
  have u: "wrr_same s ?u" and d: "wrr_same ?s (dec_nr_running c ?s)" by simp_all
  have inv: "mlfq_inv ?u" using assms(1) wrr_same_inv [OF u] by simp
  have mem: "Se_of_task p \<in> set (items (wrr_list ?u) (Rq_of_cpu c, i))"
    using assms(2) u by (simp add: wrr_same_def)
  note eff = wrr_inv_q_deq [OF inv mem]
  have "dequeue_task_wrr_m E c p flags s = Some (dec_nr_running c ?s)"
    using dequeue_wrr_entity_m_eq [OF inv mem] by (simp add: dequeue_task_wrr_m_def)
  with eff wrr_same_inv [OF d] wrr_same_view [OF d] wrr_same_fits [OF d]
    wrr_same_view [OF u] wrr_same_fits [OF u] wrr_same_nr_cpus [OF u] show ?thesis
    by (intro exI [of _ "dec_nr_running c ?s"]) simp
qed

definition mlfq_enq :: "cpu \<Rightarrow> se_ref \<Rightarrow> bool \<Rightarrow> kst \<Rightarrow> kst option" where
  "mlfq_enq c e head s = (case e of
      Se_of_task p \<Rightarrow> enqueue_task_wrr_m c p (if head then ENQUEUE_HEAD else 0) s
    | Se_of_group _ _ \<Rightarrow> None)"

definition mlfq_deq :: "env \<Rightarrow> cpu \<Rightarrow> se_ref \<Rightarrow> kst \<Rightarrow> kst option" where
  "mlfq_deq E c e s = (case e of
      Se_of_task p \<Rightarrow> dequeue_task_wrr_m E c p 0 s
    | Se_of_group _ _ \<Rightarrow> None)"

definition mlfq_pick :: "cpu \<Rightarrow> kst \<Rightarrow> (se_ref option \<times> kst) option" where
  "mlfq_pick c s = map_option (map_prod (map_option Se_of_task) id) (pick_next_task_wrr_m c s)"

interpretation mlfq: prio_class "\<lambda>s. mlfq_inv s \<and> c < nr_cpus s" "wrr_view c"
  "\<lambda>e i s. wrr_fits mlfq_level c e i s" "2 ^ 32 - 1" "mlfq_enq c" "mlfq_deq E c" "mlfq_pick c" for c E
proof unfold_locales
  fix s e i and head :: bool
  show "mlfq_inv s \<and> c < nr_cpus s \<Longrightarrow> pa_ok (wrr_view c s)" using wrr_invD(5) by blast
  show "wrr_fits mlfq_level c e i s \<Longrightarrow> i < LEVELS" by (simp add: wrr_fits_def)
  assume "mlfq_inv s \<and> c < nr_cpus s"
  then have inv: "mlfq_inv s" and c: "c < nr_cpus s" by simp_all
  show fits: "e \<in> set (pq (wrr_view c s) i) \<Longrightarrow> wrr_fits mlfq_level c e i s"
    using queued_wrr_fits [OF inv] by simp
  show "\<exists>s'. mlfq_enq c e head s = Some s' \<and> (mlfq_inv s' \<and> c < nr_cpus s') \<and>
      wrr_view c s' = pa_enq i e head (wrr_view c s) \<and>
      (\<forall>e j. wrr_fits mlfq_level c e j s' = wrr_fits mlfq_level c e j s)"
    if "wrr_fits mlfq_level c e i s" "e \<notin> pa_members (wrr_view c s)" "pn (wrr_view c s) < 2 ^ 32 - 1"
  proof -
    note fit = that(1)
    obtain p where "e = Se_of_task p" using fit by (rule wrr_fits_cases)
    with enqueue_task_wrr_m_refines [OF inv, of c p i "if head then ENQUEUE_HEAD else 0"] that c
    show ?thesis by (cases head) (auto simp: mlfq_enq_def ENQUEUE_HEAD_def simp del: wrr_fits_task)
  qed
  show "\<exists>s'. mlfq_deq E c e s = Some s' \<and> (mlfq_inv s' \<and> c < nr_cpus s') \<and>
      wrr_view c s' = pa_deq i e (wrr_view c s) \<and>
      (\<forall>e j. wrr_fits mlfq_level c e j s' = wrr_fits mlfq_level c e j s)"
    if "e \<in> set (pq (wrr_view c s) i)"
  proof -
    note fit = fits [OF that]
    obtain p where p: "e = Se_of_task p" using fit by (rule wrr_fits_cases)
    have "Se_of_task p \<in> set (items (wrr_list s) (Rq_of_cpu c, i))" using that p by simp
    from dequeue_task_wrr_m_refines [OF inv this, of E 0] show ?thesis
      using c by (auto simp: mlfq_deq_def p simp del: wrr_fits_task)
  qed
  show "\<exists>s'. mlfq_pick c s = Some (pa_pick (wrr_view c s), s') \<and> (mlfq_inv s' \<and> c < nr_cpus s') \<and>
      wrr_view c s' = wrr_view c s \<and> (\<forall>e j. wrr_fits mlfq_level c e j s' = wrr_fits mlfq_level c e j s)"
    using pick_next_task_wrr_refines [OF inv c] inv c
    by (auto simp: mlfq_pick_def wrr_same_nr_cpus wrr_same_inv wrr_same_view wrr_same_fits)
qed

text \<open>The requeue, for the invariant.\<close>

lemma requeue_task_wrr_m_refines:
  fixes E :: env
  assumes "mlfq_inv s" "Se_of_task p \<in> set (items (wrr_list s) (Rq_of_cpu c, i))"
  defines "j \<equiv> next_level (random_bytes E (rand_pos s)) (p_times (tasks s p)) i"
  shows "\<exists>s'. requeue_task_wrr_m E c p head s = Some s' \<and> mlfq_inv s' \<and> nr_cpus s' = nr_cpus s \<and>
    wrr_view c s' = pa_enq j (Se_of_task p) head (pa_deq i (Se_of_task p) (wrr_view c s))"
proof -
  let ?t = "next_times (random_bytes E (rand_pos s)) (p_times (tasks s p)) i"
  let ?s = "upd_task p (\<lambda>t. t\<lparr>p_times := ?t\<rparr>) (s\<lparr>rand_pos := rand_pos s + 1\<rparr>)"
  have same: "wrr_same s ?s" by (rule wrr_same_draw)
  have inv: "mlfq_inv ?s" using assms(1) wrr_same_inv [OF same] by simp
  have mem: "Se_of_task p \<in> set (items (wrr_list ?s) (Rq_of_cpu c, i))" using assms(2) by simp
  have j: "j < LEVELS"
    unfolding j_def using wrr_fits_bounds [OF queued_wrr_fits [OF assms(1,2)]] by (intro next_level_bound) simp
  show ?thesis
    using requeue_task_wrr_m_eq [OF assms(1,2), of E head] wrr_inv_q_stage [OF inv mem j, where head = head]
      wrr_same_view [OF same, of c]
    by (simp add: j_def)
qed

lemma task_tick_wrr_m_preserves:
  assumes "mlfq_inv s" "task_cpu s p = c"
    "policy (tasks s p) = SCHED_WRR \<longrightarrow> linked (Se_of_task p) (wrr_list s)"
  shows "\<exists>s'. task_tick_wrr_m E c p queued s = Some s' \<and> mlfq_inv s' \<and> nr_cpus s' = nr_cpus s"
proof -
  let ?u = "update_curr_wrr E c s"
  let ?s1 = "upd_task p (\<lambda>t. t\<lparr>wrr := (wrr t)\<lparr>wrr_time_slice := wrr_time_slice (wrr t) - 1\<rparr>\<rparr>) ?u"
  let ?s2 = "task_group_path E (sched_task_group (tasks s p)) ?s1"
  have same1: "wrr_same s ?s1" by (simp add: wrr_same_def task_cpu_def)
  have same3: "wrr_same s (set_tsk_need_resched p (upd_task p (\<lambda>t. t\<lparr>wrr := (wrr t)\<lparr>wrr_time_slice := x\<rparr>\<rparr>) ?s2))" for x
    by (simp add: wrr_same_def task_cpu_def set_tsk_need_resched_def)
  have requeue: "\<exists>s'. requeue_task_wrr_m E c p False s3 = Some s' \<and> mlfq_inv s' \<and> nr_cpus s' = nr_cpus s"
    if pol: "policy (tasks s p) = SCHED_WRR" and same: "wrr_same s s3" for s3
  proof -
    obtain i where "Se_of_task p \<in> set (items (wrr_list s) (Rq_of_cpu c, i))"
      using linked_level [OF assms(1) _ assms(2)] assms(3) pol by metis
    then have "Se_of_task p \<in> set (items (wrr_list s3) (Rq_of_cpu c, i))"
      using same by (simp add: wrr_same_def)
    from requeue_task_wrr_m_refines [OF _ this, of E False] show ?thesis
      using assms(1) wrr_same_inv [OF same] wrr_same_nr_cpus [OF same] by auto
  qed
  show ?thesis
    using assms(1) wrr_same_inv [OF same1] requeue [OF _ same3]
      wrr_same_inv [OF wrr_same_update_curr, of mlfq_level]
    by (auto simp: task_tick_wrr_m_def Let_def)
qed

end
