(* ===== verification/Wrr_RMLFQ_Spec.thy ===== *)
theory Wrr_RMLFQ_Spec
  imports Wrr_RMLFQ
begin

text \<open>
  What the RMLFQ class does: no run crashes and no priority leaves its range although every
  requeue changes priorities at random; requeueing is a move between stages; preemption agrees
  with picking; and the draw does not have the probabilities the code writes down.
\<close>

section \<open>Sample run-queue\<close>

text \<open>Tasks 2 and 3 on level 49 (\<open>rt_priority\<close> 50); task 2 is running.\<close>

definition mlfq_sample :: kst where
  "mlfq_sample = q_enq 0 49 (Se_of_task 3) False (q_enq 0 49 (Se_of_task 2) False
     (upd_rq 0 (\<lambda>r. r\<lparr>curr := 2\<rparr>) sample))"

lemma mlfq_level_50: "mlfq_level 50 = 49"
  using mlfq_level_of_nat [of 49] by simp

lemma mlfq_sample_inv [simp]: "mlfq_inv mlfq_sample"
proof -
  let ?s0 = "upd_rq 0 (\<lambda>r. r\<lparr>curr := 2\<rparr>) sample"
  have same: "wrr_same sample ?s0" by (rule wrr_same_set_curr [of _ _ "\<lambda>_. 2"])
  then have i0: "mlfq_inv ?s0" by (simp add: wrr_same_inv)
  let ?s1 = "q_enq 0 49 (Se_of_task 2) False ?s0"
  have i1: "mlfq_inv ?s1"
    by (rule wrr_inv_q_enq(2) [OF i0])
      (simp_all add: task_cpu_def pa_members_def klist_empty_def mlfq_level_50)
  show ?thesis
    unfolding mlfq_sample_def
    by (rule wrr_inv_q_enq(2) [OF i1])
      (simp_all add: task_cpu_def pa_members_def q_enq_def Let_def klist_empty_def mlfq_level_50)
qed

lemma mlfq_sample_simps [simp]:
  "items (wrr_list mlfq_sample) h = (if h = (Rq_of_cpu 0, 49) then [Se_of_task 2, Se_of_task 3] else [])"
  "owner (wrr_list mlfq_sample) = [Se_of_task 2 \<mapsto> (Rq_of_cpu 0, 49), Se_of_task 3 \<mapsto> (Rq_of_cpu 0, 49)]"
  "tasks mlfq_sample = sample_task" "nr_cpus mlfq_sample = 1" "curr (rqs mlfq_sample 0) = 2"
  by (simp_all add: mlfq_sample_def) (simp_all add: q_enq_def Let_def klist_empty_def fun_eq_iff)

section \<open>Runs\<close>

lemma mlfq_event:
  assumes "mlfq_inv s" "class_enabled ev s"
  shows "\<exists>s'. class_exec (wrr_class_m E) ev s = Some s' \<and> mlfq_inv s' \<and> nr_cpus s' = nr_cpus s"
proof (cases ev)
  case (Wake c p flags)
  let ?i = "99 - unat (rt_priority (tasks s p))"
  have "rt_priority (tasks s p) < 100" using assms(2) Wake by simp
  then have lt: "unat (rt_priority (tasks s p)) < 100" by (simp add: word_less_nat_alt)
  then have "rt_priority (tasks s p) = word_of_nat (99 - ?i)" by simp
  then have "mlfq_level (rt_priority (tasks s p)) = int ?i"
    using mlfq_level_of_nat [of ?i] by simp
  then have fit: "wrr_fits mlfq_level c (Se_of_task p) ?i s"
    using assms(2) Wake lt by simp
  then have "Se_of_task p \<notin> pa_members (wrr_view c s)"
    using wrr_linked_view [OF assms(1) fit] assms(2) Wake by simp
  then show ?thesis
    using enqueue_task_wrr_m_refines [OF assms(1) fit, of flags] assms(2) Wake
    by (auto simp: wrr_class_m_def)
next
  case (Sleep c p flags)
  then obtain i where "Se_of_task p \<in> set (items (wrr_list s) (Rq_of_cpu c, i))"
    using linked_level [OF assms(1)] assms(2) by (metis class_enabled.simps(2))
  from dequeue_task_wrr_m_refines [OF assms(1) this, of E flags] show ?thesis
    using Sleep by (auto simp: wrr_class_m_def)
next
  case (Yield c)
  let ?p = "curr (rqs s c)"
  obtain i where "Se_of_task ?p \<in> set (items (wrr_list s) (Rq_of_cpu c, i))"
    using linked_level [OF assms(1)] assms(2) Yield by (metis class_enabled.simps(3))
  from requeue_task_wrr_m_refines [OF assms(1) this, of E False] show ?thesis
    using Yield by (auto simp: yield_task_wrr_m_def wrr_class_m_def)
next
  case (Tick c)
  then show ?thesis
    using task_tick_wrr_m_preserves [OF assms(1), of "curr (rqs s c)" c E False] assms(2)
    by (auto simp: wrr_class_m_def)
next
  case (Reschedule c)
  let ?u = "put_prev_task_wrr E c (curr (rqs s c)) s"
  have u: "wrr_same s ?u" by simp
  have inv: "mlfq_inv ?u" "c < nr_cpus ?u"
    using assms wrr_same_inv [OF u] wrr_same_nr_cpus [OF u] Reschedule by simp_all
  obtain r s1 where p: "pick_next_task_wrr c ?u = Some (r, s1)" "wrr_same ?u s1"
    using pick_next_task_wrr_refines [OF inv] by blast
  have keep: "wrr_same s (upd_rq c (\<lambda>r'. r'\<lparr>curr := case r of None \<Rightarrow> idle r' | Some p \<Rightarrow> p\<rparr>) s1)"
    using wrr_same_trans [OF wrr_same_trans [OF u p(2)] wrr_same_set_curr] .
  then show ?thesis
    using p(1) assms(1) wrr_same_inv [OF keep] wrr_same_nr_cpus [OF keep] Reschedule
    by (simp add: wrr_class_m_def)
qed

interpretation mlfq_runs: safe_class "wrr_class_m E" mlfq_inv for E
  by unfold_locales (rule mlfq_event)

text \<open>C20: No run of the RMLFQ class crashes, whatever the random draws. From the freshly
  initialised machine every sequence of wake-ups, sleeps, yields, ticks and reschedules keeps
  the invariant; in particular every queued task's priority stays within 0..99 although each
  requeue may change it by ten, and every event the protocol allows returns.\<close>

theorem mlfq_run_safe:
  assumes "(class_step (wrr_class_m E))\<^sup>*\<^sup>* ((machine n)\<lparr>tasks := T\<rparr>) s"
  shows "mlfq_inv s \<and> (\<forall>ev. class_enabled ev s \<longrightarrow> class_exec (wrr_class_m E) ev s \<noteq> None) \<and>
    (\<forall>p. linked (Se_of_task p) (wrr_list s) \<longrightarrow> rt_priority (tasks s p) < 100)"
proof -
  have inv: "mlfq_inv s" and ev: "\<forall>ev. class_enabled ev s \<longrightarrow> class_exec (wrr_class_m E) ev s \<noteq> None"
    using mlfq_runs.run_safe [OF assms] by simp_all
  have "rt_priority (tasks s p) < 100" if linked: "linked (Se_of_task p) (wrr_list s)" for p
  proof -
    obtain i where "Se_of_task p \<in> set (items (wrr_list s) (Rq_of_cpu (task_cpu s p), i))"
      using linked_level [OF inv linked refl] .
    from queued_wrr_fits [OF inv this] have "mlfq_level (rt_priority (tasks s p)) = int i" "i < 100"
      by simp_all
    then have "rt_priority (tasks s p) = word_of_nat (99 - i)" by (rule mlfq_level_prio)
    then show ?thesis by (simp add: word_less_nat_alt unat_of_nat)
  qed
  then show ?thesis using inv ev by blast
qed

theorem mlfq_run_safe_witness:
  "\<exists>s. class_step (wrr_class_m sample_env) sample s \<and> mlfq_inv s"
proof -
  have en: "class_enabled (Wake 0 2 0) sample"
    by (simp add: task_cpu_def not_linked_iff klist_empty_def)
  then obtain s where "class_exec (wrr_class_m sample_env) (Wake 0 2 0) sample = Some s"
    using mlfq_event [of sample] by fastforce
  with en have step: "class_step (wrr_class_m sample_env) sample s" by (rule class_event)
  then have run: "(class_step (wrr_class_m sample_env))\<^sup>*\<^sup>* ((machine 1)\<lparr>tasks := sample_task\<rparr>) s"
    unfolding sample_def by (rule r_into_rtranclp)
  then show ?thesis using mlfq_run_safe [OF run] step by blast
qed

section \<open>Requeueing\<close>

text \<open>C21: Requeueing a queued task takes it off its level and puts it at the requested end of the
  level the draw selects: ten levels down, ten up, or the same one, never outside 0..99. The
  set of queued tasks and their number stay the same, and the task's rt_priority becomes that
  of its new level.\<close>

theorem requeue_task_wrr_m_correct:
  fixes E :: env
  assumes "mlfq_inv s" "Se_of_task p \<in> set (items (wrr_list s) (Rq_of_cpu c, i))"
  defines "j \<equiv> next_level (random_bytes E (rand_pos s)) (p_times (tasks s p)) i"
  shows "\<exists>s'. requeue_task_wrr_m E c p head s = Some s' \<and> mlfq_inv s' \<and>
    wrr_view c s' = pa_enq j (Se_of_task p) head (pa_deq i (Se_of_task p) (wrr_view c s)) \<and>
    pa_members (wrr_view c s') = pa_members (wrr_view c s) \<and> pn (wrr_view c s') = pn (wrr_view c s) \<and>
    j < LEVELS \<and> j \<in> {i - 10, i, i + 10} \<and> mlfq_level (rt_priority (tasks s' p)) = int j"
proof -
  have fit: "wrr_fits mlfq_level c (Se_of_task p) i s" using assms(1,2) by (rule queued_wrr_fits)
  then have ok: "pa_ok (wrr_view c s)" and i: "i < LEVELS" using wrr_invD(5) [OF assms(1)] by simp_all
  have mem: "Se_of_task p \<in> set (pq (wrr_view c s) i)" using assms(2) by simp
  have j: "j < LEVELS" unfolding j_def using i by (rule next_level_bound)
  obtain s' where s': "requeue_task_wrr_m E c p head s = Some s'" "mlfq_inv s'"
    "wrr_view c s' = pa_enq j (Se_of_task p) head (pa_deq i (Se_of_task p) (wrr_view c s))"
    using requeue_task_wrr_m_refines [OF assms(1,2), of E head] unfolding j_def by blast
  have "pn (wrr_view c s) \<noteq> 0"
    using pa_ok_count [OF ok] mem i by (auto intro!: bexI [of _ i])
  then have n: "pn (wrr_view c s') = pn (wrr_view c s)"
    by (simp add: s'(3) pa_enq_def pa_deq_def del: wrr_view_simps)
  have members: "pa_members (wrr_view c s') = pa_members (wrr_view c s)"
    using pa_members_enq [OF pa_ok_deq [OF ok mem] j] pa_members_deq [OF ok mem]
      pa_members_iff [OF ok, of "Se_of_task p"] mem
    by (auto simp: s'(3) simp del: wrr_view_simps)
  have "Se_of_task p \<in> set (pq (wrr_view c s') j)" by (simp add: s'(3) pa_enq_def del: wrr_view_simps)
  then have "mlfq_level (rt_priority (tasks s' p)) = int j"
    using queued_wrr_fits [OF s'(2), of "Se_of_task p" c j] by simp
  moreover have "j \<in> {i - 10, i, i + 10}" by (auto simp: j_def next_level_def)
  ultimately show ?thesis using s' n members j by blast
qed

theorem requeue_task_wrr_m_correct_witness:
  "\<exists>s'. requeue_task_wrr_m sample_env 0 2 False mlfq_sample = Some s' \<and> mlfq_inv s'"
  using requeue_task_wrr_m_correct [of mlfq_sample 2 0 49 sample_env False] by auto

text \<open>Multiplying by 4294967295 is negation in 32 bits.\<close>

lemma stage_share_eq:
  assumes "x \<noteq> 0"
  shows "unat (stage_share x) = (2 ^ 32 - unat x) div 10"
proof -
  have m: "UNSIGNED_MAX = - 1" by (simp add: UNSIGNED_MAX_def)
  have "x * UNSIGNED_MAX = - x" unfolding m by simp
  moreover have "unat (0 - x) = 2 ^ 32 - unat x"
    using assms by (simp only: unat_sub_if' word_size) (simp add: unat_eq_zero)
  ultimately show ?thesis by (simp add: stage_share_def unat_div)
qed

lemma stage_share_small:
  assumes "1 \<le> unat x" "unat x \<le> 9"
  shows "unat (stage_share x) \<in> {429496728, 429496729}"
proof -
  have "x \<noteq> 0" using assms(1) by auto
  then show ?thesis using assms by (auto simp: stage_share_eq)
qed

lemma stage_draw:
  assumes tm: "1 \<le> unat tm" "unat tm \<le> 5" and i: "i < 100"
    and r: "unat r \<notin> {429496728, 429496729}"
  shows "stage_down r tm i \<longleftrightarrow> unat r < 429496728" "\<not> stage_down r tm i \<Longrightarrow> stage_up r tm i"
proof -
  have w: "unat (word_of_nat (i div 20) :: u32) = i div 20" using i by (simp add: unat_of_nat)
  have x: "unat (tm + word_of_nat (i div 20)) = unat tm + i div 20"
    using tm i w by (simp add: unat_word_ariths)
  have y: "unat (5 - tm + word_of_nat (i div 20)) = 5 - unat tm + i div 20"
    using tm i w by (simp add: unat_word_ariths unat_sub_if')
  have down: "unat (stage_share (tm + word_of_nat (i div 20))) \<in> {429496728, 429496729}"
    using tm i by (intro stage_share_small) (simp_all add: x)
  then show d: "stage_down r tm i \<longleftrightarrow> unat r < 429496728"
    using r by (auto simp: stage_down_def word_less_nat_alt)
  have "unat (stage_share (5 - tm + word_of_nat (i div 20))) \<le> 429496729"
  proof (cases "5 - unat tm + i div 20 = 0")
    case True
    then have "5 - tm + word_of_nat (i div 20) = 0" using y by (simp add: unat_eq_zero)
    then show ?thesis by (simp add: stage_share_def)
  next
    case False
    then have "unat (stage_share (5 - tm + word_of_nat (i div 20))) \<in> {429496728, 429496729}"
      using tm i by (intro stage_share_small) (simp_all add: y)
    then show ?thesis by auto
  qed
  then show "stage_up r tm i" if "\<not> stage_down r tm i"
    using that r unfolding d stage_up_def [of r] by (auto simp: word_less_nat_alt)
qed

text \<open>C22: The draw does not do what the code writes. The factor p->times + prio/20 is meant to
  make a move to the lower stage more likely the longer a task has stayed, but its product
  with 4294967295 wraps in 32 bits, so the threshold is 429496728 or 429496729 whatever the
  factor: with p->times between 1 and 5, all draws but those two numbers send the task down
  (below them) or up (above them), whatever its times and level, and p->times is reset to 1.\<close>

theorem requeue_draw_ignores_times:
  assumes "mlfq_inv s" "Se_of_task p \<in> set (items (wrr_list s) (Rq_of_cpu c, i))"
    "1 \<le> unat (p_times (tasks s p))" "unat (p_times (tasks s p)) \<le> 5"
    "unat (random_bytes E (rand_pos s)) \<notin> {429496728, 429496729}"
  shows "\<exists>s'. requeue_task_wrr_m E c p head s = Some s' \<and> p_times (tasks s' p) = 1 \<and>
    mlfq_level (rt_priority (tasks s' p)) =
      (if unat (random_bytes E (rand_pos s)) < 429496728 then (if i > 9 then int i - 10 else int i)
       else (if i < 90 then int i + 10 else int i))"
proof -
  let ?r = "random_bytes E (rand_pos s)" and ?t = "p_times (tasks s p)"
  let ?s0 = "upd_task p (\<lambda>t. t\<lparr>p_times := next_times ?r ?t i\<rparr>) (s\<lparr>rand_pos := rand_pos s + 1\<rparr>)"
  have lv: "mlfq_level (rt_priority (tasks s p)) = int i" and i: "i < LEVELS"
    using queued_wrr_fits [OF assms(1,2)] by simp_all
  note draw = stage_draw [OF assms(3,4) i assms(5)]
  have t: "next_times ?r ?t i = 1" using draw by (auto simp: next_times_def)
  have j: "int (next_level ?r ?t i) = (if unat ?r < 429496728 then (if i > 9 then int i - 10 else int i)
       else (if i < 90 then int i + 10 else int i))"
    using draw by (auto simp: next_level_def)
  have eq: "requeue_task_wrr_m E c p head s = Some (q_stage c i (next_level ?r ?t i) p head ?s0)"
    using requeue_task_wrr_m_eq [OF assms(1,2)] .
  have "mlfq_level (rt_priority (tasks (q_stage c i k p head ?s0) p)) = int k \<and>
      p_times (tasks (q_stage c i k p head ?s0) p) = next_times ?r ?t i" if "k < LEVELS" for k
    using mlfq_level_of_nat [OF that] lv by (simp add: q_stage_def q_shift_def Let_def)
  from this [OF next_level_bound [OF i]] show ?thesis using eq t j by simp
qed

definition mlfq_sample1 :: kst where
  "mlfq_sample1 = (upd_task 2 (\<lambda>t. t\<lparr>p_times := 4\<rparr>) mlfq_sample)\<lparr>rand_pos := 0\<rparr>"

theorem requeue_draw_ignores_times_witness:
  "\<exists>s'. requeue_task_wrr_m sample_env 0 2 False mlfq_sample1 = Some s' \<and> p_times (tasks s' 2) = 1 \<and>
     mlfq_level (rt_priority (tasks s' 2)) = 39"
proof -
  have same: "wrr_same mlfq_sample mlfq_sample1"
    by (simp add: mlfq_sample1_def wrr_same_def task_cpu_def)
  have "mlfq_inv mlfq_sample1" using wrr_same_inv [OF same] by simp
  then show ?thesis
    using requeue_draw_ignores_times [of mlfq_sample1 2 0 49 sample_env False]
    by (simp add: mlfq_sample1_def sample_env_def)
qed

section \<open>Preemption and time slices\<close>

text \<open>In the RMLFQ class preemption agrees with picking: when the woken task is the one the
  scheduler would pick next and its level is lower than that of the queued current task, the
  check asks the current task to reschedule; when the levels are equal it does nothing.\<close>

theorem check_preempt_m_agrees:
  assumes "mlfq_inv s" "c < nr_cpus s" "pa_pick (wrr_view c s) = Some (Se_of_task p)"
    "Se_of_task (curr (rqs s c)) \<in> set (items (wrr_list s) (Rq_of_cpu c, k))"
    "Se_of_task p \<in> set (items (wrr_list s) (Rq_of_cpu c, i))"
  shows "if i = k then check_preempt_curr_wrr_m E c p flags s = s
         else ti_need_resched (tasks (check_preempt_curr_wrr_m E c p flags s) (curr (rqs s c)))"
proof -
  let ?c = "curr (rqs s c)"
  have "wrr_task_prio s p = int i" "wrr_task_prio s ?c = int k"
    using queued_wrr_fits [OF assms(1,4)] queued_wrr_fits [OF assms(1,5)]
    by (simp_all add: wrr_task_prio_level)
  moreover have "int i \<le> int k"
    using picked_level_le [OF assms(1-4)] calculation by (simp add: wrr_task_prio_level)
  ultimately show ?thesis
    by (auto simp: check_preempt_curr_wrr_m_def resched_task_def test_tsk_need_resched_def
        set_tsk_need_resched_def ext_def Let_def)
qed

theorem check_preempt_m_agrees_witness:
  "check_preempt_curr_wrr_m sample_env 0 2 0 mlfq_sample = mlfq_sample"
proof -
  have "pa_pick (wrr_view 0 mlfq_sample) = Some (Se_of_task 2)"
    using wrr_invD(5) [OF mlfq_sample_inv, of 0]
    by (intro pa_pick_eqI [of _ 49 _ "[Se_of_task 3]"]) auto
  then show ?thesis using check_preempt_m_agrees [of mlfq_sample 0 2 49 49 sample_env 0] by simp
qed

text \<open>C23: When the slice of a queued RMLFQ task runs out at the tick, the task is told to
  reschedule, is requeued by the draw, and gets a new slice: for a foreground group the
  foreground slice times the number of its stage (1 to 10) before the move, for a background
  group the background slice.\<close>

theorem task_tick_wrr_m_expiry:
  fixes E :: env
  assumes "mlfq_inv s" "policy (tasks s p) = SCHED_WRR" "wrr_time_slice (wrr (tasks s p)) = 1"
    "Se_of_task p \<in> set (items (wrr_list s) (Rq_of_cpu c, i))"
  defines "j \<equiv> next_level (random_bytes E (rand_pos s)) (p_times (tasks s p)) i"
    and "back \<equiv> group_path (task_group_path E (sched_task_group (tasks s p)) s) 1 = CHR ''b''"
  shows "\<exists>s'. task_tick_wrr_m E c p queued s = Some s' \<and> mlfq_inv s' \<and> ti_need_resched (tasks s' p) \<and>
    wrr_view c s' = pa_enq j (Se_of_task p) False (pa_deq i (Se_of_task p) (wrr_view c s)) \<and>
    wrr_time_slice (wrr (tasks s' p)) =
      (if back then WRR_BACK_TIMESLICE (HZ E) else WRR_FORE_TIMESLICE (HZ E) * word_of_nat (i div 10 + 1))"
proof -
  let ?s1 = "upd_task p (\<lambda>t. t\<lparr>wrr := (wrr t)\<lparr>wrr_time_slice := wrr_time_slice (wrr t) - 1\<rparr>\<rparr>)
      (update_curr_wrr E c s)"
  let ?s2 = "task_group_path E (sched_task_group (tasks s p)) ?s1"
  let ?sl = "if back then WRR_BACK_TIMESLICE (HZ E)
             else WRR_FORE_TIMESLICE (HZ E) * word_of_nat (i div 10 + 1)"
  let ?s3 = "set_tsk_need_resched p (upd_task p (\<lambda>t. t\<lparr>wrr := (wrr t)\<lparr>wrr_time_slice := ?sl\<rparr>\<rparr>) ?s2)"
  have lv: "mlfq_level (rt_priority (tasks s p)) = int i"
    using queued_wrr_fits [OF assms(1,4)] by simp
  have gp: "group_path ?s2 = group_path (task_group_path E (sched_task_group (tasks s p)) s)"
    by (rule group_path_task_group_path) simp_all
  have stage: "word_of_int (int i sdiv 10 + 1) = (word_of_nat (i div 10 + 1) :: u32)"
  proof -
    have "int i div 10 = int (i div 10)" by simp
    then show ?thesis by (simp add: signed_divide_int_def del: of_nat_div)
  qed
  have same: "wrr_same s ?s3" by (simp add: wrr_same_def task_cpu_def set_tsk_need_resched_def)
  have inv: "mlfq_inv ?s3" using assms(1) wrr_same_inv [OF same] by simp
  have mem: "Se_of_task p \<in> set (items (wrr_list ?s3) (Rq_of_cpu c, i))"
    using assms(4) by (simp add: set_tsk_need_resched_def)
  have rnd: "rand_pos ?s3 = rand_pos s" "p_times (tasks ?s3 p) = p_times (tasks s p)"
    by (simp_all add: set_tsk_need_resched_def task_group_path_def update_curr_wrr_def Let_def
        cpuacct_charge_def ext_def split: prod.split)
  let ?s4 = "upd_task p (\<lambda>t. t\<lparr>p_times := next_times (random_bytes E (rand_pos s)) (p_times (tasks s p)) i\<rparr>)
      (?s3\<lparr>rand_pos := rand_pos s + 1\<rparr>)"
  have "task_tick_wrr_m E c p queued s = requeue_task_wrr_m E c p False ?s3"
    using assms(2,3) gp stage lv by (simp add: task_tick_wrr_m_def wrr_task_prio_level back_def Let_def add.commute)
  also have "\<dots> = Some (q_stage c i j p False ?s4)"
    using requeue_task_wrr_m_eq [OF inv mem, of E False] unfolding rnd j_def .
  finally have run: "task_tick_wrr_m E c p queued s = Some (q_stage c i j p False ?s4)" .
  have same4: "wrr_same s ?s4" using wrr_same_trans [OF same wrr_same_draw] .
  have inv4: "mlfq_inv ?s4" using assms(1) wrr_same_inv [OF same4] by simp
  have mem4: "Se_of_task p \<in> set (items (wrr_list ?s4) (Rq_of_cpu c, i))" using mem by simp
  have j: "j < LEVELS"
    unfolding j_def using wrr_fits_bounds [OF queued_wrr_fits [OF assms(1,4)]] by (intro next_level_bound) simp
  have "ti_need_resched (tasks (q_stage c i j p False ?s4) p)"
    "wrr_time_slice (wrr (tasks (q_stage c i j p False ?s4) p)) = ?sl"
    by (simp_all add: q_stage_def q_shift_def set_tsk_need_resched_def Let_def)
  then show ?thesis
    using run wrr_inv_q_stage [OF inv4 mem4 j, where head = False] wrr_same_view [OF same4, of c] by simp
qed

definition mlfq_sample2 :: kst where
  "mlfq_sample2 = mlfq_sample\<lparr>group_path := (\<lambda>_. CHR 0x00), task_groups := (\<lambda>_. zero_task_group)\<rparr>"

theorem task_tick_wrr_m_expiry_witness:
  "\<exists>s'. task_tick_wrr_m sample_env 0 2 False mlfq_sample2 = Some s' \<and>
     wrr_time_slice (wrr (tasks s' 2)) = 50"
proof -
  have "wrr_same mlfq_sample mlfq_sample2" by (simp add: mlfq_sample2_def wrr_same_def task_cpu_def)
  from wrr_same_inv [OF this] have "mlfq_inv mlfq_sample2" by simp
  moreover have "group_path (task_group_path sample_env 0 mlfq_sample2) 1 \<noteq> CHR ''b''"
    by (simp add: task_group_path_def sample_env_def mlfq_sample2_def zero_task_group_def)
  ultimately show ?thesis
    using task_tick_wrr_m_expiry [of mlfq_sample2 2 0 49 sample_env False]
    by (auto simp: mlfq_sample2_def WRR_FORE_TIMESLICE_def sample_env_def)
qed

end
