(* ===== verification/Wrr_Group.thy ===== *)
theory Wrr_Group
  imports Wrr_Basic
begin

text \<open>
  Bonus/RevisedWRR/wrr_group.c: the group variant, with task groups as entities of the queues.
  Its functions carry the suffix \<open>_g\<close> (the C names that start with underscores end in \<open>1\<close>).
\<close>

section \<open>Groups, entities and run-queues\<close>

definition task_group_path_g :: "env \<Rightarrow> tgid \<Rightarrow> kst \<Rightarrow> kst" where
  "task_group_path_g E tg s =
     (let (done, buf) = autogroup_path E tg (group_path s); s = s\<lparr>group_path := buf\<rparr> in
      if done then s
      else if \<not> css_cgroup (task_groups s tg) then
        s\<lparr>group_path := (group_path s)(0 := CHR 0x00)\<rparr>
      else s\<lparr>group_path := cgroup_path E tg (group_path s)\<rparr>)"

text \<open>
  \<open>on_wrr_rq\<close>: \<open>run_list\<close> is linked. \<open>wrr_entity_is_task\<close>: the entity owns no run-queue.
  \<open>container_of\<close> on a group's entity points outside any task: nothing can be read there.
\<close>

definition on_wrr_rq :: "kst \<Rightarrow> se_ref \<Rightarrow> bool" where
  "on_wrr_rq s wrr_se \<longleftrightarrow> linked wrr_se (wrr_list s)"

definition wrr_entity_is_task :: "kst \<Rightarrow> se_ref \<Rightarrow> bool" where
  "wrr_entity_is_task s wrr_se \<longleftrightarrow> wrr_my_q (get_wrr_se s wrr_se) = None"

definition wrr_task_of_g :: "se_ref \<Rightarrow> tid option" where
  "wrr_task_of_g wrr_se = (case wrr_se of Se_of_task p \<Rightarrow> Some p | Se_of_group _ _ \<Rightarrow> None)"

definition rq_of_wrr_rq_g :: "kst \<Rightarrow> rq_ref \<Rightarrow> cpu option" where
  "rq_of_wrr_rq_g s q = wrr_rq_rq (wrr_rqs s q)"

text \<open>
  \<open>struct rq *rq = task_rq(rq)\<close> reads the uninitialised \<open>rq\<close> instead of the task: the CPU it
  yields, if it yields one, has nothing to do with the entity. It is the environment's.
\<close>

definition wrr_rq_of_se_g :: "env \<Rightarrow> kst \<Rightarrow> se_ref \<Rightarrow> rq_ref option" where
  "wrr_rq_of_se_g E s wrr_se = do {
     c \<leftarrow> uninit_rq E;
     Some (Rq_of_cpu c)
   }"

definition group_wrr_rq :: "kst \<Rightarrow> se_ref \<Rightarrow> rq_ref option" where
  "group_wrr_rq s wrr_se = wrr_my_q (get_wrr_se s wrr_se)"

definition wrr_se_prio_g :: "kst \<Rightarrow> se_ref \<Rightarrow> int option" where
  "wrr_se_prio_g s wrr_se = do {
     p \<leftarrow> wrr_task_of_g wrr_se;
     Some (sint (rt_priority (tasks s p)))
   }"

definition update_curr_wrr_g :: "env \<Rightarrow> cpu \<Rightarrow> kst \<Rightarrow> kst" where
  "update_curr_wrr_g E c s =
     (let p = curr (rqs s c) in
      if task_class (tasks s p) \<noteq> wrr_sched_class then s
      else
        let delta_exec = clock_task (rqs s c) - exec_start (se (tasks s p));
            delta_exec = (if sint delta_exec < 0 then 0 else delta_exec);
            s = upd_task p (\<lambda>t. t\<lparr>se := (se t)\<lparr>exec_max := max (exec_max (se t)) delta_exec\<rparr>\<rparr>) s;
            s = upd_task p (\<lambda>t. t\<lparr>se := (se t)\<lparr>sum_exec_runtime :=
                                  sum_exec_runtime (se t) + delta_exec\<rparr>\<rparr>) s;
            s = ext (Account_group_exec_runtime p delta_exec) s;
            s = upd_task p (\<lambda>t. t\<lparr>se := (se t)\<lparr>exec_start := clock_task (rqs s c)\<rparr>\<rparr>) s
        in cpuacct_charge E p delta_exec s)"

definition list_del_leaf_wrr_rq_g :: "rq_ref \<Rightarrow> kst \<Rightarrow> kst option" where
  "list_del_leaf_wrr_rq_g q s = do {
     F \<leftarrow> list_del_rcu q (leaf_wrr s);
     Some (s\<lparr>leaf_wrr := F\<rparr>)
   }"

definition list_add_leaf_wrr_rq_g :: "rq_ref \<Rightarrow> kst \<Rightarrow> kst option" where
  "list_add_leaf_wrr_rq_g q s = do {
     c \<leftarrow> rq_of_wrr_rq_g s q;
     F \<leftarrow> list_add q c (leaf_wrr s);
     Some (s\<lparr>leaf_wrr := F\<rparr>)
   }"

section \<open>Priorities in use\<close>

definition inc_wrr_prio :: "rq_ref \<Rightarrow> int \<Rightarrow> kst \<Rightarrow> kst" where
  "inc_wrr_prio q pr s =
     (let prev_prio = wrr_highest_curr (wrr_rqs s q) in
      if pr < prev_prio then upd_wrr_rq q (\<lambda>r. r\<lparr>wrr_highest_curr := pr\<rparr>) s else s)"

definition dec_wrr_prio :: "rq_ref \<Rightarrow> int \<Rightarrow> kst \<Rightarrow> kst" where
  "dec_wrr_prio q pr s =
     (let prev_prio = wrr_highest_curr (wrr_rqs s q) in
      if wrr_nr_running (wrr_rqs s q) \<noteq> 0 then
        if pr = prev_prio then
          upd_wrr_rq q (\<lambda>r. r\<lparr>wrr_highest_curr :=
            int (find_next_bit (wrr_bitmap r) (nat MAX_WRR_PRIO + 1) 0)\<rparr>) s
        else s
      else upd_wrr_rq q (\<lambda>r. r\<lparr>wrr_highest_curr := MAX_WRR_PRIO\<rparr>) s)"

definition inc_wrr_tasks :: "se_ref \<Rightarrow> rq_ref \<Rightarrow> kst \<Rightarrow> kst option" where
  "inc_wrr_tasks wrr_se q s = do {
     prio \<leftarrow> wrr_se_prio_g s wrr_se;
     let s = upd_wrr_rq q (\<lambda>r. r\<lparr>wrr_nr_running := wrr_nr_running r + 1\<rparr>) s;
     Some (inc_wrr_prio q prio s)
   }"

definition dec_wrr_tasks :: "se_ref \<Rightarrow> rq_ref \<Rightarrow> kst \<Rightarrow> kst option" where
  "dec_wrr_tasks wrr_se q s = do {
     let s = upd_wrr_rq q (\<lambda>r. r\<lparr>wrr_nr_running := wrr_nr_running r - 1\<rparr>) s;
     prio \<leftarrow> wrr_se_prio_g s wrr_se;
     Some (dec_wrr_prio q prio s)
   }"

section \<open>Entities on and off their queue\<close>

definition dequeue_wrr_entity1 :: "env \<Rightarrow> se_ref \<Rightarrow> kst \<Rightarrow> kst option" where
  "dequeue_wrr_entity1 E wrr_se s = do {
     q \<leftarrow> wrr_rq_of_se_g E s wrr_se;
     let s = s\<lparr>wrr_list := list_del_init wrr_se (wrr_list s)\<rparr>;
     prio \<leftarrow> wrr_se_prio_g s wrr_se;
     queue \<leftarrow> array_queue q prio;
     let s = (if head_empty queue (wrr_list s) then upd_wrr_rq q (clear_wrr_bit (nat prio)) s else s);
     s \<leftarrow> dec_wrr_tasks wrr_se q s;
     if wrr_nr_running (wrr_rqs s q) = 0 then list_del_leaf_wrr_rq_g q s else Some s
   }"

definition enqueue_wrr_entity1 :: "env \<Rightarrow> se_ref \<Rightarrow> bool \<Rightarrow> kst \<Rightarrow> kst option" where
  "enqueue_wrr_entity1 E wrr_se head s = do {
     q \<leftarrow> wrr_rq_of_se_g E s wrr_se;
     let group_rq = group_wrr_rq s wrr_se;
     prio \<leftarrow> wrr_se_prio_g s wrr_se;
     queue \<leftarrow> array_queue q prio;
     if (case group_rq of None \<Rightarrow> False | Some g \<Rightarrow> wrr_nr_running (wrr_rqs s g) = 0) then Some s
     else do {
       s \<leftarrow> (if wrr_nr_running (wrr_rqs s q) = 0 then list_add_leaf_wrr_rq_g q s else Some s);
       L \<leftarrow> (if head then list_add wrr_se queue (wrr_list s)
            else list_add_tail wrr_se queue (wrr_list s));
       let s = s\<lparr>wrr_list := L\<rparr>;
       let s = upd_wrr_rq q (set_wrr_bit (nat prio)) s;
       inc_wrr_tasks wrr_se q s
     }
   }"

text \<open>
  The loops over \<open>for_each_sched_wrr_entity\<close> follow \<open>parent\<close> (and \<open>back\<close>) pointers, which
  nothing bounds: a loop that does not end has the value \<open>None\<close>, as a crash has.
  \<open>set_back\<close> is the first loop of \<open>dequeue_wrr_stack\<close>: it returns the topmost entity.
\<close>

partial_function (option) set_back ::
  "se_ref option \<Rightarrow> se_ref option \<Rightarrow> kst \<Rightarrow> (se_ref option \<times> kst) option" where
  "set_back wrr_se back s = (case wrr_se of
      None \<Rightarrow> Some (back, s)
    | Some e \<Rightarrow> set_back (wrr_parent (get_wrr_se s e)) (Some e)
                 (upd_wrr_se e (\<lambda>w. w\<lparr>wrr_back := back\<rparr>) s))"

partial_function (option) dequeue_back :: "env \<Rightarrow> se_ref option \<Rightarrow> kst \<Rightarrow> kst option" where
  "dequeue_back E wrr_se s = (case wrr_se of
      None \<Rightarrow> Some s
    | Some e \<Rightarrow> Option.bind (if on_wrr_rq s e then dequeue_wrr_entity1 E e s else Some s)
                 (\<lambda>s. dequeue_back E (wrr_back (get_wrr_se s e)) s))"

definition dequeue_wrr_stack :: "env \<Rightarrow> se_ref \<Rightarrow> kst \<Rightarrow> kst option" where
  "dequeue_wrr_stack E wrr_se s = do {
     (back, s) \<leftarrow> set_back (Some wrr_se) None s;
     dequeue_back E back s
   }"

partial_function (option) requeue_groups :: "env \<Rightarrow> se_ref option \<Rightarrow> kst \<Rightarrow> kst option" where
  "requeue_groups E wrr_se s = (case wrr_se of
      None \<Rightarrow> Some s
    | Some e \<Rightarrow> Option.bind
        (case group_wrr_rq s e of
           None \<Rightarrow> Some s
         | Some g \<Rightarrow> if wrr_nr_running (wrr_rqs s g) \<noteq> 0 then enqueue_wrr_entity1 E e False s else Some s)
        (\<lambda>s. requeue_groups E (wrr_parent (get_wrr_se s e)) s))"

definition dequeue_wrr_entity_g :: "env \<Rightarrow> se_ref \<Rightarrow> kst \<Rightarrow> kst option" where
  "dequeue_wrr_entity_g E wrr_se s = do {
     s \<leftarrow> dequeue_wrr_stack E wrr_se s;
     requeue_groups E (Some wrr_se) s
   }"

definition dequeue_task_wrr_g :: "env \<Rightarrow> cpu \<Rightarrow> tid \<Rightarrow> u32 \<Rightarrow> kst \<Rightarrow> kst option" where
  "dequeue_task_wrr_g E c p flags s = do {
     let s = update_curr_wrr_g E c s;
     s \<leftarrow> dequeue_wrr_entity_g E (Se_of_task p) s;
     Some (dec_nr_running c s)
   }"

partial_function (option) enqueue_chain :: "env \<Rightarrow> se_ref option \<Rightarrow> bool \<Rightarrow> kst \<Rightarrow> kst option" where
  "enqueue_chain E wrr_se head s = (case wrr_se of
      None \<Rightarrow> Some s
    | Some e \<Rightarrow> Option.bind (enqueue_wrr_entity1 E e head s)
                 (\<lambda>s. enqueue_chain E (wrr_parent (get_wrr_se s e)) head s))"

definition enqueue_wrr_entity_g :: "env \<Rightarrow> se_ref \<Rightarrow> bool \<Rightarrow> kst \<Rightarrow> kst option" where
  "enqueue_wrr_entity_g E wrr_se head s = do {
     s \<leftarrow> dequeue_wrr_stack E wrr_se s;
     enqueue_chain E (Some wrr_se) head s
   }"

definition enqueue_task_wrr_g :: "env \<Rightarrow> cpu \<Rightarrow> tid \<Rightarrow> u32 \<Rightarrow> kst \<Rightarrow> kst option" where
  "enqueue_task_wrr_g E c p flags s = do {
     s \<leftarrow> enqueue_wrr_entity_g E (Se_of_task p) (flags AND ENQUEUE_HEAD \<noteq> 0) s;
     Some (inc_nr_running c s)
   }"

definition requeue_wrr_entity :: "rq_ref \<Rightarrow> se_ref \<Rightarrow> bool \<Rightarrow> kst \<Rightarrow> kst option" where
  "requeue_wrr_entity q wrr_se head s =
     (if on_wrr_rq s wrr_se then do {
        prio \<leftarrow> wrr_se_prio_g s wrr_se;
        queue \<leftarrow> array_queue q prio;
        L \<leftarrow> (if head then list_move wrr_se queue (wrr_list s)
             else list_move_tail wrr_se queue (wrr_list s));
        Some (s\<lparr>wrr_list := L\<rparr>)
      } else Some s)"

partial_function (option) requeue_chain :: "env \<Rightarrow> se_ref option \<Rightarrow> bool \<Rightarrow> kst \<Rightarrow> kst option" where
  "requeue_chain E wrr_se head s = (case wrr_se of
      None \<Rightarrow> Some s
    | Some e \<Rightarrow> Option.bind (wrr_rq_of_se_g E s e)
        (\<lambda>q. Option.bind (requeue_wrr_entity q e head s)
           (\<lambda>s. requeue_chain E (wrr_parent (get_wrr_se s e)) head s)))"

definition requeue_task_wrr_g :: "env \<Rightarrow> cpu \<Rightarrow> tid \<Rightarrow> bool \<Rightarrow> kst \<Rightarrow> kst option" where
  "requeue_task_wrr_g E c p head s = requeue_chain E (Some (Se_of_task p)) head s"

definition yield_task_wrr_g :: "env \<Rightarrow> cpu \<Rightarrow> kst \<Rightarrow> kst option" where
  "yield_task_wrr_g E c s = requeue_task_wrr_g E c (curr (rqs s c)) False s"

definition check_preempt_curr_wrr_g :: "env \<Rightarrow> cpu \<Rightarrow> tid \<Rightarrow> u32 \<Rightarrow> kst \<Rightarrow> kst" where
  "check_preempt_curr_wrr_g E c p flags s =
     (if rt_priority (tasks s (curr (rqs s c))) < rt_priority (tasks s p)
      then resched_task E (curr (rqs s c)) s
      else s)"

definition pick_next_wrr_entity :: "rq_ref \<Rightarrow> kst \<Rightarrow> se_ref option" where
  "pick_next_wrr_entity q s = do {
     let idx = find_next_bit (wrr_bitmap (wrr_rqs s q)) (nat MAX_WRR_PRIO + 1) 0;
     _ \<leftarrow> BUG_ON (int idx \<ge> MAX_WRR_PRIO);
     queue \<leftarrow> array_queue q (int idx);
     first_entry queue (wrr_list s)
   }"

text \<open>The \<open>do ... while (wrr_rq)\<close> loop descends to a task's entity.\<close>

partial_function (option) pick_descend :: "rq_ref \<Rightarrow> kst \<Rightarrow> se_ref option" where
  "pick_descend q s = Option.bind (pick_next_wrr_entity q s)
     (\<lambda>e. case group_wrr_rq s e of None \<Rightarrow> Some e | Some g \<Rightarrow> pick_descend g s)"

definition pick_next_task_wrr1 :: "cpu \<Rightarrow> kst \<Rightarrow> (tid option \<times> kst) option" where
  "pick_next_task_wrr1 c s =
     (if wrr_nr_running (wrr_rqs s (Rq_of_cpu c)) = 0 then Some (None, s)
      else do {
        wrr_se \<leftarrow> pick_descend (Rq_of_cpu c) s;
        p \<leftarrow> wrr_task_of_g wrr_se;
        Some (Some p, upd_task p (\<lambda>t. t\<lparr>se := (se t)\<lparr>exec_start := clock_task (rqs s c)\<rparr>\<rparr>) s)
      })"

definition pick_next_task_wrr_g :: "cpu \<Rightarrow> kst \<Rightarrow> (tid option \<times> kst) option" where
  "pick_next_task_wrr_g c s = pick_next_task_wrr1 c s"

definition put_prev_task_wrr_g :: "env \<Rightarrow> cpu \<Rightarrow> tid \<Rightarrow> kst \<Rightarrow> kst" where
  "put_prev_task_wrr_g E c p s = update_curr_wrr_g E c s"

definition set_curr_task_wrr_g :: "cpu \<Rightarrow> kst \<Rightarrow> kst" where
  "set_curr_task_wrr_g c s =
     upd_task (curr (rqs s c)) (\<lambda>t. t\<lparr>se := (se t)\<lparr>exec_start := clock_task (rqs s c)\<rparr>\<rparr>) s"

partial_function (option) tick_chain :: "env \<Rightarrow> cpu \<Rightarrow> tid \<Rightarrow> se_ref option \<Rightarrow> kst \<Rightarrow> kst option" where
  "tick_chain E c p wrr_se s = (case wrr_se of
      None \<Rightarrow> Some s
    | Some e \<Rightarrow>
        if prev_neq_next e (wrr_list s) then
          Option.bind (requeue_task_wrr_g E c p False s) (\<lambda>s. Some (set_tsk_need_resched p s))
        else tick_chain E c p (wrr_parent (get_wrr_se s e)) s)"

definition task_tick_wrr_g :: "env \<Rightarrow> cpu \<Rightarrow> tid \<Rightarrow> bool \<Rightarrow> kst \<Rightarrow> kst option" where
  "task_tick_wrr_g E c p queued s = do {
     let s = update_curr_wrr_g E c s;
     if policy (tasks s p) \<noteq> SCHED_WRR then Some s
     else do {
       let s = upd_task p (\<lambda>t. t\<lparr>wrr := (wrr t)\<lparr>wrr_time_slice := wrr_time_slice (wrr t) - 1\<rparr>\<rparr>) s;
       if wrr_time_slice (wrr (tasks s p)) \<noteq> 0 then Some s
       else do {
         let s = task_group_path_g E (sched_task_group (tasks s p)) s;
         let slice = (if group_path s 1 \<noteq> CHR ''b'' then WRR_FORE_TIMESLICE (HZ E)
                      else WRR_BACK_TIMESLICE (HZ E));
         let s = upd_task p (\<lambda>t. t\<lparr>wrr := (wrr t)\<lparr>wrr_time_slice := slice\<rparr>\<rparr>) s;
         tick_chain E c p (Some (Se_of_task p)) s
       }
     }
   }"

definition get_rr_interval_wrr_g :: "env \<Rightarrow> cpu \<Rightarrow> tid option \<Rightarrow> kst \<Rightarrow> u32 \<times> kst" where
  "get_rr_interval_wrr_g E c task s =
     (case task of
        None \<Rightarrow> (word_of_int (- EINVAL), s)
      | Some p \<Rightarrow>
          let s = task_group_path_g E (sched_task_group (tasks s p)) s in
          (if group_path s 1 \<noteq> CHR ''b'' then WRR_FORE_TIMESLICE (HZ E)
           else WRR_BACK_TIMESLICE (HZ E), s))"

text \<open>The child inherits the slice of its parent entity, which must exist.\<close>

definition task_fork_wrr_g :: "tid \<Rightarrow> kst \<Rightarrow> kst option" where
  "task_fork_wrr_g p s = do {
     parent \<leftarrow> wrr_parent (wrr (tasks s p));
     Some (upd_task p (\<lambda>t. t\<lparr>wrr := (wrr t)\<lparr>wrr_time_slice := wrr_time_slice (get_wrr_se s parent)\<rparr>\<rparr>) s)
   }"

definition switched_to_wrr_g :: "env \<Rightarrow> cpu \<Rightarrow> tid \<Rightarrow> kst \<Rightarrow> kst" where
  "switched_to_wrr_g E c p s =
     (if on_rq (tasks s p) \<and> curr (rqs s c) \<noteq> p then
        if rt_priority (tasks s (curr (rqs s c))) < rt_priority (tasks s p)
        then resched_task E (curr (rqs s c)) s
        else s
      else s)"

text \<open>
  Freeing releases the two pointer arrays of the group, not the run-queues and entities they
  point to. Allocation asks \<open>kzalloc\<close> four times; \<open>alloc_ok n\<close> says whether the \<open>n\<close>-th call
  succeeds. Only CPU 0 gets a run-queue. An error leaves the arrays allocated.
\<close>

definition free_wrr_sched_group_g :: "tgid \<Rightarrow> kst \<Rightarrow> kst" where
  "free_wrr_sched_group_g tg s =
     s\<lparr>task_groups := (task_groups s)(tg :=
         (task_groups s tg)\<lparr>tg_wrr_rq := (\<lambda>_. None), tg_wrr_se := (\<lambda>_. None)\<rparr>)\<rparr>"

definition alloc_wrr_sched_group_g :: "(nat \<Rightarrow> bool) \<Rightarrow> tgid \<Rightarrow> tgid \<Rightarrow> kst \<Rightarrow> int \<times> kst" where
  "alloc_wrr_sched_group_g alloc_ok tg parent s =
     (if \<not> alloc_ok 0 then (0, s)
      else let s = s\<lparr>task_groups := (task_groups s)(tg := (task_groups s tg)\<lparr>tg_wrr_rq := (\<lambda>_. None)\<rparr>)\<rparr> in
      if \<not> alloc_ok 1 then (0, s)
      else let s = s\<lparr>task_groups := (task_groups s)(tg := (task_groups s tg)\<lparr>tg_wrr_se := (\<lambda>_. None)\<rparr>)\<rparr> in
      if \<not> alloc_ok 2 then (0, s)
      else if \<not> alloc_ok 3 then (0, s)
      else let q = Rq_of_group tg 0; e = Se_of_group tg 0;
               s = s\<lparr>wrr_rqs := (wrr_rqs s)(q := zero_wrr_rq)\<rparr>;
               s = upd_wrr_se e (\<lambda>_. wrr zero_task) s;
               s = init_wrr_rq q s;
               s = init_tg_wrr_entry tg q (Some e) 0 (tg_wrr_se (task_groups s parent) 0) s
           in (1, s))"

definition select_task_rq_wrr_g :: "tid \<Rightarrow> u32 \<Rightarrow> u32 \<Rightarrow> kst \<Rightarrow> cpu option" where
  "select_task_rq_wrr_g p sd_flag flags s = None"

definition set_cpus_allowed_wrr_g :: "tid \<Rightarrow> cpu set \<Rightarrow> kst \<Rightarrow> kst" where
  "set_cpus_allowed_wrr_g p new_mask s = s"

definition rq_offline_wrr_g :: "cpu \<Rightarrow> kst \<Rightarrow> kst" where "rq_offline_wrr_g c s = s"

definition rq_online_wrr_g :: "cpu \<Rightarrow> kst \<Rightarrow> kst" where "rq_online_wrr_g c s = s"

definition pre_schedule_wrr_g :: "cpu \<Rightarrow> tid \<Rightarrow> kst \<Rightarrow> kst" where "pre_schedule_wrr_g c prev s = s"

definition post_schedule_wrr_g :: "cpu \<Rightarrow> kst \<Rightarrow> kst" where "post_schedule_wrr_g c s = s"

definition task_woken_wrr_g :: "cpu \<Rightarrow> tid \<Rightarrow> kst \<Rightarrow> kst" where "task_woken_wrr_g c p s = s"

definition switched_from_wrr_g :: "cpu \<Rightarrow> tid \<Rightarrow> kst \<Rightarrow> kst" where "switched_from_wrr_g c p s = s"

definition prio_changed_wrr_g :: "cpu \<Rightarrow> tid \<Rightarrow> int \<Rightarrow> kst \<Rightarrow> kst" where "prio_changed_wrr_g c p oldprio s = s"

definition wrr_class_g :: "env \<Rightarrow> class_ops" where
  "wrr_class_g E =
     \<lparr>op_enqueue_task = enqueue_task_wrr_g E,
      op_dequeue_task = dequeue_task_wrr_g E,
      op_yield_task = yield_task_wrr_g E,
      op_check_preempt_curr = (\<lambda>c p flags s. Some (check_preempt_curr_wrr_g E c p flags s)),
      op_pick_next_task = pick_next_task_wrr_g,
      op_put_prev_task = (\<lambda>c p s. Some (put_prev_task_wrr_g E c p s)),
      op_select_task_rq = select_task_rq_wrr_g,
      op_pre_schedule = Some (\<lambda>c p s. Some (pre_schedule_wrr_g c p s)),
      op_post_schedule = Some (\<lambda>c s. Some (post_schedule_wrr_g c s)),
      op_task_waking = None,
      op_task_woken = Some (\<lambda>c p s. Some (task_woken_wrr_g c p s)),
      op_set_cpus_allowed = Some (\<lambda>p m s. Some (set_cpus_allowed_wrr_g p m s)),
      op_rq_online = Some (\<lambda>c s. Some (rq_online_wrr_g c s)),
      op_rq_offline = Some (\<lambda>c s. Some (rq_offline_wrr_g c s)),
      op_set_curr_task = (\<lambda>c s. Some (set_curr_task_wrr_g c s)),
      op_task_tick = task_tick_wrr_g E,
      op_task_fork = Some (\<lambda>p s. task_fork_wrr_g p s),
      op_switched_from = Some (\<lambda>c p s. Some (switched_from_wrr_g c p s)),
      op_switched_to = (\<lambda>c p s. Some (switched_to_wrr_g E c p s)),
      op_prio_changed = (\<lambda>c p old s. Some (prio_changed_wrr_g c p old s)),
      op_get_rr_interval = Some (\<lambda>c p s. Some (get_rr_interval_wrr_g E c p s))\<rparr>"

section \<open>Functions shared with the basic class\<close>

lemma group_shared [simp]:
  "task_group_path_g = task_group_path" "wrr_task_of_g = wrr_task_of"
  "rq_of_wrr_rq_g = rq_of_wrr_rq" "wrr_se_prio_g = wrr_se_prio"
  "update_curr_wrr_g = update_curr_wrr" "list_del_leaf_wrr_rq_g = list_del_leaf_wrr_rq"
  "list_add_leaf_wrr_rq_g = list_add_leaf_wrr_rq"
  by (intro ext; simp add: task_group_path_g_def task_group_path_def wrr_task_of_g_def wrr_task_of_def
      rq_of_wrr_rq_g_def rq_of_wrr_rq_def wrr_se_prio_g_def wrr_se_prio_def update_curr_wrr_g_def
      update_curr_wrr_def list_del_leaf_wrr_rq_g_def list_del_leaf_wrr_rq_def
      list_add_leaf_wrr_rq_g_def list_add_leaf_wrr_rq_def)+

section \<open>A task outside any group\<close>

text \<open>
  A flat task has no parent entity and owns no run-queue. For flat tasks the loops over the
  hierarchy run once.
\<close>

definition flat :: "kst \<Rightarrow> tid \<Rightarrow> bool" where
  "flat s p \<longleftrightarrow> wrr_parent (wrr (tasks s p)) = None \<and> wrr_my_q (wrr (tasks s p)) = None"

text \<open>The highest priority in use is what a search of the bitmap would find.\<close>

definition highest_ok :: "cpu \<Rightarrow> kst \<Rightarrow> bool" where
  "highest_ok c s \<longleftrightarrow>
     wrr_highest_curr (wrr_rqs s (Rq_of_cpu c)) =
     int (find_next_bit (wrr_bitmap (wrr_rqs s (Rq_of_cpu c))) 101 0)"

abbreviation clear_back :: "tid \<Rightarrow> kst \<Rightarrow> kst" where
  "clear_back p s \<equiv> upd_wrr_se (Se_of_task p) (\<lambda>w. w\<lparr>wrr_back := None\<rparr>) s"

lemma wrr_same_clear_back [simp]: "wrr_same s (clear_back p s)"
  by (simp add: wrr_same_def upd_wrr_se_def task_cpu_def)

lemma set_back_flat:
  "flat s p \<Longrightarrow> set_back (Some (Se_of_task p)) None s = Some (Some (Se_of_task p), clear_back p s)"
  by (subst set_back.simps) (simp add: flat_def get_wrr_se_def set_back.simps)

lemma get_clear_back [simp]:
  "wrr_back (get_wrr_se (clear_back p s) (Se_of_task p)) = None"
  "wrr_parent (get_wrr_se (clear_back p s) (Se_of_task p)) = wrr_parent (get_wrr_se s (Se_of_task p))"
  "wrr_my_q (get_wrr_se (clear_back p s) (Se_of_task p)) = wrr_my_q (get_wrr_se s (Se_of_task p))"
  by (simp_all add: get_wrr_se_def upd_wrr_se_def)

lemma clear_back_fields [simp]:
  "wrr_list (clear_back p s) = wrr_list s" "wrr_rqs (clear_back p s) = wrr_rqs s"
  "leaf_wrr (clear_back p s) = leaf_wrr s" "rqs (clear_back p s) = rqs s"
  by (simp_all add: upd_wrr_se_def)

lemma dequeue_wrr_stack_unqueued:
  assumes "flat s p" "\<not> linked (Se_of_task p) (wrr_list s)"
  shows "dequeue_wrr_stack E (Se_of_task p) s = Some (clear_back p s)"
  using assms
  by (simp add: dequeue_wrr_stack_def set_back_flat)
    (subst dequeue_back.simps, simp add: on_wrr_rq_def dequeue_back.simps)

text \<open>
  Enqueueing a flat task: the run-queue is the one the uninitialised pointer names, whatever
  CPU the task is on.
\<close>

lemma enqueue_wrr_entity1_eq:
  assumes "uninit_rq E = Some d" "wrr_rq_ok d s" "owner (wrr_list s) (Se_of_task p) = None"
    "wrr_my_q (wrr (tasks s p)) = None" "rt_priority (tasks s p) < 100"
  shows "enqueue_wrr_entity1 E (Se_of_task p) head s =
    Some (inc_wrr_prio (Rq_of_cpu d) (int (unat (rt_priority (tasks s p))))
      (q_enq d (unat (rt_priority (tasks s p))) (Se_of_task p) head s))"
proof -
  let ?i = "unat (rt_priority (tasks s p))"
  have i: "?i < LEVELS" using assms(5) by (simp add: word_less_nat_alt)
  have sint: "sint (rt_priority (tasks s p)) = int ?i"
    using assms(5) by (intro sint_small) (simp add: word_less_nat_alt)
  show ?thesis
    using assms i
    by (cases "wrr_nr_running (wrr_rqs s (Rq_of_cpu d)) = 0"; cases head)
      (simp_all add: enqueue_wrr_entity1_def wrr_rq_of_se_g_def group_wrr_rq_def get_wrr_se_def
        wrr_se_prio_def wrr_task_of_def sint array_queue_nat list_add_leaf_wrr_rq_def rq_of_wrr_rq_def
        wrr_rq_ok_def list_add_def list_add_tail_def inc_wrr_tasks_def q_enq_def Let_def set_wrr_bit_def
        del: of_nat_unat)
qed

lemma inc_wrr_prio_frame [simp]:
  "tasks (inc_wrr_prio q pr s) = tasks s" "wrr_list (inc_wrr_prio q pr s) = wrr_list s"
  "leaf_wrr (inc_wrr_prio q pr s) = leaf_wrr s" "nr_cpus (inc_wrr_prio q pr s) = nr_cpus s"
  "wrr_bitmap (wrr_rqs (inc_wrr_prio q pr s) q') = wrr_bitmap (wrr_rqs s q')"
  "wrr_nr_running (wrr_rqs (inc_wrr_prio q pr s) q') = wrr_nr_running (wrr_rqs s q')"
  "wrr_rq_rq (wrr_rqs (inc_wrr_prio q pr s) q') = wrr_rq_rq (wrr_rqs s q')"
  "rqs (inc_wrr_prio q pr s) = rqs s"
  by (simp_all add: inc_wrr_prio_def Let_def)

lemma dec_wrr_prio_frame [simp]:
  "tasks (dec_wrr_prio q pr s) = tasks s" "wrr_list (dec_wrr_prio q pr s) = wrr_list s"
  "leaf_wrr (dec_wrr_prio q pr s) = leaf_wrr s" "nr_cpus (dec_wrr_prio q pr s) = nr_cpus s"
  "wrr_bitmap (wrr_rqs (dec_wrr_prio q pr s) q') = wrr_bitmap (wrr_rqs s q')"
  "wrr_nr_running (wrr_rqs (dec_wrr_prio q pr s) q') = wrr_nr_running (wrr_rqs s q')"
  "wrr_rq_rq (wrr_rqs (dec_wrr_prio q pr s) q') = wrr_rq_rq (wrr_rqs s q')"
  "rqs (dec_wrr_prio q pr s) = rqs s"
  by (simp_all add: dec_wrr_prio_def Let_def)

text \<open>\<open>highest_prio\<close> is not part of the queue invariant, so only the fields above matter.\<close>

lemma wrr_inv_prio_only:
  assumes "tasks s' = tasks s" "wrr_list s' = wrr_list s" "leaf_wrr s' = leaf_wrr s" "nr_cpus s' = nr_cpus s"
    "\<And>q. wrr_bitmap (wrr_rqs s' q) = wrr_bitmap (wrr_rqs s q)"
    "\<And>q. wrr_nr_running (wrr_rqs s' q) = wrr_nr_running (wrr_rqs s q)"
    "\<And>q. wrr_rq_rq (wrr_rqs s' q) = wrr_rq_rq (wrr_rqs s q)"
  shows "wrr_view c s' = wrr_view c s" "wrr_inv lev s' = wrr_inv lev s"
proof -
  have v: "wrr_view c s' = wrr_view c s" for c by (simp add: wrr_view_def assms)
  then show "wrr_view c s' = wrr_view c s" .
  have "wrr_fits lev c e i s' = wrr_fits lev c e i s" for c e i
    by (simp add: wrr_fits_def task_cpu_def assms split: se_ref.split)
  then show "wrr_inv lev s' = wrr_inv lev s"
    by (simp add: wrr_inv_def wrr_placed_def wrr_rq_ok_def assms v)
qed

lemma first_bit_insert:
  assumes "i < 100" "b 100"
  shows "find_next_bit (b(i := True)) 101 0 = min i (find_next_bit b 101 0)"
proof (cases rule: find_next_bit_cases [of b 101 0])
  case miss
  then show ?thesis using assms(2) miss(2) [of 100] by simp
next
  case hit
  then show ?thesis
    using assms by (intro find_next_bit_hit) (auto simp: min_def split: if_splits)
qed

lemma first_bit_other:
  assumes "find_next_bit b 101 0 \<noteq> i" "b 100" "i < 100" "b i"
  shows "find_next_bit (b(i := x)) 101 0 = find_next_bit b 101 0"
proof (cases rule: find_next_bit_cases [of b 101 0])
  case miss
  then show ?thesis using assms(2) miss(2) [of 100] by simp
next
  case hit
  then have "find_next_bit b 101 0 < i" using assms(1,4) by (metis le0 linorder_neqE_nat)
  then show ?thesis
    using hit assms(1) by (intro find_next_bit_hit) auto
qed

lemma first_bit_empty:
  assumes "pa_ok A" "pn A = 0"
  shows "find_next_bit (pb A) 101 0 = 100"
  using assms by (intro find_next_bit_hit) (auto simp: pa_ok_def)

lemma dequeue_wrr_entity1_eq:
  assumes "uninit_rq E = Some c" "basic_inv s" "Se_of_task p \<in> set (items (wrr_list s) (Rq_of_cpu c, i))"
  shows "dequeue_wrr_entity1 E (Se_of_task p) s =
    Some (dec_wrr_prio (Rq_of_cpu c) (int i) (q_deq c i (Se_of_task p) s))"
proof -
  have fit: "sint (rt_priority (tasks s p)) = int i" "i < LEVELS" "c < nr_cpus s"
    using queued_wrr_fits [OF assms(2,3)] by simp_all
  have ok: "wrr_rq_ok c s" and pok: "pa_ok (wrr_view c s)"
    using wrr_invD(4,5) [OF assms(2)] fit(3) by blast+
  have bit: "wrr_bitmap (wrr_rqs s (Rq_of_cpu c)) i"
    using pa_ok_bit [OF pok fit(2)] assms(3) by auto
  have n0: "wrr_nr_running (wrr_rqs s (Rq_of_cpu c)) \<noteq> 0"
    using pa_ok_count [OF pok] assms(3) fit(2) by (auto intro!: bexI [of _ i])
  have nat: "nat x = i" if "int i = x" for x using that by auto
  show ?thesis
    using ok fit bit n0 assms(1)
    by (cases "items (list_del_init (Se_of_task p) (wrr_list s)) (Rq_of_cpu c, i) = []";
        cases "wrr_nr_running (wrr_rqs s (Rq_of_cpu c)) = 1")
      (simp_all add: dequeue_wrr_entity1_def array_queue_nat wrr_rq_of_se_g_def wrr_se_prio_def
        wrr_task_of_def head_empty_def q_deq_def Let_def clear_wrr_bit_def wrr_rq_ok_def
        list_del_leaf_wrr_rq_def list_del_rcu_def fun_upd_idem dec_wrr_tasks_def dec_wrr_prio_def nat)
qed

lemma flat_preserved:
  "flat (update_curr_wrr E c s) p = flat s p"
  by (simp add: flat_def)

lemma dequeue_wrr_entity_g_flat:
  assumes "uninit_rq E = Some c" "basic_inv s" "flat s p"
    "Se_of_task p \<in> set (items (wrr_list s) (Rq_of_cpu c, i))"
  shows "dequeue_wrr_entity_g E (Se_of_task p) s =
    Some (dec_wrr_prio (Rq_of_cpu c) (int i) (q_deq c i (Se_of_task p) (clear_back p s)))"
proof -
  let ?b = "clear_back p s"
  let ?d = "dec_wrr_prio (Rq_of_cpu c) (int i) (q_deq c i (Se_of_task p) ?b)"
  have inv: "basic_inv ?b" using assms(2) wrr_same_inv [OF wrr_same_clear_back] by blast
  have mem: "Se_of_task p \<in> set (items (wrr_list ?b) (Rq_of_cpu c, i))" using assms(4) by simp
  have linked: "linked (Se_of_task p) (wrr_list s)"
    using assms(2,4) klist_ok_owner [OF wrr_invD(1) [OF assms(2)]] by (auto simp: linked_def)
  have tasks: "get_wrr_se ?d (Se_of_task p) = get_wrr_se ?b (Se_of_task p)"
    by (simp add: get_wrr_se_def)
  have "dequeue_wrr_stack E (Se_of_task p) s = Some ?d"
    using linked dequeue_wrr_entity1_eq [OF assms(1) inv mem] tasks
    by (simp add: dequeue_wrr_stack_def set_back_flat [OF assms(3)])
      (subst dequeue_back.simps, simp add: on_wrr_rq_def dequeue_back.simps)
  moreover have "requeue_groups E (Some (Se_of_task p)) ?d = Some ?d"
    using assms(3) tasks
    by (subst requeue_groups.simps) (simp add: group_wrr_rq_def flat_def get_wrr_se_def
        upd_wrr_se_def requeue_groups.simps)
  ultimately show ?thesis by (simp add: dequeue_wrr_entity_g_def)
qed

lemma enqueue_wrr_entity_g_flat:
  assumes "uninit_rq E = Some d" "wrr_rq_ok d s" "\<not> linked (Se_of_task p) (wrr_list s)"
    "flat s p" "rt_priority (tasks s p) < 100"
  shows "enqueue_wrr_entity_g E (Se_of_task p) head s =
    Some (inc_wrr_prio (Rq_of_cpu d) (int (unat (rt_priority (tasks s p))))
      (q_enq d (unat (rt_priority (tasks s p))) (Se_of_task p) head (clear_back p s)))"
proof -
  let ?b = "clear_back p s"
  have rt: "rt_priority (tasks ?b p) = rt_priority (tasks s p)" by (simp add: upd_wrr_se_def)
  have my: "wrr_my_q (wrr (tasks ?b p)) = None" "wrr_parent (wrr (tasks ?b p)) = None"
    using assms(4) by (simp_all add: flat_def upd_wrr_se_def)
  have "wrr_rq_ok d ?b"
    using assms(2) by (simp add: wrr_rq_ok_def wrr_view_def)
  moreover have "owner (wrr_list ?b) (Se_of_task p) = None"
    using assms(3) by (simp add: not_linked_iff)
  ultimately have "enqueue_wrr_entity1 E (Se_of_task p) head ?b =
      Some (inc_wrr_prio (Rq_of_cpu d) (int (unat (rt_priority (tasks s p))))
        (q_enq d (unat (rt_priority (tasks s p))) (Se_of_task p) head ?b))" (is "_ = Some ?r")
    using enqueue_wrr_entity1_eq [OF assms(1), of ?b p head] my assms(5) by (simp only: rt)
  moreover have "wrr_parent (get_wrr_se ?r (Se_of_task p)) = None"
    using my(2) by (simp add: get_wrr_se_def)
  ultimately have "enqueue_chain E (Some (Se_of_task p)) head ?b = Some ?r"
    by (subst enqueue_chain.simps) (simp add: enqueue_chain.simps)
  then show ?thesis
    using dequeue_wrr_stack_unqueued [OF assms(4,3)] by (simp add: enqueue_wrr_entity_g_def)
qed

end
