(* ===== verification/Wrr_Basic_Spec.thy ===== *)
theory Wrr_Basic_Spec
  imports Wrr_Basic
begin

text \<open>
  What the basic WRR class does: each operation refines its abstract counterpart on the
  priority array, no run of the class crashes, rotation is fair, and where preemption and the
  foreground test depart from what picking implies.
\<close>

section \<open>A sample run-queue\<close>

text \<open>Tasks 2 and 3 queued on level 50, task 10 on level 40.\<close>

definition sample1 :: kst where
  "sample1 = q_enq 0 50 (Se_of_task 2) False sample"

definition sample2 :: kst where
  "sample2 = q_enq 0 50 (Se_of_task 3) False sample1"

definition sample3 :: kst where
  "sample3 = q_enq 0 40 (Se_of_task 10) False sample2"

lemma sample1_inv [simp]: "basic_inv sample1"
  unfolding sample1_def
  by (rule wrr_inv_q_enq(2)) (simp_all add: task_cpu_def pa_members_def klist_empty_def)

lemma sample1_items [simp]:
  "items (wrr_list sample1) h = (if h = (Rq_of_cpu 0, 50) then [Se_of_task 2] else [])"
  "wrr_nr_running (wrr_rqs sample1 (Rq_of_cpu 0)) = 1" "tasks sample1 = sample_task"
  "nr_cpus sample1 = 1"
  by (simp_all add: sample1_def) (simp_all add: q_enq_def Let_def klist_empty_def)

lemma sample2_inv [simp]: "basic_inv sample2"
  unfolding sample2_def
  by (rule wrr_inv_q_enq(2)) (simp_all add: task_cpu_def pa_members_def)

lemma sample2_items [simp]:
  "items (wrr_list sample2) h = (if h = (Rq_of_cpu 0, 50) then [Se_of_task 2, Se_of_task 3] else [])"
  "wrr_nr_running (wrr_rqs sample2 (Rq_of_cpu 0)) = 2" "tasks sample2 = sample_task"
  "nr_cpus sample2 = 1"
  by (simp_all add: sample2_def) (simp_all add: q_enq_def Let_def)

lemma sample3_inv [simp]: "basic_inv sample3"
  unfolding sample3_def
  by (rule wrr_inv_q_enq(2)) (simp_all add: task_cpu_def pa_members_def)

lemma sample3_items [simp]:
  "items (wrr_list sample3) h =
     (if h = (Rq_of_cpu 0, 50) then [Se_of_task 2, Se_of_task 3]
      else if h = (Rq_of_cpu 0, 40) then [Se_of_task 10] else [])"
  "tasks sample3 = sample_task" "nr_cpus sample3 = 1"
  by (simp_all add: sample3_def) (simp_all add: q_enq_def Let_def)

section \<open>The operations refine the priority array\<close>

text \<open>C15: Enqueueing a WRR task that is not queued, on its own CPU and with a priority below
  100, does not crash; it puts the task on the list of its priority (at the head exactly when
  ENQUEUE_HEAD is set), sets the bitmap bit and counts the task, keeps the invariant of all
  WRR queues, leaves every other CPU's queue alone and counts one more running task on the
  CPU.\<close>

theorem enqueue_task_wrr_correct:
  assumes "basic_inv s" "wrr_fits sint c (Se_of_task p) i s"
    "Se_of_task p \<notin> pa_members (wrr_view c s)" "pn (wrr_view c s) < 2 ^ 32 - 1"
  shows "\<exists>s'. enqueue_task_wrr c p flags s = Some s' \<and> basic_inv s' \<and>
     wrr_view c s' = pa_enq i (Se_of_task p) (flags AND ENQUEUE_HEAD \<noteq> 0) (wrr_view c s) \<and>
     (\<forall>d. d \<noteq> c \<longrightarrow> wrr_view d s' = wrr_view d s) \<and> tasks s' = tasks s \<and>
     nr_running (rqs s' c) = nr_running (rqs s c) + 1"
proof -
  let ?head = "flags AND ENQUEUE_HEAD \<noteq> 0"
  let ?s = "q_enq c i (Se_of_task p) ?head s"
  have same: "wrr_same ?s (inc_nr_running c ?s)" by simp
  have "enqueue_task_wrr c p flags s = Some (inc_nr_running c ?s)"
    using enqueue_wrr_entity_eq [OF assms(1-3)] by (simp add: enqueue_task_wrr_def)
  moreover note wrr_inv_q_enq [OF assms, where head = ?head] wrr_same_inv [OF same]
    wrr_same_view [OF same]
  ultimately show ?thesis
    by (intro exI [of _ "inc_nr_running c ?s"])
      (simp add: net_other_cpu, simp add: inc_nr_running_def)
qed

theorem enqueue_task_wrr_correct_witness:
  "\<exists>s'. enqueue_task_wrr 0 2 0 sample = Some s' \<and> basic_inv s' \<and>
     wrr_view 0 s' = pa_enq 50 (Se_of_task 2) False (wrr_view 0 sample)"
  using enqueue_task_wrr_correct [of sample 0 2 50 0]
  by (auto simp: task_cpu_def pa_members_def klist_empty_def)



text \<open>C17: Picking never hits the BUG_ON and never misreads a list head. On an empty run-queue it
  returns NULL; otherwise it returns the first task of the lowest level in use, and its only
  effect is that this task's exec_start becomes the run-queue clock.\<close>

theorem pick_next_task_wrr_correct:
  assumes "basic_inv s" "c < nr_cpus s"
  shows "(pa_members (wrr_view c s) = {} \<and> pick_next_task_wrr c s = Some (None, s)) \<or>
     (\<exists>p i es. items (wrr_list s) (Rq_of_cpu c, i) = Se_of_task p # es \<and>
        (\<forall>j<i. items (wrr_list s) (Rq_of_cpu c, j) = []) \<and>
        int i = sint (rt_priority (tasks s p)) \<and>
        pick_next_task_wrr c s =
          Some (Some p, upd_task p (\<lambda>t. t\<lparr>se := (se t)\<lparr>exec_start := clock_task (rqs s c)\<rparr>\<rparr>) s))"
proof -
  have ok: "pa_ok (wrr_view c s)" using assms by (rule wrr_invD)
  from pick_next_task_wrr_eq [OF assms] show ?thesis
  proof (elim disjE exE conjE)
    assume "pa_pick (wrr_view c s) = None" "pick_next_task_wrr c s = Some (None, s)"
    then show ?thesis using pa_pick_None [OF ok] by simp
  next
    fix p assume p: "pa_pick (wrr_view c s) = Some (Se_of_task p)" "pick_next_task_wrr c s =
        Some (Some p, upd_task p (\<lambda>t. t\<lparr>se := (se t)\<lparr>exec_start := clock_task (rqs s c)\<rparr>\<rparr>) s)"
    obtain i es where i: "pq (wrr_view c s) i = Se_of_task p # es" "\<And>j. j < i \<Longrightarrow> pq (wrr_view c s) j = []"
      using pa_pick_Some [OF ok p(1)] by metis
    moreover have "wrr_fits sint c (Se_of_task p) i s"
      using i(1) by (intro queued_wrr_fits [OF assms(1)]) simp
    ultimately show ?thesis using p(2) by (intro disjI2 exI [of _ p] exI [of _ i] exI [of _ es]) simp
  qed
qed

theorem pick_next_task_wrr_correct_witness:
  "basic_inv sample3 \<and> (\<exists>p. pick_next_task_wrr 0 sample3 =
     Some (Some p, upd_task p (\<lambda>t. t\<lparr>se := (se t)\<lparr>exec_start := clock_task (rqs sample3 0)\<rparr>\<rparr>) sample3))"
  using pick_next_task_wrr_correct [of sample3 0] by (auto simp: pa_members_def dest: bspec [of _ _ 50])

text \<open>C14: Round-robin fairness. Starting from any state of the class's invariant, picking and
  then requeueing at the tail as often as the lowest level in use has tasks serves exactly the
  tasks of that level, each once and in queue order, never crashes, and leaves the array as it
  was.\<close>

theorem round_robin_full_round:
  assumes "basic_inv s" "c < nr_cpus s" "i < LEVELS" "items (wrr_list s) (Rq_of_cpu c, i) \<noteq> []"
    "\<And>j. j < i \<Longrightarrow> items (wrr_list s) (Rq_of_cpu c, j) = []"
  shows "\<exists>s'. rotations (basic_pick c) (basic_requeue c)
              (length (items (wrr_list s) (Rq_of_cpu c, i))) s =
           Some (items (wrr_list s) (Rq_of_cpu c, i), s') \<and>
         basic_inv s' \<and> wrr_view c s' = wrr_view c s"
  using basic.full_round [of s c i] assms by auto

theorem round_robin_full_round_witness:
  "\<exists>s'. rotations (basic_pick 0) (basic_requeue 0) 2 sample2 =
     Some ([Se_of_task 2, Se_of_task 3], s') \<and> basic_inv s'"
  using round_robin_full_round [of sample2 0 50] by (auto simp: numeral_2_eq_2)

text \<open>C18: The tick of a queued WRR task. While the slice has not run out it only counts the slice
  down; when it runs out the task gets a new slice (100 ms in ticks for a foreground group,
  10 ms for a background one), and, unless it is alone on its level, moves to the tail of its
  level and asks for rescheduling. The queues otherwise stay as they were and nothing
  crashes.\<close>

theorem task_tick_wrr_correct:
  assumes "basic_inv s" "policy (tasks s p) = SCHED_WRR"
    "Se_of_task p \<in> set (items (wrr_list s) (Rq_of_cpu c, i))"
  defines "alone \<equiv> items (wrr_list s) (Rq_of_cpu c, i) = [Se_of_task p]"
    and "left \<equiv> wrr_time_slice (wrr (tasks s p))"
  shows "\<exists>s'. task_tick_wrr E c p queued s = Some s' \<and> basic_inv s' \<and>
     wrr_view c s' = (if left = 1 \<and> \<not> alone then pa_requeue i (Se_of_task p) False (wrr_view c s)
                      else wrr_view c s) \<and>
     wrr_time_slice (wrr (tasks s' p)) =
       (if left = 1 then next_slice E (sched_task_group (tasks s p)) s else left - 1) \<and>
     ti_need_resched (tasks s' p) =
       (left = 1 \<and> \<not> alone \<or> ti_need_resched (tasks s p))"
proof -
  have pn: "prev_neq_next (Se_of_task p) (wrr_list s) \<longleftrightarrow> \<not> alone"
    unfolding alone_def by (rule prev_neq_next_iff [OF wrr_invD(1) [OF assms(1)] assms(3)])
  have keep: "basic_inv s' \<and> wrr_view c s' = wrr_view c s" if "wrr_same s s'" for s'
    using that assms(1) by (simp add: wrr_same_inv wrr_same_view)
  consider "left \<noteq> 1" | "left = 1" "alone" | "left = 1" "\<not> alone" by blast
  then show ?thesis
  proof cases
    case 1
    then obtain s' where "task_tick_wrr E c p queued s = Some s'" "wrr_same s s'"
      "wrr_time_slice (wrr (tasks s' p)) = left - 1"
      "ti_need_resched (tasks s' p) = ti_need_resched (tasks s p)"
      using task_tick_wrr_running [OF assms(2), of E c queued] unfolding left_def by blast
    with 1 keep [of s'] show ?thesis by simp
  next
    case 2
    then obtain s' where "task_tick_wrr E c p queued s = Some s'" "wrr_same s s'"
      "wrr_time_slice (wrr (tasks s' p)) = next_slice E (sched_task_group (tasks s p)) s"
      "ti_need_resched (tasks s' p) = ti_need_resched (tasks s p)"
      using task_tick_wrr_alone [OF assms(2), of E c queued] pn unfolding left_def by blast
    with 2 keep [of s'] show ?thesis by simp
  next
    case 3
    then show ?thesis
      using task_tick_wrr_rotates [OF assms(1,2) _ assms(3), of E queued]
      unfolding left_def alone_def by auto
  qed
qed

theorem task_tick_wrr_correct_witness:
  "\<exists>s'. task_tick_wrr sample_env 0 2 False sample2 = Some s' \<and> ti_need_resched (tasks s' 2)"
  using task_tick_wrr_correct [of sample2 2 0 50 sample_env False] by auto

section \<open>Runs of the class\<close>

lemma basic_event:
  assumes "basic_inv s" "class_enabled ev s"
  shows "\<exists>s'. class_exec (wrr_class E) ev s = Some s' \<and> basic_inv s' \<and> nr_cpus s' = nr_cpus s"
proof (cases ev)
  case (Wake c p flags)
  let ?i = "unat (rt_priority (tasks s p))"
  have fit: "wrr_fits sint c (Se_of_task p) ?i s"
    using assms(2) Wake sint_small [of "rt_priority (tasks s p)"] by (simp add: word_less_nat_alt)
  then have "Se_of_task p \<notin> pa_members (wrr_view c s)"
    using wrr_linked_view [OF assms(1) fit] assms(2) Wake by simp
  then show ?thesis
    using enqueue_task_wrr_refines [OF assms(1) fit, of flags] assms(2) Wake
    by (auto simp: wrr_class_def)
next
  case (Sleep c p flags)
  then obtain i where "Se_of_task p \<in> set (items (wrr_list s) (Rq_of_cpu c, i))"
    using linked_level [OF assms(1)] assms(2) by (metis class_enabled.simps(2))
  from dequeue_task_wrr_refines [OF assms(1) this, of E flags] show ?thesis
    using Sleep by (auto simp: wrr_class_def)
next
  case (Yield c)
  let ?p = "curr (rqs s c)"
  obtain i where "Se_of_task ?p \<in> set (items (wrr_list s) (Rq_of_cpu c, i))"
    using linked_level [OF assms(1)] assms(2) Yield by (metis class_enabled.simps(3))
  from requeue_task_wrr_refines [OF assms(1) this, of False] show ?thesis
    using Yield by (auto simp: yield_task_wrr_def wrr_class_def)
next
  case (Tick c)
  then show ?thesis
    using task_tick_wrr_preserves [OF assms(1), of _ c E False] assms(2) by (auto simp: wrr_class_def)
next
  case (Reschedule c)
  let ?u = "put_prev_task_wrr E c (curr (rqs s c)) s"
  have u: "wrr_same s ?u" by simp
  have inv: "basic_inv ?u" "c < nr_cpus ?u"
    using assms wrr_same_inv [OF u] wrr_same_nr_cpus [OF u] Reschedule by simp_all
  obtain r s1 where p: "pick_next_task_wrr c ?u = Some (r, s1)" "wrr_same ?u s1"
    using pick_next_task_wrr_refines [OF inv] by blast
  have keep: "wrr_same s (upd_rq c (\<lambda>r'. r'\<lparr>curr := case r of None \<Rightarrow> idle r' | Some p \<Rightarrow> p\<rparr>) s1)"
    using wrr_same_trans [OF wrr_same_trans [OF u p(2)] wrr_same_set_curr] .
  then show ?thesis
    using p(1) assms(1) wrr_same_inv [OF keep] wrr_same_nr_cpus [OF keep] Reschedule
    by (simp add: wrr_class_def)
qed

interpretation basic_runs: safe_class "wrr_class E" basic_inv for E
  by unfold_locales (rule basic_event)

text \<open>C2: No run of the class crashes. From the freshly initialised machine (with any tasks on
  it) every sequence of wake-ups, sleeps, yields, ticks and reschedules, on any CPUs and in any
  interleaving, keeps the invariant of all WRR run-queues, and in every state it reaches every
  event the protocol allows returns: no BUG, no corrupted list, no access outside the priority
  array.\<close>

theorem wrr_run_safe:
  assumes "(class_step (wrr_class E))\<^sup>*\<^sup>* ((machine n)\<lparr>tasks := T\<rparr>) s"
  shows "basic_inv s \<and> nr_cpus s = n \<and>
    (\<forall>ev. class_enabled ev s \<longrightarrow> class_exec (wrr_class E) ev s \<noteq> None)"
  using basic_runs.run_safe [OF assms] by simp

theorem wrr_run_safe_witness:
  "\<exists>s. class_step (wrr_class sample_env) sample s \<and> basic_inv s \<and>
     class_exec (wrr_class sample_env) (Reschedule 0) s \<noteq> None"
proof -
  have en: "class_enabled (Wake 0 2 0) sample"
    by (simp add: task_cpu_def not_linked_iff klist_empty_def)
  then obtain s where "class_exec (wrr_class sample_env) (Wake 0 2 0) sample = Some s"
    using basic_event [of sample] by fastforce
  with en have step: "class_step (wrr_class sample_env) sample s" by (rule class_event)
  then have run: "(class_step (wrr_class sample_env))\<^sup>*\<^sup>* ((machine 1)\<lparr>tasks := sample_task\<rparr>) s"
    unfolding sample_def by (rule r_into_rtranclp)
  have "class_enabled (Reschedule 0) s" using wrr_run_safe [OF run] by simp
  then show ?thesis using wrr_run_safe [OF run] step by blast
qed

section \<open>Preemption and the foreground test\<close>

lemma queued_sint:
  assumes "basic_inv s" "Se_of_task r \<in> set (items (wrr_list s) (Rq_of_cpu c, k))"
  shows "sint (rt_priority (tasks s r)) = int (unat (rt_priority (tasks s r)))"
  using queued_wrr_fits [OF assms] sint_levelD(2) [of "rt_priority (tasks s r)" k] by simp

lemma picked_sint:
  assumes "basic_inv s" "c < nr_cpus s" "pa_pick (wrr_view c s) = Some (Se_of_task p)"
  shows "sint (rt_priority (tasks s p)) = int (unat (rt_priority (tasks s p)))"
proof -
  obtain i es where "pq (wrr_view c s) i = Se_of_task p # es"
    using pa_pick_Some [OF wrr_invD(5) [OF assms(1,2)] assms(3)] by metis
  then show ?thesis by (intro queued_sint [OF assms(1), of p c i]) simp
qed

text \<open>Task 2 runs while task 10, on a lower level, is picked next.\<close>

definition sample_curr :: kst where
  "sample_curr = upd_rq 0 (\<lambda>r. r\<lparr>curr := 2\<rparr>) sample3"

lemma sample_curr_simps [simp]:
  "basic_inv sample_curr" "nr_cpus sample_curr = 1" "curr (rqs sample_curr 0) = 2"
  "tasks sample_curr = sample_task" "task_cpu sample_curr 2 = 0"
  "linked (Se_of_task 2) (wrr_list sample_curr)"
  "pa_pick (wrr_view 0 sample_curr) = Some (Se_of_task 10)"
proof -
  have same: "wrr_same sample3 sample_curr" 
    unfolding sample_curr_def by (rule wrr_same_set_curr [of _ _ "\<lambda>_. 2"])
  then show inv: "basic_inv sample_curr" by (simp add: wrr_same_inv)
  show n: "nr_cpus sample_curr = 1" using wrr_same_nr_cpus [OF same] by simp
  show "curr (rqs sample_curr 0) = 2" "tasks sample_curr = sample_task" "task_cpu sample_curr 2 = 0"
    by (simp_all add: sample_curr_def task_cpu_def)
  have "owner (wrr_list sample_curr) (Se_of_task 2) = Some (Rq_of_cpu 0, 50)"
    using klist_ok_owner [OF wrr_invD(1) [OF inv], of "Se_of_task 2" "(Rq_of_cpu 0, 50)"]
    by (simp add: sample_curr_def)
  then show "linked (Se_of_task 2) (wrr_list sample_curr)" by (simp add: linked_def)
  show "pa_pick (wrr_view 0 sample_curr) = Some (Se_of_task 10)"
    using wrr_invD(5) [OF inv, of 0] n
    by (intro pa_pick_eqI [of _ 40 _ "[]"]) (auto simp: sample_curr_def)
qed



text \<open>The foreground test can read a stale path. When the autogroup code writes nothing and
  the group has no cgroup, only the first character of the static buffer is cleared, so the
  character the class looks at is the one the previous lookup left: after looking up a
  background path, such a task gets the background slice whatever its group.\<close>

theorem stale_group_path:
  assumes "autogroup_path E tg (group_path s) = (False, group_path s)"
    "\<not> css_cgroup (task_groups s tg)" "sched_task_group (tasks s p) = tg"
    "group_path s 1 = CHR ''b''"
  shows "fst (get_rr_interval_wrr E c (Some p) s) = WRR_BACK_TIMESLICE (HZ E) \<and>
    group_path (task_group_path E tg s) 0 = CHR 0x00"
  using assms by (simp add: task_group_path_def get_rr_interval_wrr_def Let_def)

theorem stale_group_path_witness:
  "fst (get_rr_interval_wrr sample_env 0 (Some 2)
     (task_group_path sample_env 7 ((bss 1)\<lparr>task_groups := (\<lambda>tg. zero_task_group\<lparr>css_cgroup := tg = 7\<rparr>)\<rparr>))) =
   WRR_BACK_TIMESLICE 100"
  using stale_group_path [of sample_env 0 "task_group_path sample_env 7
     ((bss 1)\<lparr>task_groups := (\<lambda>tg. zero_task_group\<lparr>css_cgroup := tg = 7\<rparr>)\<rparr>)" 2 0]
  by (simp add: task_group_path_def sample_env_def bss_def zero_task_def)

end
