(* ===== verification/Wrr_Group_Spec.thy ===== *)
theory Wrr_Group_Spec
  imports Wrr_Group Wrr_Basic_Spec
begin

text \<open>
  What the group class does for tasks outside any group when its uninitialised run-queue pointer
  happens to be right, and what it does when the pointer is not, or when a task does sit in a
  group.
\<close>

definition group_env :: "cpu \<Rightarrow> env" where
  "group_env c = sample_env\<lparr>uninit_rq := Some c\<rparr>"

lemma group_env_uninit [simp]: "uninit_rq (group_env c) = Some c"
  by (simp add: group_env_def)

lemma sample_flat [simp]:
  "flat sample p" "flat sample2 p"
  by (simp_all add: flat_def sample_task_def zero_task_def)

section \<open>Flat tasks, with the right run-queue\<close>

text \<open>C24: Enqueueing a task outside any group, when the uninitialised pointer happens to name the
  task's own CPU, does what the basic class does (the task goes on the list of its priority,
  the bitmap and counters follow, the invariant holds), and highest_prio.curr stays the lowest
  level in use.\<close>

theorem enqueue_task_wrr_g_correct:
  assumes "uninit_rq E = Some c" "basic_inv s" "wrr_fits sint c (Se_of_task p) i s"
    "\<not> linked (Se_of_task p) (wrr_list s)" "flat s p" "pn (wrr_view c s) < 2 ^ 32 - 1" "highest_ok c s"
  shows "\<exists>s'. enqueue_task_wrr_g E c p flags s = Some s' \<and> basic_inv s' \<and>
     wrr_view c s' = pa_enq i (Se_of_task p) (flags AND ENQUEUE_HEAD \<noteq> 0) (wrr_view c s) \<and>
     highest_ok c s' \<and> nr_running (rqs s' c) = nr_running (rqs s c) + 1"
proof -
  let ?head = "flags AND ENQUEUE_HEAD \<noteq> 0" and ?b = "clear_back p s"
  let ?e = "q_enq c i (Se_of_task p) ?head ?b"
  let ?r = "inc_wrr_prio (Rq_of_cpu c) (int i) ?e"
  have i: "unat (rt_priority (tasks s p)) = i" "i < LEVELS" "c < nr_cpus s"
    using assms(3) by (auto dest: sint_levelD(2))
  have rt: "rt_priority (tasks s p) < 100" using i(1,2) by (simp add: word_less_nat_alt)
  have b: "wrr_same s ?b" by simp
  have inv: "basic_inv ?b" using assms(2) wrr_same_inv [OF b] by simp
  have fit: "wrr_fits sint c (Se_of_task p) i ?b" using assms(3) wrr_same_fits [OF b] by blast
  have new: "Se_of_task p \<notin> pa_members (wrr_view c ?b)"
    using wrr_linked_view [OF inv fit] assms(4) by simp
  have cap: "pn (wrr_view c ?b) < 2 ^ 32 - 1" using assms(6) by simp
  note eff = wrr_inv_q_enq [OF inv fit new cap, where head = ?head]
  have run: "enqueue_task_wrr_g E c p flags s = Some (inc_nr_running c ?r)"
    using enqueue_wrr_entity_g_flat [OF assms(1) wrr_invD(4) [OF assms(2) i(3)] assms(4,5) rt, of ?head]
    by (simp add: enqueue_task_wrr_g_def i(1))
  have same: "wrr_same ?r (inc_nr_running c ?r)" by simp
  have "pa_ok (wrr_view c s)" using wrr_invD(5) [OF assms(2) i(3)] .
  then have "wrr_bitmap (wrr_rqs s (Rq_of_cpu c)) LEVELS" by (simp add: pa_ok_def)
  then have "highest_ok c ?r"
    using assms(7) first_bit_insert [OF i(2)]
    by (auto simp: highest_ok_def inc_wrr_prio_def q_enq_def Let_def)
  then have "highest_ok c (inc_nr_running c ?r)" by (simp add: highest_ok_def inc_nr_running_def)
  moreover have "nr_running (rqs (inc_nr_running c ?r) c) = nr_running (rqs s c) + 1"
    by (simp add: inc_nr_running_def)
  moreover have "wrr_view c ?r = wrr_view c ?e" "basic_inv ?r = basic_inv ?e"
    by (rule wrr_inv_prio_only; simp)+
  ultimately show ?thesis
    using run eff wrr_same_inv [OF same] wrr_same_view [OF same] wrr_same_view [OF b, of c] by simp
qed

lemma sample_highest [simp]: "highest_ok 0 sample"
proof -
  have "pa_ok (wrr_view 0 sample)" using wrr_invD(5) [OF sample_inv, of 0] by simp
  then have "find_next_bit (wrr_bitmap (wrr_rqs sample (Rq_of_cpu 0))) 101 0 = 100"
    using first_bit_empty [of "wrr_view 0 sample"] by simp
  moreover have "wrr_highest_curr (wrr_rqs sample (Rq_of_cpu 0)) = 100"
    by (simp add: sample_def machine_def sched_init_wrr_def bss_def sched_init_wrr_cpu_def
        init_tg_wrr_entry_def Let_def)
  ultimately show ?thesis by (simp add: highest_ok_def)
qed

theorem enqueue_task_wrr_g_correct_witness:
  "\<exists>s'. enqueue_task_wrr_g (group_env 0) 0 2 0 sample = Some s' \<and> highest_ok 0 s' \<and>
     wrr_view 0 s' = pa_enq 50 (Se_of_task 2) False (wrr_view 0 sample)"
  using enqueue_task_wrr_g_correct [of "group_env 0" 0 sample 2 50 0]
  by (auto simp: task_cpu_def not_linked_iff klist_empty_def)

text \<open>C25: Dequeueing a task outside any group, under the same condition, removes it from its list,
  keeps the invariant, and keeps highest_prio.curr the lowest level still in use (100 when the
  run-queue became empty).\<close>

theorem dequeue_task_wrr_g_correct:
  assumes "uninit_rq E = Some c" "basic_inv s" "flat s p"
    "Se_of_task p \<in> set (items (wrr_list s) (Rq_of_cpu c, i))" "highest_ok c s"
  shows "\<exists>s'. dequeue_task_wrr_g E c p flags s = Some s' \<and> basic_inv s' \<and>
     wrr_view c s' = pa_deq i (Se_of_task p) (wrr_view c s) \<and> highest_ok c s'"
proof -
  let ?u = "update_curr_wrr E c s"
  let ?b = "clear_back p ?u"
  let ?d = "q_deq c i (Se_of_task p) ?b"
  let ?r = "dec_wrr_prio (Rq_of_cpu c) (int i) ?d"
  have b: "wrr_same s ?b" using wrr_same_trans [OF wrr_same_update_curr wrr_same_clear_back] .
  have invu: "basic_inv ?u" using assms(2) wrr_same_inv [OF wrr_same_update_curr] by blast
  have inv: "basic_inv ?b" using assms(2) wrr_same_inv [OF b] by simp
  have mem: "Se_of_task p \<in> set (items (wrr_list ?b) (Rq_of_cpu c, i))" using assms(4) by simp
  have fit: "i < LEVELS" "c < nr_cpus s" using queued_wrr_fits [OF assms(2,4)] by simp_all
  note eff = wrr_inv_q_deq [OF inv mem]
  have run: "dequeue_task_wrr_g E c p flags s = Some (dec_nr_running c ?r)"
    using dequeue_wrr_entity_g_flat [OF assms(1) invu, of p i] assms(3,4)
    by (simp add: dequeue_task_wrr_g_def flat_def)
  have same: "wrr_same ?r (dec_nr_running c ?r)" by simp
  have pok: "pa_ok (wrr_view c s)" using wrr_invD(5) [OF assms(2) fit(2)] .
  then have b100: "wrr_bitmap (wrr_rqs s (Rq_of_cpu c)) LEVELS" by (simp add: pa_ok_def)
  have bi: "wrr_bitmap (wrr_rqs s (Rq_of_cpu c)) i"
    using pa_ok_bit [OF pok fit(1)] assms(4) by auto
  have "highest_ok c ?r"
  proof (cases "wrr_nr_running (wrr_rqs ?d (Rq_of_cpu c)) = 0")
    case True
    have "pa_ok (wrr_view c ?d)" using wrr_invD(5) [OF eff(2), of c] fit(2) b by (simp add: wrr_same_def)
    with True have "find_next_bit (wrr_bitmap (wrr_rqs ?d (Rq_of_cpu c))) 101 0 = 100"
      using first_bit_empty [of "wrr_view c ?d"] by simp
    then show ?thesis using True by (simp add: highest_ok_def dec_wrr_prio_def Let_def)
  next
    case nz: False
    have hs: "wrr_highest_curr (wrr_rqs ?d (Rq_of_cpu c)) =
        int (find_next_bit (wrr_bitmap (wrr_rqs s (Rq_of_cpu c))) 101 0)"
      using assms(5) by (simp add: q_deq_def Let_def highest_ok_def)
    have bm: "wrr_bitmap (wrr_rqs ?d (Rq_of_cpu c)) = (wrr_bitmap (wrr_rqs s (Rq_of_cpu c)))(i := x)"
      if "x = (items (list_del_init (Se_of_task p) (wrr_list s)) (Rq_of_cpu c, i) \<noteq> [])" for x
      using that by (simp add: q_deq_def Let_def)
    show ?thesis
      using nz hs bm first_bit_other [OF _ b100 fit(1) bi]
      by (cases "find_next_bit (wrr_bitmap (wrr_rqs s (Rq_of_cpu c))) 101 0 = i")
        (simp_all add: highest_ok_def dec_wrr_prio_def Let_def)
  qed
  then have "highest_ok c (dec_nr_running c ?r)" by (simp add: highest_ok_def dec_nr_running_def)
  moreover have "wrr_view c ?r = wrr_view c ?d" "basic_inv ?r = basic_inv ?d"
    by (rule wrr_inv_prio_only; simp)+
  ultimately show ?thesis
    using run eff wrr_same_inv [OF same] wrr_same_view [OF same] wrr_same_view [OF b, of c] by simp
qed

definition group_sample :: kst where
  "group_sample = upd_wrr_rq (Rq_of_cpu 0) (\<lambda>r. r\<lparr>wrr_highest_curr := 50\<rparr>) sample2"

lemma group_sample_simps [simp]:
  "basic_inv group_sample" "highest_ok 0 group_sample" "tasks group_sample = sample_task"
  "wrr_list group_sample = wrr_list sample2" "wrr_view 0 group_sample = wrr_view 0 sample2"
proof -
  show "wrr_view 0 group_sample = wrr_view 0 sample2" "wrr_list group_sample = wrr_list sample2"
    by (simp_all add: group_sample_def wrr_view_def)
  have "basic_inv group_sample = basic_inv sample2"
    by (rule wrr_inv_prio_only) (simp_all add: group_sample_def)
  then show "basic_inv group_sample" by simp
  have ok: "pa_ok (wrr_view 0 sample2)" using wrr_invD(5) [OF sample2_inv, of 0] by simp
  have "find_next_bit (wrr_bitmap (wrr_rqs sample2 (Rq_of_cpu 0))) 101 0 = 50"
    using pa_ok_bit [OF ok] by (intro find_next_bit_hit) auto
  then show "highest_ok 0 group_sample" by (simp add: highest_ok_def group_sample_def)
  show "tasks group_sample = sample_task" by (simp add: group_sample_def)
qed

theorem dequeue_task_wrr_g_correct_witness:
  "\<exists>s'. dequeue_task_wrr_g (group_env 0) 0 2 0 group_sample = Some s' \<and> highest_ok 0 s' \<and>
     wrr_view 0 s' = pa_deq 50 (Se_of_task 2) (wrr_view 0 sample2)"
proof -
  have "flat group_sample 2" by (simp add: flat_def sample_task_def zero_task_def)
  then show ?thesis
    using dequeue_task_wrr_g_correct [of "group_env 0" 0 group_sample 2 50 0] by auto
qed

section \<open>The uninitialised run-queue pointer\<close>



section \<open>Tasks in a group\<close>

lemma dequeue_wrr_entity1_frame:
  assumes "dequeue_wrr_entity1 E e s = Some s'"
  shows "tasks s' = tasks s" "wrr_gses s' = wrr_gses s"
  using assms
  by (auto simp: dequeue_wrr_entity1_def dec_wrr_tasks_def dec_wrr_prio_def list_del_leaf_wrr_rq_def
      Let_def dest!: bind_SomeD split: if_splits)

lemma enqueue_wrr_entity1_frame:
  assumes "enqueue_wrr_entity1 E e head s = Some s'"
  shows "tasks s' = tasks s" "wrr_gses s' = wrr_gses s"
  using assms
  by (auto simp: enqueue_wrr_entity1_def inc_wrr_tasks_def inc_wrr_prio_def list_add_leaf_wrr_rq_def
      Let_def dest!: bind_SomeD split: if_splits)

lemma dequeue_back_step:
  assumes "dequeue_back E (Some e) s = Some s1"
  shows "\<exists>t. tasks t = tasks s \<and> wrr_gses t = wrr_gses s \<and>
    dequeue_back E (wrr_back (get_wrr_se t e)) t = Some s1"
proof -
  have "Option.bind (if on_wrr_rq s e then dequeue_wrr_entity1 E e s else Some s)
      (\<lambda>s. dequeue_back E (wrr_back (get_wrr_se s e)) s) = Some s1"
    using assms unfolding dequeue_back.simps [of E "Some e"] by simp
  from bind_SomeD [OF this] show ?thesis
    by (auto split: if_splits dest: dequeue_wrr_entity1_frame)
qed

lemma enqueue_chain_step:
  assumes "enqueue_chain E (Some e) head s = Some s1"
  shows "\<exists>t. enqueue_wrr_entity1 E e head s = Some t \<and> tasks t = tasks s \<and>
    enqueue_chain E (wrr_parent (get_wrr_se t e)) head t = Some s1"
proof -
  have "Option.bind (enqueue_wrr_entity1 E e head s)
      (\<lambda>s. enqueue_chain E (wrr_parent (get_wrr_se s e)) head s) = Some s1"
    using assms unfolding enqueue_chain.simps [of E "Some e"] by simp
  from bind_SomeD [OF this] show ?thesis by (auto dest: enqueue_wrr_entity1_frame)
qed


lemma init_wrr_rq_frame [simp]:
  "tasks (init_wrr_rq q s) = tasks s" "wrr_gses (init_wrr_rq q s) = wrr_gses s"
  "task_groups (init_wrr_rq q s) = task_groups s"
proof -
  let ?f = "\<lambda>i s. upd_wrr_rq q (clear_wrr_bit i) (s\<lparr>wrr_list := init_head (q, i) (wrr_list s)\<rparr>)"
  have "tasks (fold ?f xs s) = tasks s \<and> wrr_gses (fold ?f xs s) = wrr_gses s \<and>
      task_groups (fold ?f xs s) = task_groups s" for xs
    by (induction xs arbitrary: s) simp_all
  then show "tasks (init_wrr_rq q s) = tasks s" "wrr_gses (init_wrr_rq q s) = wrr_gses s"
    "task_groups (init_wrr_rq q s) = task_groups s"
    by (simp_all add: init_wrr_rq_def Let_def)
qed

lemma init_tg_wrr_entry_group [simp]:
  "tasks (init_tg_wrr_entry tg q (Some (Se_of_group tg' k)) c parent s) = tasks s"
  "wrr_parent (wrr_gses (init_tg_wrr_entry tg q (Some (Se_of_group tg' k)) c parent s) tg' k) = parent"
  by (simp_all add: init_tg_wrr_entry_def upd_wrr_se_def Let_def)

lemma upd_group_se_frame [simp]:
  "tasks (upd_wrr_se (Se_of_group tg k) f s) = tasks s"
  "task_groups (upd_wrr_se (Se_of_group tg k) f s) = task_groups s"
  by (simp_all add: upd_wrr_se_def)

definition grouped :: kst where
  "grouped = upd_task 2 (\<lambda>t. t\<lparr>wrr := (wrr t)\<lparr>wrr_parent := Some (Se_of_group 7 0)\<rparr>\<rparr>) sample"


end
