(* ===== verification/Core_Queue.thy ===== *)
theory Core_Queue
  imports Kernel_State
begin

text \<open>
  The core scheduler's queueing layer (kernel/core.c): the run-queue clock, activation and
  deactivation of tasks, and the dispatch over the chain of scheduling classes in
  \<open>pick_next_task\<close>, \<open>check_preempt_curr\<close> and \<open>check_class_changed\<close>. The class tables are a
  parameter, because the stop, fair and idle classes are not in the repository.
\<close>

section \<open>The environment of the core\<close>

text \<open>
  \<open>ops\<close> gives every class its table. The rest is code outside the repository: clocks,
  credentials and resource limits, what other CPUs do while \<open>double_lock_balance\<close> drops a lock
  (if it does), the PI mutex code, security hooks, pid lookup, scheduler
  features and cache topology.
\<close>

record kenv =
  base :: env
  ops :: "sched_class \<Rightarrow> class_ops"
  sched_clock_cpu :: "kst \<Rightarrow> cpu \<Rightarrow> u64"
  rt_mutex_getprio :: "kst \<Rightarrow> tid \<Rightarrow> int"
  rlimit_nice :: "tid \<Rightarrow> ulong"
  rlimit_rtprio :: "tid \<Rightarrow> ulong"
  capable_nice :: bool
  cred_user_ns :: "tid \<Rightarrow> nat"
  cred_uid :: "tid \<Rightarrow> nat"
  cred_euid :: "tid \<Rightarrow> nat"
  security_setscheduler :: "tid \<Rightarrow> int"
  security_getscheduler :: "tid \<Rightarrow> int"
  security_setnice :: "tid \<Rightarrow> int \<Rightarrow> int"
  find_task_by_vpid :: "int \<Rightarrow> tid option"
  is_autogroup :: "tgid \<Rightarrow> bool"
  ttwu_queue_feat :: bool
  share_cache :: "cpu \<Rightarrow> cpu \<Rightarrow> bool"
  migration_cost :: u64
  signal_pending :: "kst \<Rightarrow> tid \<Rightarrow> bool"
  fatal_signal_pending :: "kst \<Rightarrow> tid \<Rightarrow> bool"
  PREEMPT_ACTIVE :: int
  rt_runtime_share :: bool
  cpupri_find :: "kst \<Rightarrow> nat \<Rightarrow> tid \<Rightarrow> cpu set option"
  sched_domains :: "cpu \<Rightarrow> (bool \<times> cpu set) list"
  rlimit_rttime :: "tid \<Rightarrow> ulong \<times> ulong"
  CPUPRI_INVALID :: int
  double_lock_balance :: "cpu \<Rightarrow> cpu \<Rightarrow> kst \<Rightarrow> bool \<times> kst"
  wq_sleeping :: "kst \<Rightarrow> tid \<Rightarrow> cpu \<Rightarrow> tid option"
  idle_balance :: "cpu \<Rightarrow> kst \<Rightarrow> kst"
  cpuset_fallback :: "kst \<Rightarrow> tid \<Rightarrow> cpu set"
  nodemask :: "cpu \<Rightarrow> cpu list"
  got_nohz_idle_kick :: "cpu \<Rightarrow> bool"
  cpuset_allowed :: "tid \<Rightarrow> cpu set"
  ns_capable_nice :: "tid \<Rightarrow> bool"
  alloc_cpumask_ok :: bool
  yield_to_task :: "sched_class \<Rightarrow> (cpu \<Rightarrow> tid \<Rightarrow> bool \<Rightarrow> kst \<Rightarrow> bool \<times> kst) option"

abbreviation current :: "kst \<Rightarrow> tid" where
  "current s \<equiv> curr (rqs s (this_cpu s))"

abbreviation class_of :: "kenv \<Rightarrow> kst \<Rightarrow> tid \<Rightarrow> class_ops" where
  "class_of K s p \<equiv> ops K (task_class (tasks s p))"

text \<open>An optional member of the class table: NULL means nothing is done.\<close>

definition opt_call :: "('a \<Rightarrow> kst \<Rightarrow> kst option) option \<Rightarrow> 'a \<Rightarrow> kst \<Rightarrow> kst option" where
  "opt_call f x s = (case f of None \<Rightarrow> Some s | Some g \<Rightarrow> g x s)"

definition rt_bandwidth_enabled :: "kst \<Rightarrow> bool" where
  "rt_bandwidth_enabled s \<longleftrightarrow> 0 \<le> sysctl_sched_rt_runtime (globals s)"

section \<open>The run-queue clock\<close>

text \<open>
  \<open>update_rq_clock_task\<close> without CONFIG_IRQ_TIME_ACCOUNTING and CONFIG_PARAVIRT_TIME_ACCOUNTING,
  which only subtract interrupt and steal time.
\<close>

definition update_rq_clock_task :: "cpu \<Rightarrow> u64 \<Rightarrow> kst \<Rightarrow> kst" where
  "update_rq_clock_task c delta s = upd_rq c (\<lambda>r. r\<lparr>clock_task := clock_task r + delta\<rparr>) s"

definition update_rq_clock :: "kenv \<Rightarrow> cpu \<Rightarrow> kst \<Rightarrow> kst" where
  "update_rq_clock K c s =
     (if skip_clock_update (rqs s c) > 0 then s
      else let delta = sched_clock_cpu K s c - clock (rqs s c);
               s = upd_rq c (\<lambda>r. r\<lparr>clock := clock r + delta\<rparr>) s
           in update_rq_clock_task c delta s)"

section \<open>Weights, enqueue and dequeue\<close>

text \<open>The tables are read only inside their bounds: another index is \<open>None\<close>.\<close>

definition table_at :: "'a list \<Rightarrow> int \<Rightarrow> 'a option" where
  "table_at xs i = (if 0 \<le> i \<and> nat i < length xs then Some (xs ! nat i) else None)"

definition set_load_weight :: "tid \<Rightarrow> kst \<Rightarrow> kst option" where
  "set_load_weight p s =
     (let idx = static_prio (tasks s p) - MAX_RT_PRIO;
          set = (\<lambda>w iw. upd_task p (\<lambda>t. t\<lparr>se := (se t)\<lparr>load := \<lparr>weight = w, inv_weight = iw\<rparr>\<rparr>\<rparr>) s) in
      if policy (tasks s p) = SCHED_IDLE then Some (set WEIGHT_IDLEPRIO WMULT_IDLEPRIO)
      else do {
        w \<leftarrow> table_at prio_to_weight idx;
        iw \<leftarrow> table_at prio_to_wmult idx;
        Some (set (word_of_int w) iw)
      })"

definition enqueue_task :: "kenv \<Rightarrow> cpu \<Rightarrow> tid \<Rightarrow> u32 \<Rightarrow> kst \<Rightarrow> kst option" where
  "enqueue_task K c p flags s =
     (let s = update_rq_clock K c s;
          s = ext (Task_note ''sched_info_queued'' p) s
      in op_enqueue_task (class_of K s p) c p flags s)"

definition dequeue_task :: "kenv \<Rightarrow> cpu \<Rightarrow> tid \<Rightarrow> u32 \<Rightarrow> kst \<Rightarrow> kst option" where
  "dequeue_task K c p flags s =
     (let s = update_rq_clock K c s;
          s = ext (Task_note ''sched_info_dequeued'' p) s
      in op_dequeue_task (class_of K s p) c p flags s)"

definition task_contributes_to_load :: "kst \<Rightarrow> tid \<Rightarrow> bool" where
  "task_contributes_to_load s p \<longleftrightarrow>
     tstate (tasks s p) AND TASK_UNINTERRUPTIBLE \<noteq> 0 \<and> tflags (tasks s p) AND PF_FROZEN = 0"

definition activate_task :: "kenv \<Rightarrow> cpu \<Rightarrow> tid \<Rightarrow> u32 \<Rightarrow> kst \<Rightarrow> kst option" where
  "activate_task K c p flags s =
     (let s = (if task_contributes_to_load s p
               then upd_rq c (\<lambda>r. r\<lparr>nr_uninterruptible := nr_uninterruptible r - 1\<rparr>) s else s)
      in enqueue_task K c p flags s)"

definition deactivate_task :: "kenv \<Rightarrow> cpu \<Rightarrow> tid \<Rightarrow> u32 \<Rightarrow> kst \<Rightarrow> kst option" where
  "deactivate_task K c p flags s =
     (let s = (if task_contributes_to_load s p
               then upd_rq c (\<lambda>r. r\<lparr>nr_uninterruptible := nr_uninterruptible r + 1\<rparr>) s else s)
      in dequeue_task K c p flags s)"

section \<open>Dispatch over the classes\<close>

definition task_curr :: "kst \<Rightarrow> tid \<Rightarrow> bool" where
  "task_curr s p \<longleftrightarrow> curr (rqs s (task_cpu s p)) = p"

definition check_class_changed :: "kenv \<Rightarrow> cpu \<Rightarrow> tid \<Rightarrow> sched_class \<Rightarrow> int \<Rightarrow> kst \<Rightarrow> kst option" where
  "check_class_changed K c p prev_class oldprio s =
     (if prev_class \<noteq> task_class (tasks s p) then do {
        s \<leftarrow> opt_call (map_option (\<lambda>f. f c) (op_switched_from (ops K prev_class))) p s;
        op_switched_to (class_of K s p) c p s
      }
      else if oldprio \<noteq> prio (tasks s p) then op_prio_changed (class_of K s p) c p oldprio s
      else Some s)"

text \<open>\<open>for_each_class\<close>: from \<open>sched_class_highest\<close> along \<open>next\<close>.\<close>

definition all_classes :: "sched_class list" where
  "all_classes = [stop_sched_class, rt_sched_class, wrr_sched_class, fair_sched_class, idle_sched_class]"

fun preempt_scan :: "kenv \<Rightarrow> cpu \<Rightarrow> tid \<Rightarrow> sched_class list \<Rightarrow> kst \<Rightarrow> kst" where
  "preempt_scan K c p [] s = s"
| "preempt_scan K c p (k # ks) s =
     (if k = task_class (tasks s (curr (rqs s c))) then s
      else if k = task_class (tasks s p) then resched_task (base K) (curr (rqs s c)) s
      else preempt_scan K c p ks s)"

definition check_preempt_curr :: "kenv \<Rightarrow> cpu \<Rightarrow> tid \<Rightarrow> u32 \<Rightarrow> kst \<Rightarrow> kst option" where
  "check_preempt_curr K c p flags s = do {
     s \<leftarrow> (if task_class (tasks s p) = task_class (tasks s (curr (rqs s c)))
          then op_check_preempt_curr (class_of K s (curr (rqs s c))) c p flags s
          else Some (preempt_scan K c p all_classes s));
     Some (if on_rq (tasks s (curr (rqs s c))) \<and> test_tsk_need_resched s (curr (rqs s c))
           then upd_rq c (\<lambda>r. r\<lparr>skip_clock_update := 1\<rparr>) s else s)
   }"

definition put_prev_task :: "kenv \<Rightarrow> cpu \<Rightarrow> tid \<Rightarrow> kst \<Rightarrow> kst option" where
  "put_prev_task K c prev s =
     (let s = (if on_rq (tasks s prev) \<or> skip_clock_update (rqs s c) < 0
               then update_rq_clock K c s else s)
      in op_put_prev_task (class_of K s prev) c prev s)"

fun pick_scan :: "kenv \<Rightarrow> cpu \<Rightarrow> sched_class list \<Rightarrow> kst \<Rightarrow> (tid \<times> kst) option" where
  "pick_scan K c [] s = None"
| "pick_scan K c (k # ks) s =
     Option.bind (op_pick_next_task (ops K k) c s)
       (\<lambda>(r, s). case r of Some p \<Rightarrow> Some (p, s) | None \<Rightarrow> pick_scan K c ks s)"

text \<open>The scan ends in \<open>BUG()\<close> when no class has a task.\<close>

definition pick_next_task :: "kenv \<Rightarrow> cpu \<Rightarrow> kst \<Rightarrow> (tid \<times> kst) option" where
  "pick_next_task K c s =
     (if nr_running (rqs s c) = cfs_h_nr_running (rqs s c) then
        Option.bind (op_pick_next_task (ops K fair_sched_class) c s)
          (\<lambda>(r, s). case r of Some p \<Rightarrow> Some (p, s) | None \<Rightarrow> pick_scan K c all_classes s)
      else pick_scan K c all_classes s)"

section \<open>Facts about the dispatch\<close>

fun class_rank :: "sched_class \<Rightarrow> nat" where
  "class_rank stop_sched_class = 0"
| "class_rank rt_sched_class = 1"
| "class_rank wrr_sched_class = 2"
| "class_rank fair_sched_class = 3"
| "class_rank idle_sched_class = 4"

instantiation sched_class :: linorder
begin

definition less_eq_sched_class :: "sched_class \<Rightarrow> sched_class \<Rightarrow> bool" where
  "less_eq_sched_class a b \<longleftrightarrow> class_rank a \<le> class_rank b"

definition less_sched_class :: "sched_class \<Rightarrow> sched_class \<Rightarrow> bool" where
  "less_sched_class a b \<longleftrightarrow> class_rank a < class_rank b"

instance
proof
  fix a b c :: sched_class
  show "(a < b) = (a \<le> b \<and> \<not> b \<le> a)"
    by (auto simp: less_eq_sched_class_def less_sched_class_def)
  show "a \<le> a" "a \<le> b \<Longrightarrow> b \<le> c \<Longrightarrow> a \<le> c" "a \<le> b \<or> b \<le> a"
    by (auto simp: less_eq_sched_class_def)
  show "a \<le> b \<Longrightarrow> b \<le> a \<Longrightarrow> a = b"
    by (cases a; cases b) (auto simp: less_eq_sched_class_def)
qed

end

text \<open>The list is the chain of \<open>next\<close> pointers, and the order of classes is its order.\<close>

lemma all_classes_chain:
  "i < 4 \<Longrightarrow> class_next (all_classes ! i) = Some (all_classes ! Suc i)"
  by (auto simp: all_classes_def less_Suc_eq numeral_eq_Suc)

lemma class_next_less: "class_next a = Some b \<Longrightarrow> a < b"
  by (cases a) (auto simp: less_sched_class_def)

lemma preempt_scan_all:
  assumes "task_class (tasks s p) \<noteq> task_class (tasks s (curr (rqs s c)))"
  shows "preempt_scan K c p all_classes s =
     (if task_class (tasks s p) < task_class (tasks s (curr (rqs s c)))
      then resched_task (base K) (curr (rqs s c)) s else s)"
  using assms
  by (cases "task_class (tasks s p)"; cases "task_class (tasks s (curr (rqs s c)))")
    (simp_all add: all_classes_def less_sched_class_def)

lemma resched_sets_need_resched [simp]: "ti_need_resched (tasks (resched_task E p s) p)"
  by (simp add: resched_task_def test_tsk_need_resched_def set_tsk_need_resched_def ext_def Let_def)

lemma pick_scan_skip:
  "op_pick_next_task (ops K k) c s = Some (None, s') \<Longrightarrow> pick_scan K c (k # ks) s = pick_scan K c ks s'"
  by simp

lemma pick_scan_hit:
  "op_pick_next_task (ops K k) c s = Some (Some p, s') \<Longrightarrow> pick_scan K c (k # ks) s = Some (p, s')"
  by simp

end
