(* ===== verification/Core_Load.thy ===== *)
theory Core_Load
  imports Core_Queue
begin

text \<open>
  Load accounting (kernel/core.c): the counters read by /proc, the global load average with its
  idle folding, the per-CPU \<open>cpu_load\<close> averages with the missed-tick decay table, and the decay of
  \<open>rt_avg\<close>. \<open>unsigned long\<close> and \<open>long\<close> are 32 bits wide, as on the target.
\<close>

section \<open>Counters\<close>

definition calc_nr_running :: "kst \<Rightarrow> ulong" where
  "calc_nr_running s = fold (\<lambda>i sum. sum + nr_running (rqs s i)) (filter (\<lambda>c. c \<in> cpu_online s) [0..<nr_cpus s]) 0"

definition calc_nr_uninterruptible :: "kst \<Rightarrow> ulong" where
  "calc_nr_uninterruptible s =
     (let sum = fold (\<lambda>i sum. sum + nr_uninterruptible (rqs s i)) [0..<nr_cpus s] 0
      in if sint sum < 0 then 0 else sum)"

definition nr_context_switches :: "kst \<Rightarrow> u64" where
  "nr_context_switches s = fold (\<lambda>i sum. sum + nr_switches (rqs s i)) [0..<nr_cpus s] 0"

definition calc_nr_iowait :: "kst \<Rightarrow> ulong" where
  "calc_nr_iowait s = fold (\<lambda>i sum. sum + word_of_int (nr_iowait (rqs s i))) [0..<nr_cpus s] 0"

definition nr_iowait_cpu :: "kst \<Rightarrow> cpu \<Rightarrow> ulong" where
  "nr_iowait_cpu s c = word_of_int (nr_iowait (rqs s c))"

definition this_cpu_load :: "kst \<Rightarrow> ulong" where
  "this_cpu_load s = cpu_load (rqs s (this_cpu s)) 0"

section \<open>The global load average\<close>

definition FSHIFT :: nat where "FSHIFT = 11"
definition FIXED_1 :: ulong where "FIXED_1 = push_bit FSHIFT 1"
definition EXP_1 :: ulong where "EXP_1 = 1884"
definition EXP_5 :: ulong where "EXP_5 = 2014"
definition EXP_15 :: ulong where "EXP_15 = 2037"

definition LOAD_FREQ :: "env \<Rightarrow> ulong" where
  "LOAD_FREQ E = word_of_nat (5 * HZ E + 1)"

definition time_before :: "ulong \<Rightarrow> ulong \<Rightarrow> bool" where
  "time_before a b \<longleftrightarrow> sint (a - b) < 0"

definition get_avenrun :: "ulong \<Rightarrow> nat \<Rightarrow> kst \<Rightarrow> ulong list" where
  "get_avenrun offset shift s = map (\<lambda>i. push_bit shift (avenrun (gload s) i + offset)) [0..<3]"

definition calc_load_fold_active :: "cpu \<Rightarrow> kst \<Rightarrow> ulong \<times> kst" where
  "calc_load_fold_active c s =
     (let nr_active = nr_running (rqs s c) + nr_uninterruptible (rqs s c) in
      if nr_active \<noteq> calc_load_active (rqs s c)
      then (nr_active - calc_load_active (rqs s c), upd_rq c (\<lambda>r. r\<lparr>calc_load_active := nr_active\<rparr>) s)
      else (0, s))"

definition calc_load :: "ulong \<Rightarrow> ulong \<Rightarrow> ulong \<Rightarrow> ulong" where
  "calc_load ld ex active =
     (let ld = ld * ex;
          ld = ld + active * (FIXED_1 - ex);
          ld = ld + push_bit (FSHIFT - 1) 1
      in drop_bit FSHIFT ld)"

abbreviation upd_gload :: "(load_globals \<Rightarrow> load_globals) \<Rightarrow> kst \<Rightarrow> kst" where
  "upd_gload f s \<equiv> s\<lparr>gload := f (gload s)\<rparr>"

definition calc_load_write_idx :: "kst \<Rightarrow> nat" where
  "calc_load_write_idx s =
     (let idx = calc_load_idx (gload s);
          idx = (if \<not> time_before (jiffies s) (g_calc_load_update (gload s)) then idx + 1 else idx)
      in unat (idx AND 1))"

definition calc_load_read_idx :: "kst \<Rightarrow> nat" where
  "calc_load_read_idx s = unat (calc_load_idx (gload s) AND 1)"

definition calc_load_enter_idle :: "kst \<Rightarrow> kst" where
  "calc_load_enter_idle s =
     (let (delta, s) = calc_load_fold_active (this_cpu s) s in
      if delta \<noteq> 0 then
        let idx = calc_load_write_idx s in
        upd_gload (\<lambda>g. g\<lparr>calc_load_idle := (calc_load_idle g)(idx := calc_load_idle g idx + delta)\<rparr>) s
      else s)"

definition calc_load_exit_idle :: "env \<Rightarrow> kst \<Rightarrow> kst" where
  "calc_load_exit_idle E s =
     (let c = this_cpu s in
      if time_before (jiffies s) (calc_load_update (rqs s c)) then s
      else let s = upd_rq c (\<lambda>r. r\<lparr>calc_load_update := g_calc_load_update (gload s)\<rparr>) s in
        if time_before (jiffies s) (calc_load_update (rqs s c) + 10)
        then upd_rq c (\<lambda>r. r\<lparr>calc_load_update := calc_load_update r + LOAD_FREQ E\<rparr>) s
        else s)"

definition calc_load_fold_idle :: "kst \<Rightarrow> ulong \<times> kst" where
  "calc_load_fold_idle s =
     (let idx = calc_load_read_idx s in
      if calc_load_idle (gload s) idx \<noteq> 0
      then (calc_load_idle (gload s) idx,
            upd_gload (\<lambda>g. g\<lparr>calc_load_idle := (calc_load_idle g)(idx := 0)\<rparr>) s)
      else (0, s))"

text \<open>\<open>fixed_power_int\<close>: the loop runs once per bit of \<open>n\<close>.\<close>

lemma unat_halve:
  fixes n :: "'a::len word"
  shows "n \<noteq> 0 \<Longrightarrow> unat (drop_bit 1 n) < unat n"
proof -
  assume "n \<noteq> 0"
  then have "0 < unat n" by (simp add: unat_gt_0)
  then have "unat n div 2 < unat n" by simp
  moreover have "unat (drop_bit 1 n) = unat n div 2"
    by (simp only: unat_drop_bit_eq) (simp add: drop_bit_eq_div)
  ultimately show ?thesis by simp
qed

function fixed_power_loop :: "ulong \<Rightarrow> nat \<Rightarrow> u32 \<Rightarrow> ulong \<Rightarrow> ulong" where
  "fixed_power_loop x frac_bits n result =
     (let result = (if n AND 1 \<noteq> 0
                    then drop_bit frac_bits (result * x + push_bit (frac_bits - 1) 1) else result);
          n = drop_bit 1 n in
      if n = 0 then result
      else fixed_power_loop (drop_bit frac_bits (x * x + push_bit (frac_bits - 1) 1)) frac_bits n result)"
  by pat_completeness auto
termination
proof (relation "measure (\<lambda>(_, _, n, _). unat n)")
  fix x :: ulong and frac_bits and n :: u32 and result xa xb
  assume "xb = drop_bit 1 n" "xb \<noteq> 0"
  then show "((drop_bit frac_bits (x * x + push_bit (frac_bits - 1) 1), frac_bits, xb, xa), x, frac_bits, n, result)
        \<in> measure (\<lambda>(_, _, n, _). unat n)"
    using unat_halve [of n] by (cases "n = 0") auto
qed simp

declare fixed_power_loop.simps [simp del]

definition fixed_power_int :: "ulong \<Rightarrow> nat \<Rightarrow> u32 \<Rightarrow> ulong" where
  "fixed_power_int x frac_bits n =
     (let result = push_bit frac_bits 1 in
      if n \<noteq> 0 then fixed_power_loop x frac_bits n result else result)"

definition calc_load_n :: "ulong \<Rightarrow> ulong \<Rightarrow> ulong \<Rightarrow> u32 \<Rightarrow> ulong" where
  "calc_load_n ld ex active n = calc_load ld (fixed_power_int ex FSHIFT n) active"

text \<open>The three averages are updated by the same function with their own exponent.\<close>

definition avenrun_step :: "(ulong \<Rightarrow> ulong \<Rightarrow> ulong) \<Rightarrow> kst \<Rightarrow> kst" where
  "avenrun_step f s =
     upd_gload (\<lambda>g. g\<lparr>avenrun := (avenrun g)(0 := f (avenrun g 0) EXP_1, 1 := f (avenrun g 1) EXP_5,
                                             2 := f (avenrun g 2) EXP_15)\<rparr>) s"

definition active_tasks :: "kst \<Rightarrow> ulong" where
  "active_tasks s = (if sint (calc_load_tasks (gload s)) > 0 then calc_load_tasks (gload s) * FIXED_1 else 0)"

text \<open>Signed division by the positive \<open>LOAD_FREQ\<close>; \<open>delta\<close> is not negative here.\<close>

definition calc_global_nohz :: "env \<Rightarrow> kst \<Rightarrow> kst" where
  "calc_global_nohz E s =
     (let s = (if \<not> time_before (jiffies s) (g_calc_load_update (gload s) + 10) then
                 let delta = jiffies s - g_calc_load_update (gload s) - 10;
                     n = 1 + delta div LOAD_FREQ E;
                     active = active_tasks s;
                     s = avenrun_step (\<lambda>ld ex. calc_load_n ld ex active n) s
                 in upd_gload (\<lambda>g. g\<lparr>g_calc_load_update := g_calc_load_update g + n * LOAD_FREQ E\<rparr>) s
               else s)
      in upd_gload (\<lambda>g. g\<lparr>calc_load_idx := calc_load_idx g + 1\<rparr>) s)"

definition calc_global_load :: "env \<Rightarrow> ulong \<Rightarrow> kst \<Rightarrow> kst" where
  "calc_global_load E ticks s =
     (if time_before (jiffies s) (g_calc_load_update (gload s) + 10) then s
      else
        let (delta, s) = calc_load_fold_idle s;
            s = (if delta \<noteq> 0 then upd_gload (\<lambda>g. g\<lparr>calc_load_tasks := calc_load_tasks g + delta\<rparr>) s else s);
            active = active_tasks s;
            s = avenrun_step (\<lambda>ld ex. calc_load ld ex active) s;
            s = upd_gload (\<lambda>g. g\<lparr>g_calc_load_update := g_calc_load_update g + LOAD_FREQ E\<rparr>) s
        in calc_global_nohz E s)"

definition calc_load_account_active :: "env \<Rightarrow> cpu \<Rightarrow> kst \<Rightarrow> kst" where
  "calc_load_account_active E c s =
     (if time_before (jiffies s) (calc_load_update (rqs s c)) then s
      else
        let (delta, s) = calc_load_fold_active c s;
            s = (if delta \<noteq> 0 then upd_gload (\<lambda>g. g\<lparr>calc_load_tasks := calc_load_tasks g + delta\<rparr>) s else s)
        in upd_rq c (\<lambda>r. r\<lparr>calc_load_update := calc_load_update r + LOAD_FREQ E\<rparr>) s)"

section \<open>Per-CPU load\<close>

definition CPU_LOAD_IDX_MAX :: nat where "CPU_LOAD_IDX_MAX = 5"
definition DEGRADE_SHIFT :: nat where "DEGRADE_SHIFT = 7"

definition degrade_zero_ticks :: "nat list" where
  "degrade_zero_ticks = [0, 8, 32, 64, 128]"

text \<open>Rows with seven initialisers have a zero in the eighth column.\<close>

definition degrade_factor :: "ulong list list" where
  "degrade_factor =
    [[0, 0, 0, 0, 0, 0, 0, 0],
     [64, 32, 8, 0, 0, 0, 0, 0],
     [96, 72, 40, 12, 1, 0, 0, 0],
     [112, 98, 75, 43, 15, 1, 0, 0],
     [120, 112, 98, 76, 45, 16, 2, 0]]"

text \<open>A table read outside its bounds is \<open>None\<close>.\<close>

function degrade_loop :: "ulong \<Rightarrow> ulong \<Rightarrow> nat \<Rightarrow> nat \<Rightarrow> ulong option" where
  "degrade_loop ld missed_updates idx j =
     (if missed_updates = 0 then Some ld
      else do {
        row \<leftarrow> table_at degrade_factor (int idx);
        ld \<leftarrow> (if missed_updates mod 2 \<noteq> 0
                then map_option (\<lambda>f. drop_bit DEGRADE_SHIFT (ld * f)) (table_at row (int j))
                else Some ld);
        degrade_loop ld (drop_bit 1 missed_updates) idx (j + 1)
      })"
  by pat_completeness auto
termination
proof (relation "measure (\<lambda>(_, n, _, _). unat n)")
  fix ld n :: ulong and idx j row and ld' :: ulong
  assume "n \<noteq> 0"
  then show "((ld', drop_bit 1 n, idx, j + 1), ld, n, idx, j) \<in> measure (\<lambda>(_, n, _, _). unat n)"
    using unat_halve [of n] by simp
qed simp

declare degrade_loop.simps [simp del]

definition decay_load_missed :: "ulong \<Rightarrow> ulong \<Rightarrow> nat \<Rightarrow> ulong option" where
  "decay_load_missed ld missed_updates idx =
     (if missed_updates = 0 then Some ld
      else do {
     z \<leftarrow> table_at degrade_zero_ticks (int idx);
     if missed_updates \<ge> word_of_nat z then Some 0
     else if idx = 1 then Some (drop_bit (unat missed_updates) ld)
     else degrade_loop ld missed_updates idx 0
   })"

text \<open>\<open>sched_avg_update\<close>: with a period of zero the loop never ends.\<close>

definition sched_avg_period :: "kst \<Rightarrow> u64" where
  "sched_avg_period s = ucast (sysctl_sched_time_avg (globals s)) * 1000000 div 2"

partial_function (option) sched_avg_loop :: "u64 \<Rightarrow> cpu \<Rightarrow> kst \<Rightarrow> kst option" where
  "sched_avg_loop period c s =
     (if sint (clock (rqs s c) - age_stamp (rqs s c)) > sint period
      then sched_avg_loop period c
             (upd_rq c (\<lambda>r. r\<lparr>age_stamp := age_stamp r + period, rt_avg := rt_avg r div 2\<rparr>) s)
      else Some s)"

definition sched_avg_update :: "cpu \<Rightarrow> kst \<Rightarrow> kst option" where
  "sched_avg_update c s = sched_avg_loop (sched_avg_period s) c s"

text \<open>The loop over the load indices of \<open>update_cpu_load\<close>.\<close>

fun cpu_load_loop :: "ulong \<Rightarrow> ulong \<Rightarrow> cpu \<Rightarrow> nat list \<Rightarrow> kst \<Rightarrow> kst option" where
  "cpu_load_loop this_load pending_updates c [] s = Some s"
| "cpu_load_loop this_load pending_updates c (i # is) s =
     Option.bind (decay_load_missed (cpu_load (rqs s c) i) (pending_updates - 1) i) (\<lambda>old_load.
       let scale = push_bit i 1;
           new_load = (if this_load > old_load then this_load + (scale - 1) else this_load);
           s = upd_rq c (\<lambda>r. r\<lparr>cpu_load := (cpu_load r)(i := drop_bit i (old_load * (scale - 1) + new_load))\<rparr>) s
       in cpu_load_loop this_load pending_updates c is s)"

definition update_cpu_load :: "cpu \<Rightarrow> kst \<Rightarrow> kst option" where
  "update_cpu_load c s =
     (let this_load = weight (rq_load (rqs s c));
          curr_jiffies = jiffies s;
          s = upd_rq c (\<lambda>r. r\<lparr>nr_load_updates := nr_load_updates r + 1\<rparr>) s in
      if curr_jiffies = last_load_update_tick (rqs s c) then Some s
      else do {
        let pending_updates = curr_jiffies - last_load_update_tick (rqs s c);
        let s = upd_rq c (\<lambda>r. r\<lparr>last_load_update_tick := curr_jiffies\<rparr>) s;
        let s = upd_rq c (\<lambda>r. r\<lparr>cpu_load := (cpu_load r)(0 := this_load)\<rparr>) s;
        s \<leftarrow> cpu_load_loop this_load pending_updates c [1..<CPU_LOAD_IDX_MAX] s;
        sched_avg_update c s
      })"

definition update_cpu_load_active :: "env \<Rightarrow> cpu \<Rightarrow> kst \<Rightarrow> kst option" where
  "update_cpu_load_active E c s = do {
     s \<leftarrow> update_cpu_load c s;
     Some (calc_load_account_active E c s)
   }"

end
