(* ===== verification/Core_Load_Spec.thy ===== *)
theory Core_Load_Spec
  imports Core_Load Wrr_Queue
begin

text \<open>
  Properties of the load accounting: the averages stay between the old load and the activity, the
  decay of missed ticks reads its tables inside their bounds and never increases the load, and the
  decay of \<open>rt_avg\<close> ends exactly when its period is not zero.
\<close>

section \<open>The load average\<close>

lemma calc_load_nat:
  assumes "L \<le> 2 ^ 20" "A \<le> 2 ^ 20" "e \<le> 2048"
  shows "unat (calc_load (of_nat L) (of_nat e) (of_nat A)) = (L * e + A * (2048 - e) + 1024) div 2048"
proof -
  have "L * e \<le> 2 ^ 20 * 2048" "A * (2048 - e) \<le> 2 ^ 20 * 2048"
    using assms by (intro mult_le_mono; simp)+
  have "L * e + A * (2048 - e) \<le> 2 ^ 20 * e + 2 ^ 20 * (2048 - e)"
    using assms by (intro add_mono mult_le_mono) auto
  also have "\<dots> = 2 ^ 31" using assms(3) by (simp flip: distrib_left)
  finally have le: "L * e + A * (2048 - e) + 1024 < 2 ^ 32" by simp
  have "(2048 :: ulong) - of_nat e = of_nat (2048 - e)" using assms(3) by simp
  then have "(of_nat L * of_nat e + of_nat A * (2048 - of_nat e) + 1024 :: ulong)
      = of_nat (L * e + A * (2048 - e) + 1024)" by simp
  moreover have "unat (of_nat (L * e + A * (2048 - e) + 1024) :: ulong) = L * e + A * (2048 - e) + 1024"
    using le by (simp only: unat_of_nat len_num1) simp
  moreover have "FIXED_1 = 2048" "push_bit (FSHIFT - 1) 1 = (1024 :: ulong)"
    by (simp_all add: FIXED_1_def FSHIFT_def push_bit_eq_mult)
  ultimately show ?thesis
    unfolding calc_load_def Let_def
    by (simp only: unat_drop_bit_eq FSHIFT_def) (simp add: drop_bit_eq_div)
qed

lemma calc_load_between:
  assumes "ld \<le> 2 ^ 20" "active \<le> 2 ^ 20" "ex \<le> 2048"
  shows "min (unat ld) (unat active) \<le> unat (calc_load ld ex active)"
    "unat (calc_load ld ex active) \<le> max (unat ld) (unat active)"
proof -
  let ?L = "unat ld" and ?A = "unat active" and ?e = "unat ex"
  have b: "?L \<le> 2 ^ 20" "?A \<le> 2 ^ 20" "?e \<le> 2048" using assms by (simp_all add: word_le_nat_alt)
  have eq: "unat (calc_load ld ex active) = (?L * ?e + ?A * (2048 - ?e) + 1024) div 2048"
    using calc_load_nat [OF b] by simp
  have sum: "m * ?e + m * (2048 - ?e) = m * 2048" for m
    using b(3) by (simp flip: distrib_left)
  have "min ?L ?A * ?e + min ?L ?A * (2048 - ?e) \<le> ?L * ?e + ?A * (2048 - ?e)"
    by (intro add_mono mult_le_mono) auto
  then show "min ?L ?A \<le> unat (calc_load ld ex active)" by (simp add: eq sum less_eq_div_iff_mult_less_eq)
  have "?L * ?e + ?A * (2048 - ?e) \<le> max ?L ?A * ?e + max ?L ?A * (2048 - ?e)"
    by (intro add_mono mult_le_mono) auto
  then have "?L * ?e + ?A * (2048 - ?e) + 1024 < (max ?L ?A + 1) * 2048" by (simp add: sum)
  then show "unat (calc_load ld ex active) \<le> max ?L ?A"
    using div_less_iff_less_mult [of 2048 "?L * ?e + ?A * (2048 - ?e) + 1024" "max ?L ?A + 1"] by (simp add: eq)
qed



section \<open>Missed ticks\<close>

lemma table_at_nth: "i < length xs \<Longrightarrow> table_at xs (int i) = Some (xs ! i)"
  by (simp add: table_at_def)

lemma degrade_factor_le:
  assumes "idx < 5" "j < 8"
  shows "length degrade_factor = 5 \<and> length (degrade_factor ! idx) = 8 \<and> degrade_factor ! idx ! j \<le> 128"
proof -
  have "\<forall>i \<in> set [0..<5]. \<forall>k \<in> set [0..<8]. length degrade_factor = 5 \<and> length (degrade_factor ! i) = 8 \<and>
      degrade_factor ! i ! k \<le> 128"
    by code_simp
  then show ?thesis using assms by simp
qed

text \<open>Scaling by at most 128/128 does not increase a load that leaves room for the product.\<close>

lemma degrade_mult_le:
  fixes ld f :: ulong
  assumes "ld < 2 ^ 25" "f \<le> 128"
  shows "drop_bit DEGRADE_SHIFT (ld * f) \<le> ld"
proof -
  have f: "unat f \<le> 128" and l: "unat ld < 2 ^ 25" using assms by (simp_all add: word_le_nat_alt word_less_nat_alt)
  have "unat ld * unat f \<le> unat ld * 128" using f by simp
  also have "\<dots> < 2 ^ 32" using l by simp
  finally have "unat (ld * f) = unat ld * unat f" by (simp add: unat_word_ariths)
  then have "unat (drop_bit DEGRADE_SHIFT (ld * f)) = unat ld * unat f div 128"
    by (simp only: unat_drop_bit_eq DEGRADE_SHIFT_def) (simp add: drop_bit_eq_div)
  also have "\<dots> \<le> unat ld" using f by (simp add: div_le_mono le_trans [OF div_le_mono [of _ "unat ld * 128"]])
  finally show ?thesis by (simp add: word_le_nat_alt)
qed

lemma degrade_loop_total:
  assumes "idx < 5" "unat missed < 2 ^ (8 - j)" "j \<le> 8"
  shows "\<exists>r. degrade_loop ld missed idx j = Some r \<and> (ld < 2 ^ 25 \<longrightarrow> r \<le> ld)"
  using assms(2,3)
proof (induction "8 - j" arbitrary: j ld missed)
  case 0
  then have "missed = 0" by (simp add: unat_eq_zero)
  then show ?case by (simp add: degrade_loop.simps)
next
  case (Suc k)
  show ?case
  proof (cases "missed = 0")
    case True
    then show ?thesis by (simp add: degrade_loop.simps)
  next
    case False
    have j: "j < 8" and k: "k = 8 - (j + 1)" using Suc.hyps(2) by simp_all
    note deg = degrade_factor_le [OF assms(1) j]
    define l' where "l' = (if missed mod 2 \<noteq> 0 then drop_bit DEGRADE_SHIFT (ld * degrade_factor ! idx ! j) else ld)"
    have l': "ld < 2 ^ 25 \<longrightarrow> l' \<le> ld" using degrade_mult_le deg by (simp add: l'_def)
    have "unat (drop_bit 1 missed) = unat missed div 2"
      by (simp only: unat_drop_bit_eq) (simp add: drop_bit_eq_div)
    moreover have "(2::nat) ^ (8 - j) = 2 * 2 ^ (8 - (j + 1))" using Suc.hyps(2)
      by (metis Suc_diff_Suc diff_Suc_Suc j add.commute plus_1_eq_Suc power_Suc)
    ultimately have m: "unat (drop_bit 1 missed) < 2 ^ (8 - (j + 1))" using Suc.prems(1) by simp
    have "degrade_loop ld missed idx j = degrade_loop l' (drop_bit 1 missed) idx (j + 1)"
      using False deg assms(1) j
      by (subst degrade_loop.simps) (simp add: table_at_nth l'_def)
    moreover have "\<exists>r. degrade_loop l' (drop_bit 1 missed) idx (j + 1) = Some r \<and> (l' < 2 ^ 25 \<longrightarrow> r \<le> l')"
      using k m j by (intro Suc.hyps(1)) auto
    ultimately show ?thesis using l' by (auto intro: order.trans le_less_trans)
  qed
qed

lemma decay_load_missed_total:
  assumes "idx < CPU_LOAD_IDX_MAX"
  shows "\<exists>r. decay_load_missed ld missed idx = Some r \<and> (missed = 0 \<longrightarrow> r = ld) \<and>
    (missed \<noteq> 0 \<and> degrade_zero_ticks ! idx \<le> unat missed \<longrightarrow> r = 0) \<and> (ld < 2 ^ 25 \<longrightarrow> r \<le> ld)"
proof -
  have idx: "idx < 5" using assms by (simp add: CPU_LOAD_IDX_MAX_def)
  define z where "z = degrade_zero_ticks ! idx"
  have "\<forall>i \<in> set [0..<5]. degrade_zero_ticks ! i \<le> 128 \<and> length degrade_zero_ticks = 5" by code_simp
  then have z: "z \<le> 128" "table_at degrade_zero_ticks (int idx) = Some z"
    using idx by (auto simp: z_def intro: table_at_nth)
  have cut: "word_of_nat z \<le> missed \<longleftrightarrow> z \<le> unat missed"
    using z(1) by (simp add: word_le_nat_alt unat_of_nat)
  show ?thesis
  proof (cases "missed = 0 \<or> z \<le> unat missed")
    case True
    then show ?thesis using z(2) cut by (auto simp: decay_load_missed_def simp flip: z_def)
  next
    case False
    have shr: "drop_bit n ld \<le> ld" for n
      by (simp only: word_le_nat_alt unat_drop_bit_eq) (simp add: drop_bit_eq_div)
    obtain r where "degrade_loop ld missed idx 0 = Some r" "ld < 2 ^ 25 \<longrightarrow> r \<le> ld"
      using degrade_loop_total [OF idx, of missed 0 ld] False z(1) by auto
    then show ?thesis
      using False z(2) cut shr by (auto simp: decay_load_missed_def simp flip: z_def)
  qed
qed

text \<open>C35: Decaying a CPU's load over missed ticks always terminates with both tables read inside
  their bounds, for each of the five indices and any number of ticks; the result is the load
  itself for no missed tick, zero from the index's cut-off on, and never more than the old load
  as long as that leaves seven bits of room.\<close>

theorem decay_load_missed_bounds:
  assumes "idx < CPU_LOAD_IDX_MAX"
  shows "\<exists>r. decay_load_missed ld missed idx = Some r \<and> (missed = 0 \<longrightarrow> r = ld) \<and>
    (missed \<noteq> 0 \<and> degrade_zero_ticks ! idx \<le> unat missed \<longrightarrow> r = 0) \<and> (ld < 2 ^ 25 \<longrightarrow> r \<le> ld)"
  using assms by (rule decay_load_missed_total)

theorem decay_load_missed_bounds_witness:
  "\<exists>r. decay_load_missed 1024 5 2 = Some r \<and> r \<le> 1024"
  using decay_load_missed_bounds [of 2 1024 5] by (auto simp: CPU_LOAD_IDX_MAX_def)

section \<open>The decay of rt_avg\<close>

lemma sint_sub_positive:
  fixes d p :: u64
  assumes "sint p < sint d" "0 \<le> sint p"
  shows "sint (d - p) = sint d - sint p"
proof -
  have "sint d < 2 ^ 63" using sint_lt [of d] by simp
  then show ?thesis
    using assms signed_take_bit_int_eq_self [of 63 "sint d - sint p"] by (simp add: sint_word_ariths)
qed

lemma sched_avg_loop_terminates:
  assumes "0 < sint period"
  shows "\<exists>s' n. sched_avg_loop period c s = Some s' \<and>
    s' = upd_rq c (\<lambda>r. r\<lparr>age_stamp := age_stamp (rqs s c) + of_nat n * period,
                        rt_avg := drop_bit n (rt_avg (rqs s c))\<rparr>) s \<and>
    sint (clock (rqs s c) - age_stamp (rqs s' c)) \<le> sint period"
proof (induction "nat (sint (clock (rqs s c) - age_stamp (rqs s c)))" arbitrary: s rule: less_induct)
  case less
  let ?d = "clock (rqs s c) - age_stamp (rqs s c)"
  show ?case
  proof (cases "sint period < sint ?d")
    case False
    then show ?thesis
      by (subst sched_avg_loop.simps) (auto intro!: exI [of _ 0] simp: fun_upd_idem)
  next
    case True
    let ?s = "upd_rq c (\<lambda>r. r\<lparr>age_stamp := age_stamp r + period, rt_avg := rt_avg r div 2\<rparr>) s"
    have "sint (?d - period) = sint ?d - sint period"
      using sint_sub_positive [OF True] assms by simp
    then have "nat (sint (clock (rqs ?s c) - age_stamp (rqs ?s c))) < nat (sint ?d)"
      using True assms by (simp add: algebra_simps)
    from less [OF this] obtain s' n where s': "sched_avg_loop period c ?s = Some s'"
      "s' = upd_rq c (\<lambda>r. r\<lparr>age_stamp := age_stamp (rqs ?s c) + of_nat n * period,
                           rt_avg := drop_bit n (rt_avg (rqs ?s c))\<rparr>) ?s"
      "sint (clock (rqs ?s c) - age_stamp (rqs s' c)) \<le> sint period" by blast
    have half: "drop_bit n (x div 2) = drop_bit (Suc n) x" for x :: u64
      by (simp add: drop_bit_Suc)
    have "sched_avg_loop period c s = Some s'"
      using True s'(1) by (subst sched_avg_loop.simps) simp
    moreover have "s' = upd_rq c (\<lambda>r. r\<lparr>age_stamp := age_stamp (rqs s c) + of_nat (Suc n) * period,
        rt_avg := drop_bit (Suc n) (rt_avg (rqs s c))\<rparr>) s"
      using s'(2) half by (simp add: algebra_simps)
    ultimately show ?thesis using s'(3) by (intro exI [of _ s'] exI [of _ "Suc n"]) simp
  qed
qed

lemma sched_avg_loop_zero:
  assumes "sched_avg_loop period c s = Some s'"
  shows "period = 0 \<longrightarrow> \<not> 0 < sint (clock (rqs s c) - age_stamp (rqs s c))"
proof (rule sched_avg_loop.raw_induct [OF _ assms, where P = "\<lambda>period c s _. period = 0 \<longrightarrow>
      \<not> 0 < sint (clock (rqs s c) - age_stamp (rqs s c))"], intro impI notI)
  fix loop :: "u64 \<Rightarrow> cpu \<Rightarrow> kst \<Rightarrow> kst option" and period c s s'
  let ?s = "upd_rq c (\<lambda>r. r\<lparr>age_stamp := age_stamp r + period, rt_avg := rt_avg r div 2\<rparr>) s"
  assume IH: "\<And>period c s s'. loop period c s = Some s' \<Longrightarrow>
      period = 0 \<longrightarrow> \<not> 0 < sint (clock (rqs s c) - age_stamp (rqs s c))"
    and step: "(if sint (clock (rqs s c) - age_stamp (rqs s c)) > sint period then loop period c ?s else Some s) = Some s'"
    and zero: "period = 0" and pos: "0 < sint (clock (rqs s c) - age_stamp (rqs s c))"
  have "loop period c ?s = Some s'" using step zero pos by simp
  from IH [OF this] show False using zero pos by simp
qed

lemma sched_avg_period_pos:
  "0 \<le> sint (sched_avg_period s) \<and> (0 < sint (sched_avg_period s) \<longleftrightarrow> sysctl_sched_time_avg (globals s) \<noteq> 0)"
proof -
  let ?t = "unat (sysctl_sched_time_avg (globals s))"
  have t: "?t < 2 ^ 32" by (rule order_less_le_trans [OF unsigned_less]) simp
  then have "unat (ucast (sysctl_sched_time_avg (globals s)) * 1000000 :: u64) = ?t * 1000000"
    by (simp add: unat_word_ariths unsigned_ucast_eq take_bit_nat_eq_self)
  note prod = this
  have u: "unat (sched_avg_period s) = ?t * 500000"
  proof -
    have two: "unat (2 :: u64) = 2" by simp
    have "unat (sched_avg_period s) = ?t * 1000000 div 2"
      unfolding sched_avg_period_def by (subst unat_div) (simp only: prod two)
    then show ?thesis by linarith
  qed
  have "uint (sched_avg_period s) = int (unat (sched_avg_period s))" by simp
  also have "\<dots> = int ?t * 500000" unfolding u by simp
  finally have "uint (sched_avg_period s) = int ?t * 500000" .
  moreover have "signed_take_bit 63 (int n * 500000) = int n * 500000" if "n < 2 ^ 32" for n
    using that by (intro signed_take_bit_int_eq_self) auto
  note this [OF t]
  moreover have "sint (sched_avg_period s) = signed_take_bit 63 (uint (sched_avg_period s))"
    by (simp add: sint_uint)
  ultimately have eq: "sint (sched_avg_period s) = int ?t * 500000" by simp
  have "?t = 0 \<longleftrightarrow> sysctl_sched_time_avg (globals s) = 0" by (simp add: unat_eq_zero)
  then have "0 < int ?t * 500000 \<longleftrightarrow> sysctl_sched_time_avg (globals s) \<noteq> 0"
    using zero_less_mult_iff [of "int ?t" 500000] by (simp only: of_nat_0_less_iff) linarith
  then show ?thesis unfolding eq by simp
qed

text \<open>C36: The decay loop of rt_avg ends exactly when it should not spin: with a non-zero
  sysctl_sched_time_avg it returns for every clock, having moved age_stamp by whole periods to
  within one period of the clock and halved rt_avg once per period; with the sysctl at zero and
  a clock ahead of age_stamp it never returns, so every tick and every RT charge hangs.\<close>

theorem sched_avg_update_terminates:
  "(sysctl_sched_time_avg (globals s) \<noteq> 0 \<longrightarrow>
      (\<exists>s' n. sched_avg_update c s = Some s' \<and>
         age_stamp (rqs s' c) = age_stamp (rqs s c) + of_nat n * sched_avg_period s \<and>
         rt_avg (rqs s' c) = drop_bit n (rt_avg (rqs s c)) \<and>
         sint (clock (rqs s c) - age_stamp (rqs s' c)) \<le> sint (sched_avg_period s))) \<and>
   (sysctl_sched_time_avg (globals s) = 0 \<and> 0 < sint (clock (rqs s c) - age_stamp (rqs s c)) \<longrightarrow>
      sched_avg_update c s = None)"
proof (intro conjI impI)
  assume "sysctl_sched_time_avg (globals s) \<noteq> 0"
  then have "0 < sint (sched_avg_period s)" using sched_avg_period_pos by blast
  from sched_avg_loop_terminates [OF this, of c s]
  show "\<exists>s' n. sched_avg_update c s = Some s' \<and>
         age_stamp (rqs s' c) = age_stamp (rqs s c) + of_nat n * sched_avg_period s \<and>
         rt_avg (rqs s' c) = drop_bit n (rt_avg (rqs s c)) \<and>
         sint (clock (rqs s c) - age_stamp (rqs s' c)) \<le> sint (sched_avg_period s)"
    by (auto simp: sched_avg_update_def)
next
  assume z: "sysctl_sched_time_avg (globals s) = 0 \<and> 0 < sint (clock (rqs s c) - age_stamp (rqs s c))"
  then have "sched_avg_period s = 0" by (simp add: sched_avg_period_def)
  with z sched_avg_loop_zero show "sched_avg_update c s = None"
    by (auto simp: sched_avg_update_def intro: option.exhaust)
qed

theorem sched_avg_update_terminates_witness:
  "sched_avg_update 0 ((upd_rq 0 (\<lambda>r. r\<lparr>clock := 5\<rparr>) (bss 1))
      \<lparr>globals := (globals (bss 1))\<lparr>sysctl_sched_time_avg := 0\<rparr>\<rparr>) = None"
  using sched_avg_update_terminates [of "(upd_rq 0 (\<lambda>r. r\<lparr>clock := 5\<rparr>) (bss 1))
      \<lparr>globals := (globals (bss 1))\<lparr>sysctl_sched_time_avg := 0\<rparr>\<rparr>" 0]
  by (simp add: bss_def zero_rq_def)

section \<open>The load update of the tick\<close>

text \<open>It touches the load statistics of the run-queue and nothing the classes use.\<close>

definition load_frame :: "kst \<Rightarrow> kst \<Rightarrow> bool" where
  "load_frame s s' \<longleftrightarrow>
     tasks s' = tasks s \<and> wrr_list s' = wrr_list s \<and> leaf_wrr s' = leaf_wrr s \<and> wrr_rqs s' = wrr_rqs s \<and>
     nr_cpus s' = nr_cpus s \<and> this_cpu s' = this_cpu s \<and> globals s' = globals s \<and>
     (\<forall>d. curr (rqs s' d) = curr (rqs s d) \<and> idle (rqs s' d) = idle (rqs s d) \<and>
          stop (rqs s' d) = stop (rqs s d) \<and> nr_running (rqs s' d) = nr_running (rqs s d) \<and>
          cfs_h_nr_running (rqs s' d) = cfs_h_nr_running (rqs s d) \<and>
          post_schedule_flag (rqs s' d) = post_schedule_flag (rqs s d))"

lemma load_frame_trans: "load_frame s s' \<Longrightarrow> load_frame s' s'' \<Longrightarrow> load_frame s s''"
  by (simp add: load_frame_def)

lemma load_frame_rq [simp]:
  "curr r = curr (rqs s c) \<Longrightarrow> idle r = idle (rqs s c) \<Longrightarrow> stop r = stop (rqs s c) \<Longrightarrow>
   nr_running r = nr_running (rqs s c) \<Longrightarrow> cfs_h_nr_running r = cfs_h_nr_running (rqs s c) \<Longrightarrow>
   post_schedule_flag r = post_schedule_flag (rqs s c) \<Longrightarrow>
   load_frame s (s\<lparr>rqs := (rqs s)(c := r)\<rparr>)"
  by (simp add: load_frame_def)

lemma cpu_load_loop_total:
  "\<forall>i\<in>set is. i < CPU_LOAD_IDX_MAX \<Longrightarrow>
   \<exists>s'. cpu_load_loop this_load pending_updates c is s = Some s' \<and> load_frame s s'"
proof (induction "is" arbitrary: s)
  case Nil
  then show ?case by (simp add: load_frame_def)
next
  case (Cons i js)
  have "i < CPU_LOAD_IDX_MAX" using Cons.prems by simp
  from decay_load_missed_total [OF this] obtain r
    where r: "decay_load_missed (cpu_load (rqs s c) i) (pending_updates - 1) i = Some r" by blast
  define new_load where "new_load = (if this_load > r then this_load + (push_bit i 1 - 1) else this_load)"
  define u where "u = upd_rq c (\<lambda>q. q\<lparr>cpu_load := (cpu_load q)(i := drop_bit i (r * (push_bit i 1 - 1) + new_load))\<rparr>) s"
  have u: "load_frame s u" by (simp add: u_def)
  have "cpu_load_loop this_load pending_updates c (i # js) s = cpu_load_loop this_load pending_updates c js u"
    using r by (simp add: Let_def u_def new_load_def)
  moreover have "\<exists>s'. cpu_load_loop this_load pending_updates c js u = Some s' \<and> load_frame u s'"
    using Cons.IH Cons.prems by simp
  ultimately show ?case using load_frame_trans [OF u] by auto
qed

lemma sched_avg_update_frame:
  "sysctl_sched_time_avg (globals s) \<noteq> 0 \<Longrightarrow> \<exists>s'. sched_avg_update c s = Some s' \<and> load_frame s s'"
  using sched_avg_loop_terminates [of "sched_avg_period s" c s] sched_avg_period_pos [of s]
  by (auto simp: sched_avg_update_def)

lemma calc_load_account_active_frame: "load_frame s (calc_load_account_active E c s)"
  by (simp add: calc_load_account_active_def calc_load_fold_active_def Let_def load_frame_def)

lemma update_cpu_load_active_frame:
  assumes "sysctl_sched_time_avg (globals s) \<noteq> 0"
  shows "\<exists>s'. update_cpu_load_active E c s = Some s' \<and> load_frame s s'"
proof -
  let ?ld = "weight (rq_load (rqs s c))"
  define u where "u = upd_rq c (\<lambda>r. r\<lparr>nr_load_updates := nr_load_updates r + 1\<rparr>) s"
  define v where "v = upd_rq c (\<lambda>r. r\<lparr>cpu_load := (cpu_load r)(0 := ?ld)\<rparr>)
      (upd_rq c (\<lambda>r. r\<lparr>last_load_update_tick := jiffies s\<rparr>) u)"
  have u: "load_frame s u" by (simp add: u_def)
  have "load_frame u v" by (simp add: v_def load_frame_def)
  with u have v: "load_frame s v" by (rule load_frame_trans)
  obtain w where w: "cpu_load_loop ?ld (jiffies s - last_load_update_tick (rqs u c)) c
      [1..<CPU_LOAD_IDX_MAX] v = Some w" "load_frame v w"
    using cpu_load_loop_total [of "[1..<CPU_LOAD_IDX_MAX]"
        ?ld "jiffies s - last_load_update_tick (rqs u c)" c v] by auto
  have sw: "load_frame s w" using v w(2) by (rule load_frame_trans)
  then have "globals w = globals s" by (simp add: load_frame_def)
  with assms obtain x where x: "sched_avg_update c w = Some x" "load_frame w x"
    using sched_avg_update_frame [of w c] by auto
  have "\<exists>y. update_cpu_load c s = Some y \<and> load_frame s y"
    using u w(1) x load_frame_trans [OF sw x(2)] unfolding v_def
    by (simp add: update_cpu_load_def Let_def flip: u_def)
  then obtain y where "update_cpu_load c s = Some y" "load_frame s y" by blast
  then show ?thesis
    using load_frame_trans [OF _ calc_load_account_active_frame] by (auto simp: update_cpu_load_active_def)
qed

end
