(* ===== verification/Core_Wake.thy ===== *)
theory Core_Wake
  imports Core_Queue
begin

text \<open>
  Placing, waking and forking tasks (kernel/core.c): the CPU of a task, the choice of a run-queue
  with its fallback, \<open>try_to_wake_up\<close> with local and remote activation, \<open>sched_fork\<close> and
  \<open>wake_up_new_task\<close>. CPU masks are sets below \<open>nr_cpus\<close>; \<open>for_each_cpu\<close> goes through them in
  ascending order. Statistics (\<open>ttwu_stat\<close>) are left out.
\<close>

section \<open>The CPU of a task\<close>

definition mask_cpus :: "kst \<Rightarrow> cpu set \<Rightarrow> cpu list" where
  "mask_cpus s m = filter (\<lambda>c. c \<in> m) [0..<nr_cpus s]"

definition cpu_possible_mask :: "kst \<Rightarrow> cpu set" where
  "cpu_possible_mask s = {0..<nr_cpus s}"

definition set_task_rq :: "tid \<Rightarrow> cpu \<Rightarrow> kst \<Rightarrow> kst" where
  "set_task_rq p c s =
     (let tg = task_groups s (sched_task_group (tasks s p));
          s = upd_task p (\<lambda>t. t\<lparr>rt := (rt t)\<lparr>rt_rq_ptr := tg_rt_rq tg c, rt_parent := tg_rt_se tg c\<rparr>\<rparr>) s
      in upd_task p (\<lambda>t. t\<lparr>wrr := (wrr t)\<lparr>wrr_rq_ptr := tg_wrr_rq tg c, wrr_parent := tg_wrr_se tg c\<rparr>\<rparr>) s)"

definition set_task_cpu0 :: "tid \<Rightarrow> cpu \<Rightarrow> kst \<Rightarrow> kst" where
  "set_task_cpu0 p c s = upd_task p (\<lambda>t. t\<lparr>ti_cpu := c\<rparr>) (set_task_rq p c s)"

definition set_task_cpu :: "tid \<Rightarrow> cpu \<Rightarrow> kst \<Rightarrow> kst" where
  "set_task_cpu p new_cpu s =
     (let s = (if task_cpu s p \<noteq> new_cpu
               then upd_task p (\<lambda>t. t\<lparr>se := (se t)\<lparr>nr_migrations := nr_migrations (se t) + 1\<rparr>\<rparr>) s else s)
      in set_task_cpu0 p new_cpu s)"

definition do_set_cpus_allowed :: "kenv \<Rightarrow> tid \<Rightarrow> cpu set \<Rightarrow> kst \<Rightarrow> kst option" where
  "do_set_cpus_allowed K p new_mask s = do {
     s \<leftarrow> opt_call (map_option (\<lambda>f p. f p new_mask) (op_set_cpus_allowed (class_of K s p))) p s;
     let s = upd_task p (\<lambda>t. t\<lparr>cpus_allowed := new_mask\<rparr>) s;
     Some (upd_task p (\<lambda>t. t\<lparr>rt := (rt t)\<lparr>nr_cpus_allowed := int (length (mask_cpus s new_mask))\<rparr>\<rparr>) s)
   }"

definition kick_process :: "tid \<Rightarrow> kst \<Rightarrow> kst" where
  "kick_process p s =
     (let c = task_cpu s p in
      if c \<noteq> this_cpu s \<and> task_curr s p then ext (Smp_send_reschedule c) s else s)"

section \<open>Selecting a run-queue\<close>

datatype fallback_state = cpuset | possible | fail

definition usable_cpu :: "kst \<Rightarrow> cpu \<Rightarrow> bool" where
  "usable_cpu s c \<longleftrightarrow> c \<in> cpu_online s \<and> c \<in> cpu_active s"

text \<open>The second loop of \<open>select_fallback_rq\<close>: widen the mask until some CPU will do.\<close>

function fallback_loop :: "kenv \<Rightarrow> tid \<Rightarrow> fallback_state \<Rightarrow> kst \<Rightarrow> (cpu \<times> kst) option" where
  "fallback_loop K p st s =
     (case List.find (usable_cpu s) (mask_cpus s (cpus_allowed (tasks s p))) of
        Some dest_cpu \<Rightarrow> Some (dest_cpu, s)
      | None \<Rightarrow>
          (case st of
             cpuset \<Rightarrow> do {
               s \<leftarrow> do_set_cpus_allowed K p (cpuset_fallback K s p) s;
               fallback_loop K p possible s
             }
           | possible \<Rightarrow> do {
               s \<leftarrow> do_set_cpus_allowed K p (cpu_possible_mask s) s;
               fallback_loop K p fail s
             }
           | fail \<Rightarrow> None))"
  by pat_completeness auto
termination
  by (relation "measure (\<lambda>(_, _, st, _). case st of cpuset \<Rightarrow> 2 | possible \<Rightarrow> 1 | fail \<Rightarrow> 0)") auto

declare fallback_loop.simps [simp del]

definition select_fallback_rq :: "kenv \<Rightarrow> cpu \<Rightarrow> tid \<Rightarrow> kst \<Rightarrow> (cpu \<times> kst) option" where
  "select_fallback_rq K c p s =
     (case List.find (\<lambda>d. usable_cpu s d \<and> d \<in> cpus_allowed (tasks s p)) (nodemask K c) of
        Some dest_cpu \<Rightarrow> Some (dest_cpu, s)
      | None \<Rightarrow> fallback_loop K p cpuset s)"

definition select_task_rq :: "kenv \<Rightarrow> tid \<Rightarrow> u32 \<Rightarrow> u32 \<Rightarrow> kst \<Rightarrow> (cpu \<times> kst) option" where
  "select_task_rq K p sd_flags wake_flags s = do {
     c \<leftarrow> op_select_task_rq (class_of K s p) p sd_flags wake_flags s;
     if c \<notin> cpus_allowed (tasks s p) \<or> c \<notin> cpu_online s
     then select_fallback_rq K (task_cpu s p) p s
     else Some (c, s)
   }"

section \<open>Waking up\<close>

text \<open>\<open>diff >> 3\<close> on a signed value.\<close>

definition update_avg :: "u64 \<Rightarrow> u64 \<Rightarrow> u64" where
  "update_avg avg sample = avg + word_of_int (sint (sample - avg) div 8)"

definition ttwu_activate :: "kenv \<Rightarrow> cpu \<Rightarrow> tid \<Rightarrow> u32 \<Rightarrow> kst \<Rightarrow> kst option" where
  "ttwu_activate K c p en_flags s = do {
     s \<leftarrow> activate_task K c p en_flags s;
     let s = upd_task p (\<lambda>t. t\<lparr>on_rq := True\<rparr>) s;
     Some (if tflags (tasks s p) AND PF_WQ_WORKER \<noteq> 0 then ext (Wq_worker_waking_up p c) s else s)
   }"

definition ttwu_do_wakeup :: "kenv \<Rightarrow> cpu \<Rightarrow> tid \<Rightarrow> u32 \<Rightarrow> kst \<Rightarrow> kst option" where
  "ttwu_do_wakeup K c p wake_flags s = do {
     s \<leftarrow> check_preempt_curr K c p wake_flags s;
     let s = upd_task p (\<lambda>t. t\<lparr>tstate := TASK_RUNNING\<rparr>) s;
     s \<leftarrow> opt_call (map_option (\<lambda>f. f c) (op_task_woken (class_of K s p))) p s;
     Some (if idle_stamp (rqs s c) \<noteq> 0 then
             let delta = clock (rqs s c) - idle_stamp (rqs s c);
                 mx = 2 * migration_cost K;
                 s = upd_rq c (\<lambda>r. r\<lparr>avg_idle := if delta > mx then mx else update_avg (avg_idle r) delta\<rparr>) s
             in upd_rq c (\<lambda>r. r\<lparr>idle_stamp := 0\<rparr>) s
           else s)
   }"

definition ttwu_do_activate :: "kenv \<Rightarrow> cpu \<Rightarrow> tid \<Rightarrow> u32 \<Rightarrow> kst \<Rightarrow> kst option" where
  "ttwu_do_activate K c p wake_flags s = do {
     let s = (if sched_contributes_to_load (tasks s p)
              then upd_rq c (\<lambda>r. r\<lparr>nr_uninterruptible := nr_uninterruptible r - 1\<rparr>) s else s);
     s \<leftarrow> ttwu_activate K c p (ENQUEUE_WAKEUP OR ENQUEUE_WAKING) s;
     ttwu_do_wakeup K c p wake_flags s
   }"

definition ttwu_remote :: "kenv \<Rightarrow> tid \<Rightarrow> u32 \<Rightarrow> kst \<Rightarrow> (bool \<times> kst) option" where
  "ttwu_remote K p wake_flags s =
     (if on_rq (tasks s p)
      then do { s \<leftarrow> ttwu_do_wakeup K (task_cpu s p) p wake_flags s; Some (True, s) }
      else Some (False, s))"

text \<open>\<open>wake_list\<close> is a lock-free stack: the last task queued is the first one taken.\<close>

fun ttwu_pending_loop :: "kenv \<Rightarrow> cpu \<Rightarrow> tid list \<Rightarrow> kst \<Rightarrow> kst option" where
  "ttwu_pending_loop K c [] s = Some s"
| "ttwu_pending_loop K c (p # llist) s =
     Option.bind (ttwu_do_activate K c p 0 s) (ttwu_pending_loop K c llist)"

definition sched_ttwu_pending :: "kenv \<Rightarrow> kst \<Rightarrow> kst option" where
  "sched_ttwu_pending K s =
     (let c = this_cpu s; llist = wake_list s c; s = s\<lparr>wake_list := (wake_list s)(c := [])\<rparr>
      in ttwu_pending_loop K c llist s)"

definition scheduler_ipi :: "kenv \<Rightarrow> kst \<Rightarrow> kst option" where
  "scheduler_ipi K s =
     (let c = this_cpu s in
      if wake_list s c = [] \<and> \<not> got_nohz_idle_kick K c then Some s
      else do {
        s \<leftarrow> sched_ttwu_pending K s;
        Some (if got_nohz_idle_kick K c \<and> \<not> test_tsk_need_resched s (current s)
              then ext (Cpu_note ''raise_softirq SCHED_SOFTIRQ'' c) s else s)
      })"

definition ttwu_queue_remote :: "tid \<Rightarrow> cpu \<Rightarrow> kst \<Rightarrow> kst" where
  "ttwu_queue_remote p c s =
     (let was_empty = wake_list s c = [];
          s = s\<lparr>wake_list := (wake_list s)(c := p # wake_list s c)\<rparr>
      in if was_empty then ext (Smp_send_reschedule c) s else s)"

definition ttwu_queue :: "kenv \<Rightarrow> tid \<Rightarrow> cpu \<Rightarrow> kst \<Rightarrow> kst option" where
  "ttwu_queue K p c s =
     (if ttwu_queue_feat K \<and> \<not> share_cache K (this_cpu s) c then Some (ttwu_queue_remote p c s)
      else ttwu_do_activate K c p 0 s)"

text \<open>\<open>SD_BALANCE_WAKE\<close> and \<open>SD_BALANCE_FORK\<close>.\<close>

definition SD_BALANCE_WAKE :: u32 where "SD_BALANCE_WAKE = 0x0010"
definition SD_BALANCE_FORK :: u32 where "SD_BALANCE_FORK = 0x0008"

text \<open>
  The busy wait for \<open>on_cpu\<close> is a wait for another CPU; a state in which it is still set when the
  wait begins has no successor in this sequential model (\<open>None\<close>).
\<close>

definition try_to_wake_up :: "kenv \<Rightarrow> tid \<Rightarrow> u32 \<Rightarrow> u32 \<Rightarrow> kst \<Rightarrow> (bool \<times> kst) option" where
  "try_to_wake_up K p state wake_flags s =
     (if tstate (tasks s p) AND state = 0 then Some (False, s)
      else do {
        (done, s) \<leftarrow> (if on_rq (tasks s p) then ttwu_remote K p wake_flags s else Some (False, s));
        if done then Some (True, s)
        else do {
          _ \<leftarrow> BUG_ON (on_cpu (tasks s p));
          let s = upd_task p (\<lambda>t. t\<lparr>sched_contributes_to_load := task_contributes_to_load s p\<rparr>) s;
          let s = upd_task p (\<lambda>t. t\<lparr>tstate := TASK_WAKING\<rparr>) s;
          s \<leftarrow> opt_call (op_task_waking (class_of K s p)) p s;
          (c, s) \<leftarrow> select_task_rq K p SD_BALANCE_WAKE wake_flags s;
          let s = (if task_cpu s p \<noteq> c then set_task_cpu p c s else s);
          s \<leftarrow> ttwu_queue K p c s;
          Some (True, s)
        }
      })"

definition try_to_wake_up_local :: "kenv \<Rightarrow> tid \<Rightarrow> kst \<Rightarrow> kst option" where
  "try_to_wake_up_local K p s =
     (let c = task_cpu s p in
      if c \<noteq> this_cpu s \<or> p = current s then Some s
      else if tstate (tasks s p) AND TASK_NORMAL = 0 then Some s
      else do {
        s \<leftarrow> (if \<not> on_rq (tasks s p) then ttwu_activate K c p ENQUEUE_WAKEUP s else Some s);
        ttwu_do_wakeup K c p 0 s
      })"

definition wake_up_process :: "kenv \<Rightarrow> tid \<Rightarrow> kst \<Rightarrow> (bool \<times> kst) option" where
  "wake_up_process K p s = try_to_wake_up K p TASK_NORMAL 0 s"

definition wake_up_state :: "kenv \<Rightarrow> tid \<Rightarrow> u32 \<Rightarrow> kst \<Rightarrow> (bool \<times> kst) option" where
  "wake_up_state K p state s = try_to_wake_up K p state 0 s"

section \<open>Fork\<close>

text \<open>
  \<open>INIT_LIST_HEAD\<close> on an entry that is still linked would cut its list: that is \<open>None\<close>.
\<close>

definition init_entry :: "'e \<Rightarrow> ('h, 'e) klist \<Rightarrow> unit option" where
  "init_entry e L = BUG_ON (linked e L)"

definition sched_fork0 :: "tid \<Rightarrow> kst \<Rightarrow> kst option" where
  "sched_fork0 p s = do {
     let s = upd_task p (\<lambda>t. t\<lparr>on_rq := False\<rparr>) s;
     let s = upd_task p (\<lambda>t. t\<lparr>se := (se t)\<lparr>se_on_rq := False, exec_start := 0, sum_exec_runtime := 0,
               prev_sum_exec_runtime := 0, nr_migrations := 0, vruntime := 0\<rparr>\<rparr>) s;
     _ \<leftarrow> init_entry (Se_of_task p) (rt_list s);
     _ \<leftarrow> init_entry (Se_of_task p) (wrr_list s);
     Some s
   }"

text \<open>Reverting to the default policy, as one step of \<open>sched_fork\<close>.\<close>

definition fork_reset :: "tid \<Rightarrow> kst \<Rightarrow> kst option" where
  "fork_reset p s =
     (if sched_reset_on_fork (tasks s p) then do {
        let s = (if task_has_rt_policy s p
                 then upd_task p (\<lambda>t. t\<lparr>policy := SCHED_NORMAL, static_prio := NICE_TO_PRIO 0,
                                        rt_priority := 0\<rparr>) s
                 else if PRIO_TO_NICE (static_prio (tasks s p)) < 0
                 then upd_task p (\<lambda>t. t\<lparr>static_prio := NICE_TO_PRIO 0\<rparr>) s
                 else s);
        let s = upd_task p (\<lambda>t. t\<lparr>normal_prio := static_prio t, prio := static_prio t\<rparr>) s;
        s \<leftarrow> set_load_weight p s;
        Some (upd_task p (\<lambda>t. t\<lparr>sched_reset_on_fork := False\<rparr>) s)
      } else Some s)"

definition sched_fork :: "kenv \<Rightarrow> tid \<Rightarrow> kst \<Rightarrow> kst option" where
  "sched_fork K p s = do {
     let c = this_cpu s;
     s \<leftarrow> sched_fork0 p s;
     let s = upd_task p (\<lambda>t. t\<lparr>tstate := TASK_RUNNING\<rparr>) s;
     let s = upd_task p (\<lambda>t. t\<lparr>prio := normal_prio (tasks s (current s))\<rparr>) s;
     s \<leftarrow> fork_reset p s;
     let s = (if \<not> rt_prio (prio (tasks s p)) then upd_task p (\<lambda>t. t\<lparr>task_class := fair_sched_class\<rparr>) s else s);
     let s = (if policy (tasks s p) = SCHED_WRR then upd_task p (\<lambda>t. t\<lparr>task_class := wrr_sched_class\<rparr>) s else s);
     s \<leftarrow> opt_call (op_task_fork (class_of K s p)) p s;
     let s = set_task_cpu p c s;
     let s = upd_task p (\<lambda>t. t\<lparr>on_cpu := False\<rparr>) s;
     Some (upd_task p (\<lambda>t. t\<lparr>ti_preempt_count := 1\<rparr>) s)
   }"

definition wake_up_new_task :: "kenv \<Rightarrow> tid \<Rightarrow> kst \<Rightarrow> kst option" where
  "wake_up_new_task K p s = do {
     (c, s) \<leftarrow> select_task_rq K p SD_BALANCE_FORK 0 s;
     let s = set_task_cpu p c s;
     s \<leftarrow> activate_task K c p 0 s;
     let s = upd_task p (\<lambda>t. t\<lparr>on_rq := True\<rparr>) s;
     s \<leftarrow> check_preempt_curr K c p WF_FORK s;
     opt_call (map_option (\<lambda>f. f c) (op_task_woken (class_of K s p))) p s
   }"

definition init_idle :: "kenv \<Rightarrow> tid \<Rightarrow> cpu \<Rightarrow> kst \<Rightarrow> kst option" where
  "init_idle K p c s = do {
     s \<leftarrow> sched_fork0 p s;
     let s = upd_task p (\<lambda>t. t\<lparr>tstate := TASK_RUNNING\<rparr>) s;
     let s = upd_task p (\<lambda>t. t\<lparr>se := (se t)\<lparr>exec_start := sched_clock_cpu K s (this_cpu s)\<rparr>\<rparr>) s;
     s \<leftarrow> do_set_cpus_allowed K p {c} s;
     let s = set_task_cpu0 p c s;
     let s = upd_rq c (\<lambda>r. r\<lparr>curr := p, idle := p\<rparr>) s;
     let s = upd_task p (\<lambda>t. t\<lparr>on_cpu := True\<rparr>) s;
     let s = upd_task p (\<lambda>t. t\<lparr>ti_preempt_count := 0\<rparr>) s;
     Some (upd_task p (\<lambda>t. t\<lparr>task_class := idle_sched_class\<rparr>) s)
   }"

definition init_idle_bootup_task :: "tid \<Rightarrow> kst \<Rightarrow> kst" where
  "init_idle_bootup_task p s = upd_task p (\<lambda>t. t\<lparr>task_class := idle_sched_class\<rparr>) s"

end
