(* ===== verification/Core_Schedule.thy ===== *)
theory Core_Schedule
  imports Core_Wake Core_Load
begin

text \<open>
  The main scheduler function (kernel/core.c), seen from one CPU: \<open>__schedule\<close> with the context
  switch, the tick, and the ways a task gives up its CPU. A context switch makes \<open>next\<close> the CPU's
  current task; the code after it runs for that task. Address spaces and the balanced changes of
  the preemption count are left out.
\<close>

section \<open>Switching\<close>

definition signal_pending_state :: "kenv \<Rightarrow> kst \<Rightarrow> u32 \<Rightarrow> tid \<Rightarrow> bool" where
  "signal_pending_state K s state p \<longleftrightarrow>
     (if state AND (TASK_INTERRUPTIBLE OR TASK_WAKEKILL) = 0 then False
      else if \<not> signal_pending K s p then False
      else state AND TASK_INTERRUPTIBLE \<noteq> 0 \<or> fatal_signal_pending K s p)"

definition preempt_active :: "kenv \<Rightarrow> kst \<Rightarrow> bool" where
  "preempt_active K s \<longleftrightarrow> ti_preempt_count (tasks s (current s)) AND PREEMPT_ACTIVE K \<noteq> 0"

definition pre_schedule :: "kenv \<Rightarrow> cpu \<Rightarrow> tid \<Rightarrow> kst \<Rightarrow> kst option" where
  "pre_schedule K c prev s = opt_call (map_option (\<lambda>f. f c) (op_pre_schedule (class_of K s prev))) prev s"

definition post_schedule :: "kenv \<Rightarrow> cpu \<Rightarrow> kst \<Rightarrow> kst option" where
  "post_schedule K c s =
     (if post_schedule_flag (rqs s c) then do {
        s \<leftarrow> opt_call (op_post_schedule (class_of K s (curr (rqs s c)))) c s;
        Some (upd_rq c (\<lambda>r. r\<lparr>post_schedule_flag := False\<rparr>) s)
      } else Some s)"

text \<open>\<open>prepare_lock_switch\<close> and \<open>finish_lock_switch\<close>.\<close>

definition prepare_lock_switch :: "tid \<Rightarrow> kst \<Rightarrow> kst" where
  "prepare_lock_switch next s = upd_task next (\<lambda>t. t\<lparr>on_cpu := True\<rparr>) s"

definition finish_lock_switch :: "tid \<Rightarrow> kst \<Rightarrow> kst" where
  "finish_lock_switch prev s = upd_task prev (\<lambda>t. t\<lparr>on_cpu := False\<rparr>) s"

definition finish_task_switch :: "tid \<Rightarrow> kst \<Rightarrow> kst" where
  "finish_task_switch prev s =
     (let prev_state = tstate (tasks s prev);
          s = finish_lock_switch prev s
      in if prev_state = TASK_DEAD then ext (Task_note ''put_task_struct'' prev) s else s)"

definition context_switch :: "tid \<Rightarrow> tid \<Rightarrow> kst \<Rightarrow> kst" where
  "context_switch prev next s = finish_task_switch prev (prepare_lock_switch next s)"

section \<open>The scheduler function\<close>

text \<open>The part of \<open>__schedule\<close> that takes a blocking task off its run-queue.\<close>

definition schedule_block :: "kenv \<Rightarrow> cpu \<Rightarrow> tid \<Rightarrow> kst \<Rightarrow> kst option" where
  "schedule_block K c prev s =
     (if signal_pending_state K s (tstate (tasks s prev)) prev
      then Some (upd_task prev (\<lambda>t. t\<lparr>tstate := TASK_RUNNING\<rparr>) s)
      else do {
        s \<leftarrow> deactivate_task K c prev DEQUEUE_SLEEP s;
        let s = upd_task prev (\<lambda>t. t\<lparr>on_rq := False\<rparr>) s;
        if tflags (tasks s prev) AND PF_WQ_WORKER \<noteq> 0 then
          case wq_sleeping K s prev c of
            None \<Rightarrow> Some s
          | Some to_wakeup \<Rightarrow> try_to_wake_up_local K to_wakeup s
        else Some s
      })"

text \<open>The part that makes \<open>next\<close> the current task, counting a switch only when the task changes.\<close>

definition schedule_commit :: "cpu \<Rightarrow> tid \<Rightarrow> tid \<Rightarrow> bool \<Rightarrow> kst \<Rightarrow> kst" where
  "schedule_commit c prev next blocks s =
     (let s = clear_tsk_need_resched prev s;
          s = upd_rq c (\<lambda>r. r\<lparr>skip_clock_update := 0\<rparr>) s
      in if prev \<noteq> next then
           let s = upd_rq c (\<lambda>r. r\<lparr>nr_switches := nr_switches r + 1\<rparr>) s;
               s = upd_rq c (\<lambda>r. r\<lparr>curr := next\<rparr>) s;
               s = (if blocks then upd_task prev (\<lambda>t. t\<lparr>nvcsw := nvcsw t + 1\<rparr>) s
                    else upd_task prev (\<lambda>t. t\<lparr>nivcsw := nivcsw t + 1\<rparr>) s)
           in context_switch prev next s
         else s)"

definition schedule_pass :: "kenv \<Rightarrow> kst \<Rightarrow> kst option" where
  "schedule_pass K s = do {
     let c = this_cpu s;
     let prev = curr (rqs s c);
     let blocks = tstate (tasks s prev) \<noteq> 0 \<and> \<not> preempt_active K s;
     s \<leftarrow> (if blocks then schedule_block K c prev s else Some s);
     s \<leftarrow> pre_schedule K c prev s;
     let s = (if nr_running (rqs s c) = 0 then idle_balance K c s else s);
     s \<leftarrow> put_prev_task K c prev s;
     (next, s) \<leftarrow> pick_next_task K c s;
     let s = schedule_commit c prev next blocks s;
     post_schedule K c s
   }"

text \<open>\<open>goto need_resched\<close>: as long as the task switched to has to reschedule at once.\<close>

partial_function (option) schedule0 :: "kenv \<Rightarrow> kst \<Rightarrow> kst option" where
  "schedule0 K s =
     Option.bind (schedule_pass K s)
       (\<lambda>s. if test_tsk_need_resched s (current s) then schedule0 K s else Some s)"

definition sched_submit_work :: "kst \<Rightarrow> kst" where
  "sched_submit_work s =
     (if tstate (tasks s (current s)) = 0 then s
      else ext (Task_note ''blk_schedule_flush_plug'' (current s)) s)"

definition schedule :: "kenv \<Rightarrow> kst \<Rightarrow> kst option" where
  "schedule K s = schedule0 K (sched_submit_work s)"

definition add_preempt_count :: "int \<Rightarrow> kst \<Rightarrow> kst" where
  "add_preempt_count v s = upd_task (current s) (\<lambda>t. t\<lparr>ti_preempt_count := ti_preempt_count t + v\<rparr>) s"

definition sub_preempt_count :: "int \<Rightarrow> kst \<Rightarrow> kst" where
  "sub_preempt_count v s = upd_task (current s) (\<lambda>t. t\<lparr>ti_preempt_count := ti_preempt_count t - v\<rparr>) s"

section \<open>The tick\<close>

definition scheduler_tick :: "kenv \<Rightarrow> kst \<Rightarrow> kst option" where
  "scheduler_tick K s = do {
     let c = this_cpu s;
     let p = curr (rqs s c);
     let s = update_rq_clock K c s;
     s \<leftarrow> update_cpu_load_active (base K) c s;
     s \<leftarrow> op_task_tick (class_of K s p) c p False s;
     Some (ext (Cpu_note ''trigger_load_balance'' c) s)
   }"

section \<open>Yielding\<close>

definition sys_sched_yield :: "kenv \<Rightarrow> kst \<Rightarrow> (int \<times> kst) option" where
  "sys_sched_yield K s = do {
     s \<leftarrow> op_yield_task (class_of K s (current s)) (this_cpu s) s;
     s \<leftarrow> schedule K s;
     Some (0, s)
   }"

definition yield :: "kenv \<Rightarrow> kst \<Rightarrow> kst option" where
  "yield K s = do {
     let s = upd_task (current s) (\<lambda>t. t\<lparr>tstate := TASK_RUNNING\<rparr>) s;
     (_, s) \<leftarrow> sys_sched_yield K s;
     Some s
   }"

definition should_resched :: "kenv \<Rightarrow> kst \<Rightarrow> bool" where
  "should_resched K s \<longleftrightarrow> test_tsk_need_resched s (current s) \<and> \<not> preempt_active K s"

text \<open>
  The task that called \<open>__cond_resched\<close> subtracts the bit again when it runs next; seen from this
  CPU's model that is the task that added it.
\<close>

definition cond_resched0 :: "kenv \<Rightarrow> kst \<Rightarrow> kst option" where
  "cond_resched0 K s = do {
     let p = current s;
     let s = add_preempt_count (PREEMPT_ACTIVE K) s;
     s \<leftarrow> schedule0 K s;
     Some (upd_task p (\<lambda>t. t\<lparr>ti_preempt_count := ti_preempt_count t - PREEMPT_ACTIVE K\<rparr>) s)
   }"

definition cond_resched :: "kenv \<Rightarrow> kst \<Rightarrow> (bool \<times> kst) option" where
  "cond_resched K s =
     (if should_resched K s then do { s \<leftarrow> cond_resched0 K s; Some (True, s) } else Some (False, s))"

definition yield_to :: "kenv \<Rightarrow> tid \<Rightarrow> bool \<Rightarrow> kst \<Rightarrow> (bool \<times> kst) option" where
  "yield_to K p preempt s = do {
     let cur = current s;
     let c = this_cpu s;
     let p_rq = task_cpu s p;
     (yielded, s) \<leftarrow>
       (case yield_to_task K (task_class (tasks s cur)) of
          None \<Rightarrow> Some (False, s)
        | Some yield_op \<Rightarrow>
            if task_class (tasks s cur) \<noteq> task_class (tasks s p) then Some (False, s)
            else if task_running s p_rq p \<or> tstate (tasks s p) \<noteq> 0 then Some (False, s)
            else
              let (yielded, s) = yield_op c p preempt s in
              Some (yielded,
                    if yielded then
                      if preempt \<and> c \<noteq> p_rq then resched_task (base K) (curr (rqs s p_rq)) s else s
                    else upd_rq c (\<lambda>r. r\<lparr>skip_clock_update := 0\<rparr>) s));
     s \<leftarrow> (if yielded then schedule K s else Some s);
     Some (yielded, s)
   }"

definition io_schedule :: "kenv \<Rightarrow> kst \<Rightarrow> kst option" where
  "io_schedule K s = do {
     let c = this_cpu s;
     let s = upd_rq c (\<lambda>r. r\<lparr>nr_iowait := nr_iowait r + 1\<rparr>) s;
     let s = ext (Task_note ''blk_flush_plug'' (current s)) s;
     s \<leftarrow> schedule K s;
     Some (upd_rq c (\<lambda>r. r\<lparr>nr_iowait := nr_iowait r - 1\<rparr>) s)
   }"

definition preempt_schedule_guard :: "kst \<Rightarrow> bool \<Rightarrow> bool" where
  "preempt_schedule_guard s irqs_disabled \<longleftrightarrow> ti_preempt_count (tasks s (current s)) \<noteq> 0 \<or> irqs_disabled"

partial_function (option) preempt_schedule_loop :: "kenv \<Rightarrow> kst \<Rightarrow> kst option" where
  "preempt_schedule_loop K s =
     Option.bind (cond_resched0 K s)
       (\<lambda>s. if test_tsk_need_resched s (current s) then preempt_schedule_loop K s else Some s)"

definition preempt_schedule :: "kenv \<Rightarrow> bool \<Rightarrow> kst \<Rightarrow> kst option" where
  "preempt_schedule K irqs_disabled s =
     (if preempt_schedule_guard s irqs_disabled then Some s else preempt_schedule_loop K s)"

definition preempt_schedule_irq :: "kenv \<Rightarrow> bool \<Rightarrow> kst \<Rightarrow> kst option" where
  "preempt_schedule_irq K irqs_disabled s = do {
     _ \<leftarrow> BUG_ON (ti_preempt_count (tasks s (current s)) \<noteq> 0 \<or> \<not> irqs_disabled);
     preempt_schedule_loop K s
   }"

end
