(* ===== verification/Core_Setsched.thy ===== *)
theory Core_Setsched
  imports Core_Queue
begin

text \<open>
  Priorities and policies (kernel/core.c): normal and effective priorities, nice values,
  \<open>__sched_setscheduler\<close> with its permission checks, priority inheritance boosts, and the
  system calls on top of them. Locks do not appear: each function is one atomic step.
\<close>

section \<open>Priorities\<close>

text \<open>Names that clash with record fields get a \<open>calc_\<close> prefix; \<open>__f\<close> becomes \<open>f0\<close>.\<close>

definition calc_normal_prio0 :: "kst \<Rightarrow> tid \<Rightarrow> int" where
  "calc_normal_prio0 s p = static_prio (tasks s p)"

definition calc_normal_prio :: "kst \<Rightarrow> tid \<Rightarrow> int" where
  "calc_normal_prio s p =
     (if task_has_rt_policy s p then sint (99 - rt_priority (tasks s p)) else calc_normal_prio0 s p)"

definition effective_prio :: "tid \<Rightarrow> kst \<Rightarrow> int \<times> kst" where
  "effective_prio p s =
     (let s = upd_task p (\<lambda>t. t\<lparr>normal_prio := calc_normal_prio s p\<rparr>) s in
      if \<not> rt_prio (prio (tasks s p)) then (normal_prio (tasks s p), s) else (prio (tasks s p), s))"

definition task_prio :: "kst \<Rightarrow> tid \<Rightarrow> int" where
  "task_prio s p = prio (tasks s p) - MAX_RT_PRIO"

definition task_nice :: "kst \<Rightarrow> tid \<Rightarrow> int" where
  "task_nice s p = PRIO_TO_NICE (static_prio (tasks s p))"

definition idle_cpu :: "kst \<Rightarrow> cpu \<Rightarrow> bool" where
  "idle_cpu s c \<longleftrightarrow>
     (if curr (rqs s c) \<noteq> idle (rqs s c) then False
      else if nr_running (rqs s c) \<noteq> 0 then False
      else wake_list s c = [])"

definition idle_task :: "kst \<Rightarrow> cpu \<Rightarrow> tid" where
  "idle_task s c = idle (rqs s c)"

section \<open>Nice values\<close>

text \<open>\<open>set_user_nice\<close> from the priority update on; \<open>queued\<close> is what \<open>on_rq\<close> was.\<close>

definition set_user_nice_tail :: "kenv \<Rightarrow> cpu \<Rightarrow> tid \<Rightarrow> bool \<Rightarrow> kst \<Rightarrow> kst option" where
  "set_user_nice_tail K c p queued s =
     (let old_prio = prio (tasks s p);
          (new_prio, s) = effective_prio p s;
          s = upd_task p (\<lambda>t. t\<lparr>prio := new_prio\<rparr>) s;
          delta = prio (tasks s p) - old_prio in
      if queued then do {
        s \<leftarrow> enqueue_task K c p 0 s;
        Some (if delta < 0 \<or> (delta > 0 \<and> task_running s c p)
              then resched_task (base K) (curr (rqs s c)) s else s)
      }
      else Some s)"

definition set_user_nice :: "kenv \<Rightarrow> tid \<Rightarrow> int \<Rightarrow> kst \<Rightarrow> kst option" where
  "set_user_nice K p nice s =
     (if task_nice s p = nice \<or> nice < -20 \<or> nice > 19 then Some s
      else
        let c = task_cpu s p in
        if task_has_rt_policy s p then Some (upd_task p (\<lambda>t. t\<lparr>static_prio := NICE_TO_PRIO nice\<rparr>) s)
        else do {
          let queued = on_rq (tasks s p);
          s \<leftarrow> (if queued then dequeue_task K c p 0 s else Some s);
          let s = upd_task p (\<lambda>t. t\<lparr>static_prio := NICE_TO_PRIO nice\<rparr>) s;
          s \<leftarrow> set_load_weight p s;
          set_user_nice_tail K c p queued s
        })"

text \<open>An \<open>int\<close> compared with an \<open>unsigned long\<close> is converted to it.\<close>

definition can_nice :: "kenv \<Rightarrow> tid \<Rightarrow> int \<Rightarrow> bool" where
  "can_nice K p nice \<longleftrightarrow>
     (let nice_rlim = 20 - nice in
      (word_of_int nice_rlim :: ulong) \<le> rlimit_nice K p \<or> capable_nice K)"

definition sys_nice :: "kenv \<Rightarrow> int \<Rightarrow> kst \<Rightarrow> (int \<times> kst) option" where
  "sys_nice K increment s =
     (let increment = (if increment < -40 then -40 else increment);
          increment = (if increment > 40 then 40 else increment);
          nice = task_nice s (current s) + increment;
          nice = (if nice < -20 then -20 else nice);
          nice = (if nice > 19 then 19 else nice) in
      if increment < 0 \<and> \<not> can_nice K (current s) nice then Some (- EPERM, s)
      else
        let retval = security_setnice K (current s) nice in
        if retval \<noteq> 0 then Some (retval, s)
        else do { s \<leftarrow> set_user_nice K (current s) nice s; Some (0, s) })"

section \<open>Setting the scheduler\<close>

definition find_process_by_pid :: "kenv \<Rightarrow> kst \<Rightarrow> int \<Rightarrow> tid option" where
  "find_process_by_pid K s pid = (if pid \<noteq> 0 then find_task_by_vpid K pid else Some (current s))"

definition setscheduler0 :: "kenv \<Rightarrow> cpu \<Rightarrow> tid \<Rightarrow> int \<Rightarrow> int \<Rightarrow> kst \<Rightarrow> kst option" where
  "setscheduler0 K c p pol pr s = do {
     let s = upd_task p (\<lambda>t. t\<lparr>policy := pol\<rparr>) s;
     let s = upd_task p (\<lambda>t. t\<lparr>rt_priority := word_of_int pr\<rparr>) s;
     let s = upd_task p (\<lambda>t. t\<lparr>normal_prio := calc_normal_prio s p\<rparr>) s;
     let s = upd_task p (\<lambda>t. t\<lparr>prio := rt_mutex_getprio K s p\<rparr>) s;
     s \<leftarrow> (if policy (tasks s p) = SCHED_WRR then do {
            let s = upd_task p (\<lambda>t. t\<lparr>task_class := wrr_sched_class\<rparr>) s;
            get_rr_interval \<leftarrow> op_get_rr_interval (class_of K s p);
            (slice, s) \<leftarrow> get_rr_interval c (Some p) s;
            let s = upd_task p (\<lambda>t. t\<lparr>wrr := (wrr t)\<lparr>wrr_time_slice := slice\<rparr>\<rparr>) s;
            Some (upd_task p (\<lambda>t. t\<lparr>p_times := 1\<rparr>) s)
          }
          else if rt_prio (prio (tasks s p)) then Some (upd_task p (\<lambda>t. t\<lparr>task_class := rt_sched_class\<rparr>) s)
          else Some (upd_task p (\<lambda>t. t\<lparr>task_class := fair_sched_class\<rparr>) s));
     set_load_weight p s
   }"

definition check_same_owner :: "kenv \<Rightarrow> kst \<Rightarrow> tid \<Rightarrow> bool" where
  "check_same_owner K s p \<longleftrightarrow>
     (if cred_user_ns K (current s) = cred_user_ns K p
      then cred_euid K (current s) = cred_euid K p \<or> cred_euid K (current s) = cred_uid K p
      else False)"

text \<open>
  The checks of \<open>__sched_setscheduler\<close> before the run-queue lock is taken: \<open>Some err\<close> is an
  early return.
\<close>

definition valid_policy :: "int \<Rightarrow> bool" where
  "valid_policy pol \<longleftrightarrow>
     pol = SCHED_FIFO \<or> pol = SCHED_RR \<or> pol = SCHED_NORMAL \<or> pol = SCHED_BATCH \<or>
     pol = SCHED_IDLE \<or> pol = SCHED_WRR"

definition setscheduler_param_check :: "kst \<Rightarrow> tid \<Rightarrow> int \<Rightarrow> int \<Rightarrow> int option" where
  "setscheduler_param_check s p pol pr =
     (if pr < 0 \<or> (has_mm (tasks s p) \<and> pr > MAX_USER_RT_PRIO - 1) \<or>
         (\<not> has_mm (tasks s p) \<and> pr > MAX_RT_PRIO - 1) then Some (- EINVAL)
      else if rt_policy pol \<noteq> (pr \<noteq> 0) \<and> wrr_policy pol \<noteq> (pr \<noteq> 0) then Some (- EINVAL)
      else None)"

definition setscheduler_perm_check :: "kenv \<Rightarrow> kst \<Rightarrow> tid \<Rightarrow> int \<Rightarrow> int \<Rightarrow> bool \<Rightarrow> int option" where
  "setscheduler_perm_check K s p pol pr reset_on_fork =
     (if capable_nice K then None
      else if rt_policy pol \<and> pol \<noteq> policy (tasks s p) \<and> rlimit_rtprio K p = 0 then Some (- EPERM)
      else if rt_policy pol \<and> (word_of_int pr :: u32) > rt_priority (tasks s p) \<and>
              (word_of_int pr :: ulong) > rlimit_rtprio K p then Some (- EPERM)
      else if policy (tasks s p) = SCHED_IDLE \<and> pol \<noteq> SCHED_IDLE \<and> \<not> can_nice K p (task_nice s p)
      then Some (- EPERM)
      else if \<not> check_same_owner K s p then Some (- EPERM)
      else if sched_reset_on_fork (tasks s p) \<and> \<not> reset_on_fork then Some (- EPERM)
      else None)"

text \<open>The change itself, with the run-queue lock held.\<close>

definition setscheduler_change :: "kenv \<Rightarrow> tid \<Rightarrow> int \<Rightarrow> int \<Rightarrow> bool \<Rightarrow> kst \<Rightarrow> (int \<times> kst) option" where
  "setscheduler_change K p pol pr reset_on_fork s = do {
     let c = task_cpu s p;
     let queued = on_rq (tasks s p);
     let running = task_current s c p;
     s \<leftarrow> (if queued then dequeue_task K c p 0 s else Some s);
     s \<leftarrow> (if running then op_put_prev_task (class_of K s p) c p s else Some s);
     let s = upd_task p (\<lambda>t. t\<lparr>sched_reset_on_fork := reset_on_fork\<rparr>) s;
     let oldprio = prio (tasks s p);
     let prev_class = task_class (tasks s p);
     s \<leftarrow> setscheduler0 K c p pol pr s;
     s \<leftarrow> (if running then op_set_curr_task (class_of K s p) c s else Some s);
     s \<leftarrow> (if queued then enqueue_task K c p 0 s else Some s);
     s \<leftarrow> check_class_changed K c p prev_class oldprio s;
     Some (0, ext (Task_note ''rt_mutex_adjust_pi'' p) s)
   }"

text \<open>
  The whole function; \<open>goto recheck\<close> is the recursion. Without concurrent changes the policy
  cannot differ from the one read before, so it is taken at most once.
\<close>

partial_function (option) sched_setscheduler1 ::
  "kenv \<Rightarrow> tid \<Rightarrow> int \<Rightarrow> int \<Rightarrow> bool \<Rightarrow> kst \<Rightarrow> (int \<times> kst) option" where
  "sched_setscheduler1 K p pol pr user s =
     (let oldpolicy = (if pol < 0 then policy (tasks s p) else -1);
          reset_on_fork = (if pol < 0 then sched_reset_on_fork (tasks s p)
                           else pol AND SCHED_RESET_ON_FORK \<noteq> 0);
          npol = (if pol < 0 then policy (tasks s p) else pol AND NOT SCHED_RESET_ON_FORK);
          c = task_cpu s p in
      if pol \<ge> 0 \<and> \<not> valid_policy npol then Some (- EINVAL, s)
      else case setscheduler_param_check s p npol pr of Some err \<Rightarrow> Some (err, s) | None \<Rightarrow>
      case (if user then setscheduler_perm_check K s p npol pr reset_on_fork else None) of
        Some err \<Rightarrow> Some (err, s) | None \<Rightarrow>
      if user \<and> security_setscheduler K p \<noteq> 0 then Some (security_setscheduler K p, s)
      else if stop (rqs s c) = Some p then Some (- EINVAL, s)
      else if npol = policy (tasks s p) \<and>
              (\<not> rt_policy npol \<or> (word_of_int pr :: u32) = rt_priority (tasks s p)) then Some (0, s)
      else if user \<and> rt_bandwidth_enabled s \<and> rt_policy npol \<and>
              tg_rt_runtime (task_groups s (sched_task_group (tasks s p))) = 0 \<and>
              \<not> is_autogroup K (sched_task_group (tasks s p)) then Some (- EPERM, s)
      else if oldpolicy \<noteq> -1 \<and> oldpolicy \<noteq> policy (tasks s p) then sched_setscheduler1 K p (-1) pr user s
      else setscheduler_change K p npol pr reset_on_fork s)"

definition sched_setscheduler :: "kenv \<Rightarrow> tid \<Rightarrow> int \<Rightarrow> int \<Rightarrow> kst \<Rightarrow> (int \<times> kst) option" where
  "sched_setscheduler K p pol pr s = sched_setscheduler1 K p pol pr True s"

definition sched_setscheduler_nocheck :: "kenv \<Rightarrow> tid \<Rightarrow> int \<Rightarrow> int \<Rightarrow> kst \<Rightarrow> (int \<times> kst) option" where
  "sched_setscheduler_nocheck K p pol pr s = sched_setscheduler1 K p pol pr False s"

definition sched_set_stop_task :: "kenv \<Rightarrow> cpu \<Rightarrow> tid option \<Rightarrow> kst \<Rightarrow> kst option" where
  "sched_set_stop_task K c st s = do {
     let old_stop = stop (rqs s c);
     s \<leftarrow> (case st of
            None \<Rightarrow> Some s
          | Some p \<Rightarrow> do {
              (_, s) \<leftarrow> sched_setscheduler_nocheck K p SCHED_FIFO (MAX_RT_PRIO - 1) s;
              Some (upd_task p (\<lambda>t. t\<lparr>task_class := stop_sched_class\<rparr>) s)
            });
     let s = upd_rq c (\<lambda>r. r\<lparr>stop := st\<rparr>) s;
     Some (case old_stop of
             None \<Rightarrow> s
           | Some q \<Rightarrow> upd_task q (\<lambda>t. t\<lparr>task_class := rt_sched_class\<rparr>) s)
   }"

definition rt_mutex_setprio :: "kenv \<Rightarrow> tid \<Rightarrow> int \<Rightarrow> kst \<Rightarrow> kst option" where
  "rt_mutex_setprio K p pr s = do {
     _ \<leftarrow> BUG_ON (pr < 0 \<or> pr > MAX_PRIO);
     let c = task_cpu s p;
     if p = idle (rqs s c) then Some s
     else do {
       let oldprio = prio (tasks s p);
       let prev_class = task_class (tasks s p);
       let queued = on_rq (tasks s p);
       let running = task_current s c p;
       s \<leftarrow> (if queued then dequeue_task K c p 0 s else Some s);
       s \<leftarrow> (if running then op_put_prev_task (class_of K s p) c p s else Some s);
       let s = upd_task p (\<lambda>t. t\<lparr>task_class := if rt_prio pr then rt_sched_class else fair_sched_class\<rparr>) s;
       let s = upd_task p (\<lambda>t. t\<lparr>prio := pr\<rparr>) s;
       s \<leftarrow> (if running then op_set_curr_task (class_of K s p) c s else Some s);
       s \<leftarrow> (if queued then enqueue_task K c p (if oldprio < pr then ENQUEUE_HEAD else 0) s else Some s);
       check_class_changed K c p prev_class oldprio s
     }
   }"

section \<open>System calls\<close>

text \<open>A user pointer is NULL, faults when it is copied, or holds a value.\<close>

datatype 'a user_ptr = Null_ptr | Bad_ptr | User 'a

definition do_sched_setscheduler ::
  "kenv \<Rightarrow> int \<Rightarrow> int \<Rightarrow> int user_ptr \<Rightarrow> kst \<Rightarrow> (int \<times> kst) option" where
  "do_sched_setscheduler K pid pol param s =
     (if param = Null_ptr \<or> pid < 0 then Some (- EINVAL, s)
      else case param of
        User sched_priority \<Rightarrow>
          (case find_process_by_pid K s pid of
             None \<Rightarrow> Some (- ESRCH, s)
           | Some p \<Rightarrow> sched_setscheduler K p pol sched_priority s)
      | _ \<Rightarrow> Some (- EFAULT, s))"

definition sys_sched_setscheduler ::
  "kenv \<Rightarrow> int \<Rightarrow> int \<Rightarrow> int user_ptr \<Rightarrow> kst \<Rightarrow> (int \<times> kst) option" where
  "sys_sched_setscheduler K pid pol param s =
     (if pol < 0 then Some (- EINVAL, s) else do_sched_setscheduler K pid pol param s)"

definition sys_sched_setparam :: "kenv \<Rightarrow> int \<Rightarrow> int user_ptr \<Rightarrow> kst \<Rightarrow> (int \<times> kst) option" where
  "sys_sched_setparam K pid param s = do_sched_setscheduler K pid (-1) param s"

definition sys_sched_getscheduler :: "kenv \<Rightarrow> int \<Rightarrow> kst \<Rightarrow> int" where
  "sys_sched_getscheduler K pid s =
     (if pid < 0 then - EINVAL
      else case find_process_by_pid K s pid of
        None \<Rightarrow> - ESRCH
      | Some p \<Rightarrow>
          let retval = security_getscheduler K p in
          if retval = 0
          then policy (tasks s p) OR (if sched_reset_on_fork (tasks s p) then SCHED_RESET_ON_FORK else 0)
          else retval)"

text \<open>The value written to user space is the second component.\<close>

definition sys_sched_getparam :: "kenv \<Rightarrow> int \<Rightarrow> unit user_ptr \<Rightarrow> kst \<Rightarrow> int \<times> int option" where
  "sys_sched_getparam K pid param s =
     (if param = Null_ptr \<or> pid < 0 then (- EINVAL, None)
      else case find_process_by_pid K s pid of
        None \<Rightarrow> (- ESRCH, None)
      | Some p \<Rightarrow>
          let retval = security_getscheduler K p in
          if retval \<noteq> 0 then (retval, None)
          else if param = Bad_ptr then (- EFAULT, None)
          else (0, Some (sint (rt_priority (tasks s p)))))"

definition sys_sched_get_priority_max :: "int \<Rightarrow> int" where
  "sys_sched_get_priority_max pol =
     (if pol = SCHED_FIFO \<or> pol = SCHED_RR then MAX_USER_RT_PRIO - 1
      else if pol = SCHED_WRR then MAX_USER_WRR_PRIO - 1
      else if pol = SCHED_NORMAL \<or> pol = SCHED_BATCH \<or> pol = SCHED_IDLE then 0
      else - EINVAL)"

definition sys_sched_get_priority_min :: "int \<Rightarrow> int" where
  "sys_sched_get_priority_min pol =
     (if pol = SCHED_FIFO \<or> pol = SCHED_RR \<or> pol = SCHED_WRR then 1
      else if pol = SCHED_NORMAL \<or> pol = SCHED_BATCH \<or> pol = SCHED_IDLE then 0
      else - EINVAL)"

text \<open>The interval written to user space, in ticks (\<open>jiffies_to_timespec\<close> is not modelled).\<close>

definition sys_sched_rr_get_interval ::
  "kenv \<Rightarrow> int \<Rightarrow> unit user_ptr \<Rightarrow> kst \<Rightarrow> (int \<times> u32 option \<times> kst) option" where
  "sys_sched_rr_get_interval K pid interval s =
     (if pid < 0 then Some (- EINVAL, None, s)
      else case find_process_by_pid K s pid of
        None \<Rightarrow> Some (- ESRCH, None, s)
      | Some p \<Rightarrow>
          let retval = security_getscheduler K p in
          if retval \<noteq> 0 then Some (retval, None, s)
          else do {
            get_rr_interval \<leftarrow> op_get_rr_interval (class_of K s p);
            (time_slice, s) \<leftarrow> get_rr_interval (task_cpu s p) (Some p) s;
            Some (if interval = User () then (0, Some time_slice, s) else (- EFAULT, None, s))
          })"

section \<open>Normalising RT tasks\<close>

definition normalize_task :: "kenv \<Rightarrow> cpu \<Rightarrow> tid \<Rightarrow> kst \<Rightarrow> kst option" where
  "normalize_task K c p s = do {
     let prev_class = task_class (tasks s p);
     let old_prio = prio (tasks s p);
     let queued = on_rq (tasks s p);
     s \<leftarrow> (if queued then dequeue_task K c p 0 s else Some s);
     s \<leftarrow> setscheduler0 K c p SCHED_NORMAL 0 s;
     s \<leftarrow> (if queued then do {
            s \<leftarrow> enqueue_task K c p 0 s;
            Some (resched_task (base K) (curr (rqs s c)) s)
          } else Some s);
     check_class_changed K c p prev_class old_prio s
   }"

text \<open>The loop over all threads, given as a list.\<close>

primrec normalize_rt_tasks :: "kenv \<Rightarrow> tid list \<Rightarrow> kst \<Rightarrow> kst option" where
  "normalize_rt_tasks K [] s = Some s"
| "normalize_rt_tasks K (p # ps) s =
     Option.bind
       (if \<not> has_mm (tasks s p) then Some s
        else
          let s = upd_task p (\<lambda>t. t\<lparr>se := (se t)\<lparr>exec_start := 0\<rparr>\<rparr>) s in
          if \<not> rt_task s p then
            if task_nice s p < 0 \<and> has_mm (tasks s p) then set_user_nice K p 0 s else Some s
          else normalize_task K (task_cpu s p) p s)
       (normalize_rt_tasks K ps)"

end
