(* ===== verification/Core_Migrate.thy ===== *)
theory Core_Migrate
  imports Core_Schedule Core_Setsched
begin

text \<open>
  CPU affinity and migration (kernel/core.c). \<open>stop_one_cpu\<close> runs its function synchronously on
  the CPU it names. A user mask is the set of bits its bytes hold; \<open>NR_CPUS\<close> bounds a mask.
\<close>

section \<open>Migration\<close>

definition migrate_task0 :: "kenv \<Rightarrow> tid \<Rightarrow> cpu \<Rightarrow> cpu \<Rightarrow> kst \<Rightarrow> (bool \<times> kst) option" where
  "migrate_task0 K p src_cpu dest_cpu s =
     (if dest_cpu \<notin> cpu_active s then Some (False, s)
      else if task_cpu s p \<noteq> src_cpu then Some (True, s)
      else if dest_cpu \<notin> cpus_allowed (tasks s p) then Some (False, s)
      else do {
        s \<leftarrow> (if on_rq (tasks s p) then do {
               s \<leftarrow> dequeue_task K src_cpu p 0 s;
               let s = set_task_cpu p dest_cpu s;
               s \<leftarrow> enqueue_task K dest_cpu p 0 s;
               check_preempt_curr K dest_cpu p 0 s
             } else Some s);
        Some (True, s)
      })"

definition migration_cpu_stop :: "kenv \<Rightarrow> cpu \<Rightarrow> tid \<Rightarrow> cpu \<Rightarrow> kst \<Rightarrow> kst option" where
  "migration_cpu_stop K c p dest_cpu s = do {
     (_, s) \<leftarrow> migrate_task0 K p c dest_cpu s;
     Some s
   }"

definition SD_BALANCE_EXEC :: u32 where "SD_BALANCE_EXEC = 0x0004"

definition sched_exec :: "kenv \<Rightarrow> kst \<Rightarrow> kst option" where
  "sched_exec K s = do {
     let p = current s;
     dest_cpu \<leftarrow> op_select_task_rq (class_of K s p) p SD_BALANCE_EXEC 0 s;
     if dest_cpu = this_cpu s then Some s
     else if dest_cpu \<in> cpu_active s then migration_cpu_stop K (task_cpu s p) p dest_cpu s
     else Some s
   }"

definition set_cpus_allowed_ptr :: "kenv \<Rightarrow> tid \<Rightarrow> cpu set \<Rightarrow> kst \<Rightarrow> (int \<times> kst) option" where
  "set_cpus_allowed_ptr K p new_mask s =
     (if cpus_allowed (tasks s p) = new_mask then Some (0, s)
      else if new_mask \<inter> cpu_active s = {} then Some (- EINVAL, s)
      else if tflags (tasks s p) AND PF_THREAD_BOUND \<noteq> 0 \<and> p \<noteq> current s then Some (- EINVAL, s)
      else do {
        s \<leftarrow> do_set_cpus_allowed K p new_mask s;
        if task_cpu s p \<in> new_mask then Some (0, s)
        else do {
          dest_cpu \<leftarrow> List.find (\<lambda>c. c \<in> cpu_active s \<and> c \<in> new_mask) [0..<nr_cpus s];
          if on_rq (tasks s p) then do {
            s \<leftarrow> migration_cpu_stop K (task_cpu s p) p dest_cpu s;
            Some (0, s)
          }
          else Some (0, s)
        }
      })"

text \<open>\<open>goto again\<close>: only a concurrent change of the cpuset makes it repeat.\<close>

partial_function (option) setaffinity_loop :: "kenv \<Rightarrow> tid \<Rightarrow> cpu set \<Rightarrow> kst \<Rightarrow> (int \<times> kst) option" where
  "setaffinity_loop K p new_mask s = do {
     (retval, s) \<leftarrow> set_cpus_allowed_ptr K p new_mask s;
     if retval = 0 \<and> \<not> new_mask \<subseteq> cpuset_allowed K p
     then setaffinity_loop K p (cpuset_allowed K p) s
     else Some (retval, s)
   }"

definition sched_setaffinity :: "kenv \<Rightarrow> int \<Rightarrow> cpu set \<Rightarrow> kst \<Rightarrow> (int \<times> kst) option" where
  "sched_setaffinity K pid in_mask s =
     (case find_process_by_pid K s pid of
        None \<Rightarrow> Some (- ESRCH, s)
      | Some p \<Rightarrow>
          if \<not> alloc_cpumask_ok K then Some (- ENOMEM, s)
          else if \<not> check_same_owner K s p \<and> \<not> ns_capable_nice K p then Some (- EPERM, s)
          else if security_setscheduler K p \<noteq> 0 then Some (security_setscheduler K p, s)
          else setaffinity_loop K p (in_mask \<inter> cpuset_allowed K p) s)"

text \<open>\<open>cpumask_size\<close> is \<open>nr\<close> bits rounded up to whole words, in bytes.\<close>

definition get_user_cpu_mask :: "nat \<Rightarrow> cpu set user_ptr \<Rightarrow> nat \<Rightarrow> int \<times> cpu set" where
  "get_user_cpu_mask cpumask_size user_mask len =
     (case user_mask of
        User m \<Rightarrow> (0, {c \<in> m. c < 8 * min len cpumask_size})
      | _ \<Rightarrow> (- EFAULT, {}))"

definition sys_sched_setaffinity ::
  "kenv \<Rightarrow> nat \<Rightarrow> int \<Rightarrow> nat \<Rightarrow> cpu set user_ptr \<Rightarrow> kst \<Rightarrow> (int \<times> kst) option" where
  "sys_sched_setaffinity K cpumask_size pid len user_mask s =
     (if \<not> alloc_cpumask_ok K then Some (- ENOMEM, s)
      else
        let (retval, new_mask) = get_user_cpu_mask cpumask_size user_mask len in
        if retval = 0 then sched_setaffinity K pid new_mask s else Some (retval, s))"

definition sched_getaffinity :: "kenv \<Rightarrow> int \<Rightarrow> kst \<Rightarrow> int \<times> cpu set" where
  "sched_getaffinity K pid s =
     (case find_process_by_pid K s pid of
        None \<Rightarrow> (- ESRCH, {})
      | Some p \<Rightarrow>
          if security_getscheduler K p \<noteq> 0 then (security_getscheduler K p, {})
          else (0, cpus_allowed (tasks s p) \<inter> cpu_online s))"

definition sys_sched_getaffinity ::
  "kenv \<Rightarrow> nat \<Rightarrow> int \<Rightarrow> u32 \<Rightarrow> unit user_ptr \<Rightarrow> kst \<Rightarrow> int \<times> cpu set option" where
  "sys_sched_getaffinity K cpumask_size pid len user_mask s =
     (if len * 8 < word_of_nat (nr_cpus s) then (- EINVAL, None)
      else if len AND 3 \<noteq> 0 then (- EINVAL, None)
      else if \<not> alloc_cpumask_ok K then (- ENOMEM, None)
      else
        let (ret, mask) = sched_getaffinity K pid s in
        if ret = 0 then
          (if user_mask = User () then (let retlen = min (unat len) cpumask_size in
                                     (int retlen, Some {c \<in> mask. c < 8 * retlen}))
           else (- EFAULT, None))
        else (ret, None))"

section \<open>Taking a CPU down\<close>

definition migrate_nr_uninterruptible :: "cpu \<Rightarrow> kst \<Rightarrow> kst option" where
  "migrate_nr_uninterruptible src s = do {
     dest \<leftarrow> List.find (\<lambda>c. c \<in> cpu_active s) [0..<nr_cpus s];
     let s = upd_rq dest (\<lambda>r. r\<lparr>nr_uninterruptible := nr_uninterruptible r + nr_uninterruptible (rqs s src)\<rparr>) s;
     Some (upd_rq src (\<lambda>r. r\<lparr>nr_uninterruptible := 0\<rparr>) s)
   }"

definition calc_global_load_remove :: "cpu \<Rightarrow> kst \<Rightarrow> kst" where
  "calc_global_load_remove c s =
     (let s = upd_gload (\<lambda>g. g\<lparr>calc_load_tasks := calc_load_tasks g - calc_load_active (rqs s c)\<rparr>) s
      in upd_rq c (\<lambda>r. r\<lparr>calc_load_active := 0\<rparr>) s)"

partial_function (option) migrate_tasks_loop :: "kenv \<Rightarrow> cpu \<Rightarrow> kst \<Rightarrow> kst option" where
  "migrate_tasks_loop K dead_cpu s =
     (if nr_running (rqs s dead_cpu) = 1 then Some s
      else do {
        (next, s) \<leftarrow> pick_next_task K dead_cpu s;
        s \<leftarrow> op_put_prev_task (class_of K s next) dead_cpu next s;
        (dest_cpu, s) \<leftarrow> select_fallback_rq K dead_cpu next s;
        (_, s) \<leftarrow> migrate_task0 K next dead_cpu dest_cpu s;
        migrate_tasks_loop K dead_cpu s
      })"

text \<open>\<open>unthrottle_offline_cfs_rqs\<close> belongs to the fair class and is a note in the trace.\<close>

definition migrate_tasks :: "kenv \<Rightarrow> cpu \<Rightarrow> kst \<Rightarrow> kst option" where
  "migrate_tasks K dead_cpu s = do {
     let st = stop (rqs s dead_cpu);
     let s = upd_rq dead_cpu (\<lambda>r. r\<lparr>stop := None\<rparr>) s;
     let s = ext (Cpu_note ''unthrottle_offline_cfs_rqs'' dead_cpu) s;
     s \<leftarrow> migrate_tasks_loop K dead_cpu s;
     Some (upd_rq dead_cpu (\<lambda>r. r\<lparr>stop := st\<rparr>) s)
   }"

end
