(* ===== verification/Core_Sched_Spec.thy ===== *)
theory Core_Sched_Spec
  imports Core_Setsched Wrr_Basic_Spec
begin

text \<open>
  What the core promises about dispatch and about scheduling parameters. The contract a class
  must keep is the locale \<open>keeps_params\<close>: its calls do not change what the core owns of a task.
\<close>

section \<open>What the core owns\<close>

definition task_params :: "task_struct \<Rightarrow> int \<times> u32 \<times> int \<times> int \<times> int \<times> bool \<times> sched_class" where
  "task_params t = (policy t, rt_priority t, static_prio t, normal_prio t, prio t,
                    sched_reset_on_fork t, task_class t)"

definition params_same :: "kst \<Rightarrow> kst \<Rightarrow> bool" where
  "params_same s s' \<longleftrightarrow>
     (\<forall>p. task_params (tasks s' p) = task_params (tasks s p) \<and> on_rq (tasks s' p) = on_rq (tasks s p)) \<and>
     (\<forall>c. curr (rqs s' c) = curr (rqs s c) \<and> idle (rqs s' c) = idle (rqs s c) \<and>
          stop (rqs s' c) = stop (rqs s c)) \<and>
     this_cpu s' = this_cpu s"

lemma params_same_refl [simp, intro]: "params_same s s"
  by (simp add: params_same_def)

lemma params_same_trans: "params_same s s' \<Longrightarrow> params_same s' s'' \<Longrightarrow> params_same s s''"
  by (simp add: params_same_def)

lemma params_sameD:
  assumes "params_same s s'"
  shows "policy (tasks s' p) = policy (tasks s p)" "rt_priority (tasks s' p) = rt_priority (tasks s p)"
    "static_prio (tasks s' p) = static_prio (tasks s p)" "prio (tasks s' p) = prio (tasks s p)"
    "sched_reset_on_fork (tasks s' p) = sched_reset_on_fork (tasks s p)"
    "task_class (tasks s' p) = task_class (tasks s p)" "curr (rqs s' c) = curr (rqs s c)"
    "stop (rqs s' c) = stop (rqs s c)" "on_rq (tasks s' p) = on_rq (tasks s p)"
    "this_cpu s' = this_cpu s"
  using assms by (simp_all add: params_same_def task_params_def)

text \<open>Bookkeeping on any state leaves the parameters as they were.\<close>

lemma params_same_upd_task:
  "task_params t = task_params (tasks u p) \<Longrightarrow> on_rq t = on_rq (tasks u p) \<Longrightarrow>
   params_same s (u\<lparr>tasks := (tasks u)(p := t)\<rparr>) \<longleftrightarrow> params_same s u"
  by (auto simp: params_same_def)

lemma params_same_upd_rq:
  "curr r = curr (rqs u c) \<Longrightarrow> idle r = idle (rqs u c) \<Longrightarrow> stop r = stop (rqs u c) \<Longrightarrow>
   params_same s (u\<lparr>rqs := (rqs u)(c := r)\<rparr>) \<longleftrightarrow> params_same s u"
  by (auto simp: params_same_def)

lemma params_same_upd [simp]:
  "params_same s (upd_task p (\<lambda>t. t\<lparr>se := x\<rparr>) u) \<longleftrightarrow> params_same s u"
  "params_same s (upd_task p (\<lambda>t. t\<lparr>wrr := y\<rparr>) u) \<longleftrightarrow> params_same s u"
  "params_same s (upd_task p (\<lambda>t. t\<lparr>ti_need_resched := b\<rparr>) u) \<longleftrightarrow> params_same s u"
  "params_same s (u\<lparr>ca_usage := U\<rparr>) \<longleftrightarrow> params_same s u" "params_same s (u\<lparr>trace := tr\<rparr>) \<longleftrightarrow> params_same s u"
  "params_same s (u\<lparr>wrr_list := L\<rparr>) \<longleftrightarrow> params_same s u" "params_same s (u\<lparr>leaf_wrr := F\<rparr>) \<longleftrightarrow> params_same s u"
  "params_same s (u\<lparr>wrr_rqs := Q\<rparr>) \<longleftrightarrow> params_same s u" "params_same s (u\<lparr>group_path := pth\<rparr>) \<longleftrightarrow> params_same s u"
  by (simp_all add: params_same_upd_task task_params_def) (simp_all add: params_same_def)

lemma params_same_simps [simp]:
  "params_same s (ext x u) \<longleftrightarrow> params_same s u" "params_same s (set_tsk_need_resched p u) \<longleftrightarrow> params_same s u"
  "params_same s (resched_task E p u) \<longleftrightarrow> params_same s u" "params_same s (update_rq_clock K c u) \<longleftrightarrow> params_same s u"
  "params_same s (inc_nr_running c u) \<longleftrightarrow> params_same s u" "params_same s (dec_nr_running c u) \<longleftrightarrow> params_same s u"
  "params_same s (cpuacct_charge E p d u) \<longleftrightarrow> params_same s u"
proof -
  show e: "params_same s (ext x u) \<longleftrightarrow> params_same s u" "params_same s (set_tsk_need_resched p u) \<longleftrightarrow> params_same s u"
    for p x u
    by (simp_all only: ext_def set_tsk_need_resched_def params_same_upd)
  show "params_same s (resched_task E p u) \<longleftrightarrow> params_same s u"
    by (simp add: resched_task_def Let_def e)
  show "params_same s (update_rq_clock K c u) \<longleftrightarrow> params_same s u"
    by (simp add: update_rq_clock_def update_rq_clock_task_def Let_def params_same_upd_rq)
  show "params_same s (inc_nr_running c u) \<longleftrightarrow> params_same s u" "params_same s (dec_nr_running c u) \<longleftrightarrow> params_same s u"
    by (simp_all add: inc_nr_running_def dec_nr_running_def params_same_upd_rq)
  show "params_same s (cpuacct_charge E p d u) \<longleftrightarrow> params_same s u"
    by (simp add: cpuacct_charge_def Let_def)
qed

text \<open>One step of a do-block of operations that keep the parameters.\<close>

lemma params_same_bind:
  "Option.bind x f = Some s' \<Longrightarrow> (\<And>t. x = Some t \<Longrightarrow> params_same s t) \<Longrightarrow>
   (\<And>t. x = Some t \<Longrightarrow> f t = Some s' \<Longrightarrow> params_same t s') \<Longrightarrow> params_same s s'"
  by (cases x) (auto intro: params_same_trans)

section \<open>The contract of a class\<close>

locale keeps_params =
  fixes C :: class_ops
  assumes enqueue_law: "op_enqueue_task C c p flags s = Some s' \<Longrightarrow> params_same s s'"
    and dequeue_law: "op_dequeue_task C c p flags s = Some s' \<Longrightarrow> params_same s s'"
    and put_prev_law: "op_put_prev_task C c p s = Some s' \<Longrightarrow> params_same s s'"
    and set_curr_law: "op_set_curr_task C c s = Some s' \<Longrightarrow> params_same s s'"
    and switched_from_law: "op_switched_from C = Some f \<Longrightarrow> f c p s = Some s' \<Longrightarrow> params_same s s'"
    and switched_to_law: "op_switched_to C c p s = Some s' \<Longrightarrow> params_same s s'"
    and prio_changed_law: "op_prio_changed C c p old s = Some s' \<Longrightarrow> params_same s s'"
    and get_rr_interval_law: "op_get_rr_interval C = Some g \<Longrightarrow> g c t s = Some (sl, s') \<Longrightarrow> params_same s s'"
begin

text \<open>The sequence put-previous, set-current on one class.\<close>

lemma put_set_same:
  "Option.bind (op_put_prev_task C c p s) (op_set_curr_task C c) = Some s' \<Longrightarrow> params_same s s'"
  by (erule params_same_bind) (blast intro: put_prev_law set_curr_law)+

end

lemma params_same_update_curr [simp]: "params_same s (update_curr_wrr E c u) \<longleftrightarrow> params_same s u"
  unfolding update_curr_wrr_def Let_def
  by (simp only: params_same_simps params_same_upd if_cancel split: if_split) blast

lemma params_same_task_group_path [simp]: "params_same s (task_group_path E tg s)"
  by (simp add: params_same_def) (simp add: task_group_path_def Let_def split: prod.split)

lemma params_same_leaf:
  "list_add_leaf_wrr_rq q t = Some s' \<Longrightarrow> params_same s s' = params_same s t"
  "list_del_leaf_wrr_rq q t = Some s' \<Longrightarrow> params_same s s' = params_same s t"
  by (auto simp: list_add_leaf_wrr_rq_def list_del_leaf_wrr_rq_def elim!: bindE)

lemma params_same_wrr_entity:
  "enqueue_wrr_entity e head s = Some s' \<Longrightarrow> params_same s s'"
  "dequeue_wrr_entity e s = Some s' \<Longrightarrow> params_same s s'"
  unfolding enqueue_wrr_entity_def dequeue_wrr_entity_def Let_def
  by (elim bindE; simp add: params_same_leaf split: if_split_asm; clarsimp simp: params_same_leaf)+

lemma params_same_enqueue_wrr: "enqueue_task_wrr c p flags s = Some s' \<Longrightarrow> params_same s s'"
  unfolding enqueue_task_wrr_def
  by (elim bindE) (auto dest: params_same_wrr_entity intro: params_same_trans)

lemma params_same_dequeue_wrr: "dequeue_task_wrr E c p flags s = Some s' \<Longrightarrow> params_same s s'"
  unfolding dequeue_task_wrr_def Let_def
  by (elim bindE) (auto dest!: params_same_wrr_entity intro: params_same_trans [rotated])

interpretation wrr_params: keeps_params "wrr_class E" for E
proof
  show "op_enqueue_task (wrr_class E) c p flags s = Some s' \<Longrightarrow> params_same s s'" for c p flags s s'
    by (simp add: wrr_class_def params_same_enqueue_wrr)
  show "op_dequeue_task (wrr_class E) c p flags s = Some s' \<Longrightarrow> params_same s s'" for c p flags s s'
    by (simp add: wrr_class_def params_same_dequeue_wrr)
  show "op_put_prev_task (wrr_class E) c p s = Some s' \<Longrightarrow> params_same s s'" for c p s s'
    by (auto simp: wrr_class_def put_prev_task_wrr_def)
  show "op_set_curr_task (wrr_class E) c s = Some s' \<Longrightarrow> params_same s s'" for c s s'
    by (auto simp: wrr_class_def set_curr_task_wrr_def params_same_def task_params_def split: if_splits)
  show "op_switched_from (wrr_class E) = Some f \<Longrightarrow> f c p s = Some s' \<Longrightarrow> params_same s s'" for f c p s s'
    by (auto simp: wrr_class_def wrr_dummy_defs)
  show "op_switched_to (wrr_class E) c p s = Some s' \<Longrightarrow> params_same s s'" for c p s s'
    by (auto simp: wrr_class_def switched_to_wrr_def split: if_splits)
  show "op_prio_changed (wrr_class E) c p old s = Some s' \<Longrightarrow> params_same s s'" for c p old s s'
    by (auto simp: wrr_class_def wrr_dummy_defs)
  show "op_get_rr_interval (wrr_class E) = Some g \<Longrightarrow> g c t s = Some (sl, s') \<Longrightarrow> params_same s s'" for g c t s sl s'
    by (auto simp: wrr_class_def get_rr_interval_wrr_def Let_def split: option.splits)
qed

section \<open>Dispatch\<close>

text \<open>Strict priority of the classes. When every class above some class has nothing to run and
  that class offers a task, pick_next_task returns that task and the classes below it are not
  asked. The fair-class shortcut does not change this, because it is tried only when all
  runnable tasks are fair ones.\<close>

theorem pick_next_task_strict:
  assumes "\<And>j. j < k \<Longrightarrow> op_pick_next_task (ops K j) c s = Some (None, s)"
    and "op_pick_next_task (ops K k) c s = Some (Some p, s')"
    and "k < fair_sched_class \<Longrightarrow> nr_running (rqs s c) \<noteq> cfs_h_nr_running (rqs s c)"
  shows "pick_next_task K c s = Some (p, s')"
  using assms
  by (cases k) (auto simp: pick_next_task_def all_classes_def less_sched_class_def)

definition sample_kenv :: kenv where
  "sample_kenv =
     \<lparr>base = sample_env,
      ops = (\<lambda>_. (wrr_class sample_env)\<lparr>op_pick_next_task := (\<lambda>c s. Some (None, s))\<rparr>)
              (wrr_sched_class := wrr_class sample_env),
      sched_clock_cpu = (\<lambda>_ _. 1000), rt_mutex_getprio = (\<lambda>s p. normal_prio (tasks s p)),
      rlimit_nice = (\<lambda>_. 0), rlimit_rtprio = (\<lambda>_. 0), capable_nice = False,
      cred_user_ns = (\<lambda>_. 0), cred_uid = (\<lambda>_. 1000), cred_euid = (\<lambda>_. 1000),
      security_setscheduler = (\<lambda>_. 0), security_getscheduler = (\<lambda>_. 0), security_setnice = (\<lambda>_ _. 0),
      find_task_by_vpid = (\<lambda>pid. Some (nat pid)), is_autogroup = (\<lambda>_. False),
      ttwu_queue_feat = True, share_cache = (\<lambda>_ _. True), migration_cost = 500000,
      signal_pending = (\<lambda>_ _. False),
      fatal_signal_pending = (\<lambda>_ _. False), PREEMPT_ACTIVE = 0x40000000, rt_runtime_share = True,
      cpupri_find = (\<lambda>_ _ _. None), sched_domains = (\<lambda>_. []), rlimit_rttime = (\<lambda>_. (- 1, - 1)),
      CPUPRI_INVALID = - 1, double_lock_balance = (\<lambda>_ _ s. (False, s)), wq_sleeping = (\<lambda>_ _ _. None), idle_balance = (\<lambda>_ s. s),
      cpuset_fallback = (\<lambda>_ _. {0}), nodemask = (\<lambda>_. [0]),
      got_nohz_idle_kick = (\<lambda>_. False), cpuset_allowed = (\<lambda>_. {0}), ns_capable_nice = (\<lambda>_. False),
      alloc_cpumask_ok = True, yield_to_task = (\<lambda>_. None)\<rparr>"

lemma sample_kenv_keeps [simp]: "keeps_params (ops sample_kenv k)"
  using wrr_params.keeps_params_axioms [of sample_env]
  by (simp add: keeps_params_def sample_kenv_def)

text \<open>The sample machine with task 2 current and its two WRR tasks counted.\<close>

definition sample_core :: kst where
  "sample_core = upd_rq 0 (\<lambda>r. r\<lparr>curr := 2, nr_running := 2\<rparr>) sample2"

lemma sample_core_same: "wrr_same sample2 sample_core"
  by (simp add: wrr_same_def task_cpu_def sample_core_def)

lemma sample_core_simps [simp]:
  "basic_inv sample_core" "nr_cpus sample_core = 1" "tasks sample_core = sample_task"
  "items (wrr_list sample_core) h = (if h = (Rq_of_cpu 0, 50) then [Se_of_task 2, Se_of_task 3] else [])"
  "curr (rqs sample_core 0) = 2" "nr_running (rqs sample_core 0) = 2"
  "wrr_nr_running (wrr_rqs sample_core (Rq_of_cpu 0)) = 2"
  using wrr_same_inv [OF sample_core_same]
  by (simp_all add: sample_core_def)

lemmas sample_core_unfold = sample_core_def sample2_def sample1_def sample_def machine_def q_enq_def
  Let_def sched_init_wrr_def bss_defs sched_init_wrr_cpu_def init_tg_wrr_entry_def init_wrr_rq_eq
  klist_empty_def

lemma sample_core_cfs [simp]: "cfs_h_nr_running (rqs sample_core 0) = 0" "this_cpu sample_core = 0"
  by (simp_all add: sample_core_unfold)

lemma sample_kenv_ops [simp]:
  "ops sample_kenv wrr_sched_class = wrr_class sample_env"
  "j \<noteq> wrr_sched_class \<Longrightarrow> op_pick_next_task (ops sample_kenv j) c s = Some (None, s)"
  "base sample_kenv = sample_env"
  by (simp_all add: sample_kenv_def)

lemma pick_first:
  assumes "basic_inv s" "c < nr_cpus s" "i < LEVELS" "items (wrr_list s) (Rq_of_cpu c, i) = Se_of_task p # es"
    "\<And>j. j < i \<Longrightarrow> items (wrr_list s) (Rq_of_cpu c, j) = []"
  shows "pick_next_task_wrr c s =
    Some (Some p, upd_task p (\<lambda>t. t\<lparr>se := (se t)\<lparr>exec_start := clock_task (rqs s c)\<rparr>\<rparr>) s)"
proof -
  have "pa_pick (wrr_view c s) = Some (Se_of_task p)"
    using pa_pick_eqI [of "wrr_view c s" i] wrr_invD(5) [OF assms(1,2)] assms(3-5) by simp
  then show ?thesis using pick_next_task_wrr_eq [OF assms(1,2)] by auto
qed

theorem pick_next_task_strict_witness:
  "\<exists>s'. pick_next_task sample_kenv 0 sample_core = Some (2, s')"
proof -
  have pick: "\<exists>s'. op_pick_next_task (ops sample_kenv wrr_sched_class) 0 sample_core = Some (Some 2, s')"
    using pick_first [of sample_core 0 50 2] by (simp add: wrr_class_def)
  have "j \<noteq> wrr_sched_class" if "j < wrr_sched_class" for j using that by auto
  with pick show ?thesis
    using pick_next_task_strict [of wrr_sched_class sample_kenv 0 sample_core 2] by fastforce
qed

lemma pick_wrr:
  assumes "basic_inv s" "c < nr_cpus s" "ops K wrr_sched_class = wrr_class E"
    and "\<And>k. k < wrr_sched_class \<Longrightarrow> op_pick_next_task (ops K k) c s = Some (None, s)"
    and "nr_running (rqs s c) = cfs_h_nr_running (rqs s c) + wrr_nr_running (wrr_rqs s (Rq_of_cpu c))"
    and "i < LEVELS" "items (wrr_list s) (Rq_of_cpu c, i) = Se_of_task p # es"
    and "\<And>j. j < i \<Longrightarrow> items (wrr_list s) (Rq_of_cpu c, j) = []"
  shows "pick_next_task K c s =
    Some (p, upd_task p (\<lambda>t. t\<lparr>se := (se t)\<lparr>exec_start := clock_task (rqs s c)\<rparr>\<rparr>) s)"
proof -
  have "Se_of_task p \<in> pa_members (wrr_view c s)" 
    using assms(6,7) by (auto simp: pa_members_def intro!: bexI [of _ i])
  then have "wrr_nr_running (wrr_rqs s (Rq_of_cpu c)) \<noteq> 0"
    using pa_ok_count [OF wrr_invD(5) [OF assms(1,2)]] by (auto simp: pa_members_def)
  then show ?thesis
    using pick_first [OF assms(1,2,6,7,8)] assms(3-5)
    by (auto simp: pick_next_task_def all_classes_def less_sched_class_def wrr_class_def)
qed

text \<open>A runnable WRR task runs before every fair task. If the CPU's running count is the fair
  count plus the WRR count, some WRR task is queued, and neither the stop nor the RT class has
  anything to run, the core picks the first task of the lowest WRR level in use, whatever fair
  tasks there are.\<close>

theorem wrr_before_fair:
  assumes "basic_inv s" "c < nr_cpus s" "ops K wrr_sched_class = wrr_class E"
    and "\<And>k. k < wrr_sched_class \<Longrightarrow> op_pick_next_task (ops K k) c s = Some (None, s)"
    and "nr_running (rqs s c) = cfs_h_nr_running (rqs s c) + wrr_nr_running (wrr_rqs s (Rq_of_cpu c))"
    and "i < LEVELS" "items (wrr_list s) (Rq_of_cpu c, i) = Se_of_task p # es"
    and "\<And>j. j < i \<Longrightarrow> items (wrr_list s) (Rq_of_cpu c, j) = []"
  shows "pick_next_task K c s =
    Some (p, upd_task p (\<lambda>t. t\<lparr>se := (se t)\<lparr>exec_start := clock_task (rqs s c)\<rparr>\<rparr>) s)"
  using assms by (rule pick_wrr)

definition sample_fair_kenv :: kenv where
  "sample_fair_kenv = sample_kenv\<lparr>ops := (ops sample_kenv)(fair_sched_class := wrr_class sample_env)\<rparr>"

lemma sample_fair_kenv_ops [simp]:
  "ops sample_fair_kenv wrr_sched_class = wrr_class sample_env"
  "k < wrr_sched_class \<Longrightarrow> op_pick_next_task (ops sample_fair_kenv k) c s = Some (None, s)"
  by (cases k; simp add: sample_fair_kenv_def less_sched_class_def)+

theorem wrr_before_fair_witness:
  "\<exists>s'. pick_next_task sample_fair_kenv 0 sample_core = Some (2, s')"
  using wrr_before_fair [of sample_core 0 sample_fair_kenv sample_env 50 2 "[Se_of_task 3]"] by simp

text \<open>C27: Preemption across classes. When the woken task's class differs from that of the running
  task, the running task is asked to reschedule exactly when the woken task's class comes
  earlier in the chain; nothing else happens except that a queued task about to be rescheduled
  makes the next clock update be skipped.\<close>

theorem check_preempt_across_classes:
  fixes K :: kenv
  assumes "task_class (tasks s p) \<noteq> task_class (tasks s (curr (rqs s c)))"
  defines "s1 \<equiv> (if task_class (tasks s p) < task_class (tasks s (curr (rqs s c)))
                 then resched_task (base K) (curr (rqs s c)) s else s)"
  shows "check_preempt_curr K c p flags s =
    Some (if on_rq (tasks s (curr (rqs s c))) \<and> ti_need_resched (tasks s1 (curr (rqs s c)))
          then upd_rq c (\<lambda>r. r\<lparr>skip_clock_update := 1\<rparr>) s1 else s1)"
proof -
  have same: "params_same s s1" by (simp add: s1_def)
  have "preempt_scan K c p all_classes s = s1"
    using preempt_scan_all [OF assms(1)] by (simp add: s1_def)
  then show ?thesis
    using assms(1)
    by (simp add: check_preempt_curr_def Let_def test_tsk_need_resched_def params_sameD [OF same])
qed

definition sample_rt_wake :: kst where
  "sample_rt_wake = upd_task 4 (\<lambda>t. t\<lparr>task_class := rt_sched_class\<rparr>) sample_core"

theorem check_preempt_across_classes_witness:
  "\<exists>s'. check_preempt_curr sample_kenv 0 4 0 sample_rt_wake = Some s' \<and> ti_need_resched (tasks s' 2)"
  using check_preempt_across_classes [of sample_rt_wake 4 0 sample_kenv 0]
  by (simp add: sample_rt_wake_def less_sched_class_def)

section \<open>Weights and nice values\<close>

lemma inverse_weights:
  assumes "i < 40"
  shows "\<bar>uint (prio_to_wmult ! i) * prio_to_weight ! i - 2 ^ 32\<bar> < prio_to_weight ! i \<and>
    15 \<le> prio_to_weight ! i \<and> prio_to_weight ! i \<le> 88761"
proof -
  have "\<forall>i \<in> set [0..<40]. \<bar>uint (prio_to_wmult ! i) * prio_to_weight ! i - 2 ^ 32\<bar> < prio_to_weight ! i \<and>
    15 \<le> prio_to_weight ! i \<and> prio_to_weight ! i \<le> 88761"
    by code_simp
  then show ?thesis using assms by simp
qed

text \<open>set_load_weight reads the weight tables inside their bounds exactly when the task is
  SCHED_IDLE or its static priority is in the nice range 100..139; then the weight is between 3
  and 88761 and the stored inverse is 2^32 divided by it with an error below one unit of
  weight, so weight times inverse misses 2^32 by less than the weight.\<close>

theorem set_load_weight_bounds:
  "(set_load_weight p s \<noteq> None \<longleftrightarrow>
      policy (tasks s p) = SCHED_IDLE \<or> static_prio (tasks s p) \<in> {100..<140}) \<and>
   (\<forall>s'. set_load_weight p s = Some s' \<longrightarrow>
      (let l = load (se (tasks s' p)) in
       3 \<le> uint (weight l) \<and> uint (weight l) \<le> 88761 \<and>
       \<bar>uint (inv_weight l) * uint (weight l) - 2 ^ 32\<bar> < uint (weight l)))"
proof (cases "policy (tasks s p) = SCHED_IDLE")
  case True
  then show ?thesis
    by (auto simp: set_load_weight_def Let_def WEIGHT_IDLEPRIO_def WMULT_IDLEPRIO_def)
next
  case False
  define i where "i = static_prio (tasks s p) - 100"
  have len: "length prio_to_weight = 40" "length prio_to_wmult = 40"
    by (simp_all add: prio_to_weight_def prio_to_wmult_def)
  show ?thesis
  proof (cases "0 \<le> i \<and> i < 40")
    case True
    then have n: "nat i < 40" by auto
    have "uint (word_of_int (prio_to_weight ! nat i) :: ulong) = prio_to_weight ! nat i"
      using inverse_weights [OF n] by (simp add: uint_word_of_int)
    with False True n inverse_weights [OF n] len show ?thesis
      by (auto simp: set_load_weight_def table_at_def Let_def i_def)
  next
    case out: False
    then show ?thesis
      using False len by (auto simp: set_load_weight_def table_at_def Let_def i_def nat_less_iff)
  qed
qed

theorem set_load_weight_bounds_witness:
  "\<exists>s'. set_load_weight 2 (upd_task 2 (\<lambda>t. t\<lparr>static_prio := 120\<rparr>) sample) = Some s' \<and>
     uint (weight (load (se (tasks s' 2)))) \<le> 88761"
  using set_load_weight_bounds [of 2 "upd_task 2 (\<lambda>t. t\<lparr>static_prio := 120\<rparr>) sample"]
  by (auto simp: Let_def)

lemma enqueue_dequeue_same:
  assumes "keeps_params (ops K (task_class (tasks s p)))"
  shows "enqueue_task K c p flags s = Some s' \<Longrightarrow> params_same s s'"
    "dequeue_task K c p flags s = Some s' \<Longrightarrow> params_same s s'"
proof -
  have u: "params_same s (ext n (update_rq_clock K c s))" for n by simp
  show "enqueue_task K c p flags s = Some s' \<Longrightarrow> params_same s s'"
    using keeps_params.enqueue_law [OF assms] params_sameD(6) [OF u] params_same_trans [OF u]
    by (fastforce simp: enqueue_task_def Let_def)
  show "dequeue_task K c p flags s = Some s' \<Longrightarrow> params_same s s'"
    using keeps_params.dequeue_law [OF assms] params_sameD(6) [OF u] params_same_trans [OF u]
    by (fastforce simp: dequeue_task_def Let_def)
qed

lemma set_load_weight_same: "set_load_weight p s = Some s' \<Longrightarrow> params_same s s'"
  by (auto simp: set_load_weight_def Let_def params_same_def task_params_def split: if_splits
      dest!: bind_SomeD)

lemma effective_prio_effect:
  "effective_prio p s = (np, s') \<Longrightarrow>
   s' = upd_task p (\<lambda>t. t\<lparr>normal_prio := calc_normal_prio s p\<rparr>) s \<and>
   np = (if rt_task s p then prio (tasks s p) else calc_normal_prio s p)"
  by (auto simp: effective_prio_def Let_def rt_task_def split: if_splits)

lemma set_user_nice_tail_effect:
  assumes "keeps_params (ops K (task_class (tasks s p)))" "set_user_nice_tail K c p queued s = Some s'"
  shows "(\<forall>q. static_prio (tasks s' q) = static_prio (tasks s q)) \<and>
    prio (tasks s' p) = (if rt_task s p then prio (tasks s p) else calc_normal_prio s p)"
proof -
  obtain np t where np: "effective_prio p s = (np, t)" by fastforce
  let ?t = "upd_task p (\<lambda>t. t\<lparr>prio := np\<rparr>) t"
  note e = effective_prio_effect [OF np]
  have keeps: "keeps_params (ops K (task_class (tasks ?t p)))" using assms(1) e by simp
  have "params_same ?t s'"
  proof (cases queued)
    case True
    with assms(2) np obtain u where u: "enqueue_task K c p 0 ?t = Some u"
      "s' = u \<or> s' = resched_task (base K) (curr (rqs u c)) u"
      by (auto simp: set_user_nice_tail_def Let_def split: if_splits dest!: bind_SomeD)
    have "params_same u s'" using u(2) by auto
    then show ?thesis using enqueue_dequeue_same(1) [OF keeps u(1)] params_same_trans by blast
  next
    case False
    with assms(2) np show ?thesis by (simp add: set_user_nice_tail_def Let_def)
  qed
  note params_sameD [OF this, simp]
  show ?thesis using e by auto
qed

lemma set_user_nice_effect:
  assumes "keeps_params (ops K (task_class (tasks s p)))"
    and "task_nice s p \<noteq> n" "-20 \<le> n" "n \<le> 19" "\<not> task_has_rt_policy s p"
    and "set_user_nice K p n s = Some s'"
  shows "static_prio (tasks s' p) = NICE_TO_PRIO n \<and>
    (\<forall>q. q \<noteq> p \<longrightarrow> static_prio (tasks s' q) = static_prio (tasks s q)) \<and>
    (\<not> rt_task s p \<longrightarrow> prio (tasks s' p) = NICE_TO_PRIO n)"
proof -
  let ?c = "task_cpu s p" and ?set = "upd_task p (\<lambda>t. t\<lparr>static_prio := NICE_TO_PRIO n\<rparr>)"
  have guard: "(task_nice s p = n \<or> n < -20 \<or> n > 19) = False" using assms(2-4) by auto
  have eq: "set_user_nice K p n s = Option.bind (if on_rq (tasks s p) then dequeue_task K ?c p 0 s else Some s)
      (\<lambda>s1. Option.bind (set_load_weight p (?set s1)) (\<lambda>s3. set_user_nice_tail K ?c p (on_rq (tasks s p)) s3))"
    using assms(5) by (simp only: set_user_nice_def Let_def guard if_False)
  from assms(6) [unfolded eq] obtain s1 s3 where s1: "(if on_rq (tasks s p) then dequeue_task K ?c p 0 s else Some s) = Some s1"
    and s3: "set_load_weight p (?set s1) = Some s3"
    and rest: "set_user_nice_tail K ?c p (on_rq (tasks s p)) s3 = Some s'"
    by (elim bindE)
  have same: "params_same s s1"
    using s1 enqueue_dequeue_same(2) [OF assms(1)] by (auto split: if_splits)
  note params_sameD [OF same, simp] and eff = params_sameD [OF set_load_weight_same [OF s3]]
  have keeps: "keeps_params (ops K (task_class (tasks s3 p)))" using assms(1) by (simp add: eff)
  have "calc_normal_prio s3 p = NICE_TO_PRIO n"
    using assms(5) by (simp add: calc_normal_prio_def calc_normal_prio0_def task_has_rt_policy_def eff)
  with set_user_nice_tail_effect [OF keeps rest] show ?thesis by (simp add: eff rt_task_def)
qed

definition sample_off :: kst where
  "sample_off = upd_task 20 (\<lambda>t. t\<lparr>on_rq := False, static_prio := 120, prio := 120\<rparr>) sample_core"



section \<open>Setting the scheduler\<close>

text \<open>One pass of \<open>__sched_setscheduler\<close> without the jump back.\<close>

definition setscheduler_once :: "kenv \<Rightarrow> tid \<Rightarrow> int \<Rightarrow> int \<Rightarrow> bool \<Rightarrow> kst \<Rightarrow> (int \<times> kst) option" where
  "setscheduler_once K p pol pr user s =
     (let flag = (if pol < 0 then sched_reset_on_fork (tasks s p) else pol AND SCHED_RESET_ON_FORK \<noteq> 0);
          npol = (if pol < 0 then policy (tasks s p) else pol AND NOT SCHED_RESET_ON_FORK) in
      if pol \<ge> 0 \<and> \<not> valid_policy npol then Some (- EINVAL, s)
      else case setscheduler_param_check s p npol pr of Some err \<Rightarrow> Some (err, s) | None \<Rightarrow>
      case (if user then setscheduler_perm_check K s p npol pr flag else None) of
        Some err \<Rightarrow> Some (err, s) | None \<Rightarrow>
      if user \<and> security_setscheduler K p \<noteq> 0 then Some (security_setscheduler K p, s)
      else if stop (rqs s (task_cpu s p)) = Some p then Some (- EINVAL, s)
      else if npol = policy (tasks s p) \<and>
              (\<not> rt_policy npol \<or> (word_of_int pr :: u32) = rt_priority (tasks s p)) then Some (0, s)
      else if user \<and> rt_bandwidth_enabled s \<and> rt_policy npol \<and>
              tg_rt_runtime (task_groups s (sched_task_group (tasks s p))) = 0 \<and>
              \<not> is_autogroup K (sched_task_group (tasks s p)) then Some (- EPERM, s)
      else setscheduler_change K p npol pr flag s)"

lemma setscheduler_once_eq: "sched_setscheduler1 K p pol pr user s = setscheduler_once K p pol pr user s"
proof -
  have guard: "((if pol < 0 then policy (tasks s p) else -1) \<noteq> -1 \<and>
      (if pol < 0 then policy (tasks s p) else -1) \<noteq> policy (tasks s p)) = False" by auto
  show ?thesis
    by (subst sched_setscheduler1.simps) (simp only: setscheduler_once_def Let_def guard if_False)
qed

lemma setscheduler_once_returns:
  assumes "setscheduler_change K p npol pr flag s \<noteq> None"
    "npol = (if pol < 0 then policy (tasks s p) else pol AND NOT SCHED_RESET_ON_FORK)"
    "flag = (if pol < 0 then sched_reset_on_fork (tasks s p) else pol AND SCHED_RESET_ON_FORK \<noteq> 0)"
  shows "setscheduler_once K p pol pr user s \<noteq> None"
  unfolding setscheduler_once_def Let_def assms(2,3) [symmetric]
  using assms(1) by (auto split: option.split)

text \<open>The recheck loop of __sched_setscheduler is never taken when nothing changes the policy
  between the two looks at it: the function equals its single pass, so it returns whenever the
  change itself does.\<close>

theorem setscheduler_recheck_terminates:
  "sched_setscheduler1 K p pol pr user s = setscheduler_once K p pol pr user s \<and>
   (setscheduler_change K p (if pol < 0 then policy (tasks s p) else pol AND NOT SCHED_RESET_ON_FORK) pr
      (if pol < 0 then sched_reset_on_fork (tasks s p) else pol AND SCHED_RESET_ON_FORK \<noteq> 0) s \<noteq> None \<longrightarrow>
    sched_setscheduler1 K p pol pr user s \<noteq> None)"
  using setscheduler_once_returns [of K p _ pr _ s pol user]
  by (simp add: setscheduler_once_eq)

theorem setscheduler_recheck_terminates_witness:
  "sched_setscheduler1 sample_kenv 2 SCHED_NORMAL 5 True sample_core = Some (- EINVAL, sample_core)"
  using setscheduler_recheck_terminates [of sample_kenv 2 SCHED_NORMAL 5 True sample_core]
  by (simp add: setscheduler_once_def valid_policy_def setscheduler_param_check_def policy_defs
      rt_policy_def wrr_policy_def)

text \<open>What the change does to the task, for classes that keep the parameters.\<close>

lemma setscheduler0_effect:
  assumes "setscheduler0 K c p pol pr s = Some s'" "\<And>k. keeps_params (ops K k)"
  shows "policy (tasks s' p) = pol \<and> rt_priority (tasks s' p) = word_of_int pr \<and>
    sched_reset_on_fork (tasks s' p) = sched_reset_on_fork (tasks s p) \<and>
    task_class (tasks s' p) =
      (if pol = SCHED_WRR then wrr_sched_class
       else if rt_prio (prio (tasks s' p)) then rt_sched_class else fair_sched_class) \<and>
    (\<forall>d. curr (rqs s' d) = curr (rqs s d)) \<and> this_cpu s' = this_cpu s"
proof -
  obtain u where u: "set_load_weight p u = Some s'"
    and pre: "policy (tasks u p) = pol" "rt_priority (tasks u p) = word_of_int pr"
      "sched_reset_on_fork (tasks u p) = sched_reset_on_fork (tasks s p)"
      "task_class (tasks u p) =
        (if pol = SCHED_WRR then wrr_sched_class
         else if rt_prio (prio (tasks u p)) then rt_sched_class else fair_sched_class)"
      "\<And>d. curr (rqs u d) = curr (rqs s d)" "this_cpu u = this_cpu s"
  proof (cases "pol = SCHED_WRR")
    case False
    with assms(1) that show thesis
      by (auto simp: setscheduler0_def Let_def split: if_splits)
  next
    case True
    note law = params_sameD [OF keeps_params.get_rr_interval_law [OF assms(2)]]
    from assms(1) True obtain g u0 sl u1 where g: "op_get_rr_interval (ops K wrr_sched_class) = Some g"
      "g c (Some p) u0 = Some (sl, u1)"
      "set_load_weight p (upd_task p (\<lambda>t. t\<lparr>p_times := 1\<rparr>)
         (upd_task p (\<lambda>t. t\<lparr>wrr := (wrr t)\<lparr>wrr_time_slice := sl\<rparr>\<rparr>) u1)) = Some s'"
      and u0: "policy (tasks u0 p) = pol" "rt_priority (tasks u0 p) = word_of_int pr"
      "sched_reset_on_fork (tasks u0 p) = sched_reset_on_fork (tasks s p)"
      "task_class (tasks u0 p) = wrr_sched_class" "rqs u0 = rqs s" "this_cpu u0 = this_cpu s"
      by (auto simp: setscheduler0_def Let_def elim!: bindE)
    show thesis
      by (rule that [OF g(3)]) (simp_all add: law [OF g(1,2)] u0 True)
  qed
  then show ?thesis by (simp add: params_sameD [OF set_load_weight_same [OF u]])
qed

text \<open>Calling a member of the class table of one of \<open>K\<close>'s classes.\<close>

lemma opt_class_same:
  assumes "\<And>k. keeps_params (ops K k)"
  shows "check_class_changed K c p k old s = Some s' \<Longrightarrow> params_same s s'"
    "(if b then dequeue_task K c p fl s else Some s) = Some s' \<Longrightarrow> params_same s s'"
    "(if b then enqueue_task K c p fl s else Some s) = Some s' \<Longrightarrow> params_same s s'"
    "(if b then op_put_prev_task (ops K k) c p s else Some s) = Some s' \<Longrightarrow> params_same s s'"
    "(if b then op_set_curr_task (ops K k) c s else Some s) = Some s' \<Longrightarrow> params_same s s'"
proof -
  show "params_same s s'" if "check_class_changed K c p k old s = Some s'"
  proof (cases "k = task_class (tasks s p)")
    case True
    with that show ?thesis
      by (auto simp: check_class_changed_def split: if_splits dest: keeps_params.prio_changed_law [OF assms])
  next
    case False
    with that obtain u where u: "opt_call (map_option (\<lambda>f. f c) (op_switched_from (ops K k))) p s = Some u"
      "op_switched_to (class_of K u p) c p u = Some s'"
      by (auto simp: check_class_changed_def elim!: bindE)
    have "params_same s u"
      using u(1) by (auto simp: opt_call_def split: option.splits dest: keeps_params.switched_from_law [OF assms])
    then show ?thesis using keeps_params.switched_to_law [OF assms u(2)] params_same_trans by blast
  qed
qed (use enqueue_dequeue_same [OF assms] keeps_params.put_prev_law [OF assms]
    keeps_params.set_curr_law [OF assms] in \<open>auto split: if_splits\<close>)

lemma setscheduler_change_effect:
  assumes "setscheduler_change K p pol pr flag s = Some (r, s')" "\<And>k. keeps_params (ops K k)"
  shows "r = 0 \<and> policy (tasks s' p) = pol \<and> rt_priority (tasks s' p) = word_of_int pr \<and>
    sched_reset_on_fork (tasks s' p) = flag \<and>
    task_class (tasks s' p) =
      (if pol = SCHED_WRR then wrr_sched_class
       else if rt_prio (prio (tasks s' p)) then rt_sched_class else fair_sched_class) \<and>
    (\<forall>d. curr (rqs s' d) = curr (rqs s d)) \<and> this_cpu s' = this_cpu s"
proof -
  note keep = opt_class_same [OF assms(2)]
  let ?flag = "upd_task p (\<lambda>t. t\<lparr>sched_reset_on_fork := flag\<rparr>)"
  let ?c = "task_cpu s p"
  from assms(1) obtain s1 s2 s3 s4 s5 s6 where
    e: "(if on_rq (tasks s p) then dequeue_task K ?c p 0 s else Some s) = Some s1"
      "(if task_current s ?c p then op_put_prev_task (class_of K s1 p) ?c p s1 else Some s1) = Some s2"
      "setscheduler0 K ?c p pol pr (?flag s2) = Some s3"
      "(if task_current s ?c p then op_set_curr_task (class_of K s3 p) ?c s3 else Some s3) = Some s4"
      "(if on_rq (tasks s p) then enqueue_task K ?c p 0 s4 else Some s4) = Some s5"
      "check_class_changed K ?c p (task_class (tasks (?flag s2) p)) (prio (tasks (?flag s2) p)) s5 = Some s6"
      "Some (0, ext (Task_note ''rt_mutex_adjust_pi'' p) s6) = Some (r, s')"
    unfolding setscheduler_change_def Let_def by (elim bindE)
  have "params_same s s2" using keep(2) [OF e(1)] keep(4) [OF e(2)] params_same_trans by blast
  note params_sameD [OF this, simp]
  have "params_same s3 s6"
    using keep(5) [OF e(4)] keep(3) [OF e(5)] keep(1) [OF e(6)] params_same_trans by blast
  then have "params_same s3 s'" using e(7) by auto
  note params_sameD [OF this, simp]
  show ?thesis using setscheduler0_effect [OF e(3) assms(2)] e(7) by simp
qed

lemma reset_flag_roundtrip:
  fixes pol :: int
  shows "(pol AND NOT SCHED_RESET_ON_FORK) OR (if pol AND SCHED_RESET_ON_FORK \<noteq> 0 then SCHED_RESET_ON_FORK else 0) = pol"
proof -
  have bit: "bit SCHED_RESET_ON_FORK n \<longleftrightarrow> n = 30" for n
  proof -
    have "bit SCHED_RESET_ON_FORK n = bit (2 ^ 30 :: int) n" by (simp add: SCHED_RESET_ON_FORK_def)
    then show ?thesis by (subst (asm) bit_exp_iff) auto
  qed
  have "pol AND SCHED_RESET_ON_FORK = 0 \<longleftrightarrow> \<not> bit pol 30"
    by (subst bit_eq_iff) (auto simp: bit_and_iff bit)
  then show ?thesis
    by (cases "bit pol 30") (auto simp: bit_or_iff bit_and_iff bit_not_iff bit intro!: bit_eqI)
qed

lemma setscheduler_checks_err [simp]:
  "setscheduler_param_check s p pol pr \<noteq> Some 0" "setscheduler_perm_check K s p pol pr flag \<noteq> Some 0"
  by (auto simp: setscheduler_param_check_def setscheduler_perm_check_def errno_defs)

lemma setscheduler_param_check_None:
  "setscheduler_param_check s p pol pr = None \<longleftrightarrow>
     0 \<le> pr \<and> pr \<le> 99 \<and> (pr = 0 \<or> rt_policy pol \<or> wrr_policy pol)"
  by (auto simp: setscheduler_param_check_def rt_policy_def wrr_policy_def policy_defs)

lemma setscheduler_success:
  assumes "setscheduler_once K p pol pr user s = Some (0, s')" "0 \<le> pol"
    "pol AND NOT SCHED_RESET_ON_FORK \<noteq> policy (tasks s p)"
  shows "setscheduler_change K p (pol AND NOT SCHED_RESET_ON_FORK) pr (pol AND SCHED_RESET_ON_FORK \<noteq> 0) s =
      Some (0, s') \<and> 0 \<le> pr \<and> pr \<le> 99"
  using assms
  by (auto simp: setscheduler_once_def Let_def errno_defs setscheduler_param_check_None
      split: if_splits option.splits)


text \<open>A privileged caller turns the sleeping task 20 into a FIFO task.\<close>

definition sample_root_kenv :: kenv where
  "sample_root_kenv = sample_kenv\<lparr>capable_nice := True\<rparr>"

lemma sample_root_kenv_simps [simp]:
  "keeps_params (ops sample_root_kenv k)" "security_getscheduler sample_root_kenv p = 0"
  "security_setscheduler sample_root_kenv p = 0" "capable_nice sample_root_kenv"
  "find_process_by_pid sample_root_kenv s 20 = Some 20"
  using sample_kenv_keeps [of k]
  by (simp_all add: sample_root_kenv_def find_process_by_pid_def) (simp_all add: sample_kenv_def)

lemma sample_off_simps [simp]:
  "policy (tasks sample_off 20) = SCHED_WRR" "on_rq (tasks sample_off 20) = False"
  "task_cpu sample_off 20 = 0" "curr (rqs sample_off 0) = 2" "stop (rqs sample_off 0) = None"
  "rt_priority (tasks sample_off 20) = 40" "sched_reset_on_fork (tasks sample_off 20) = False"
  "static_prio (tasks sample_off 20) = 120" "task_class (tasks sample_off 20) = wrr_sched_class"
  by (simp_all add: sample_off_def task_cpu_def sample_task_def zero_task_def)
    (simp add: sample_core_unfold)

lemma sample_getprio [simp]: "rt_mutex_getprio sample_root_kenv s p = normal_prio (tasks s p)"
  by (simp add: sample_root_kenv_def sample_kenv_def)

lemma sample_root_switch [simp]:
  "op_switched_from (ops sample_root_kenv k) = Some (\<lambda>c p s. Some s)"
  "op_switched_to (ops sample_root_kenv k) c p s = Some (switched_to_wrr sample_env c p s)"
  by (simp_all add: sample_root_kenv_def sample_kenv_def wrr_class_def wrr_dummy_defs)

lemma sample_off_changes:
  "setscheduler_change sample_root_kenv 20 SCHED_NORMAL 0 False sample_off \<noteq> None"
  "setscheduler_change sample_root_kenv 20 SCHED_FIFO 0 False sample_off \<noteq> None"
  by (simp_all add: setscheduler_change_def Let_def setscheduler0_def policy_defs set_load_weight_def table_at_def
      prio_to_weight_def prio_to_wmult_def calc_normal_prio_def calc_normal_prio0_def task_has_rt_policy_def
      rt_policy_def rt_prio_def task_current_def check_class_changed_def opt_call_def)

lemma setscheduler_once_normal:
  assumes "capable_nice K" "security_setscheduler K p = 0" "stop (rqs s (task_cpu s p)) \<noteq> Some p"
    "policy (tasks s p) \<noteq> SCHED_NORMAL"
  shows "setscheduler_once K p SCHED_NORMAL 0 user s = setscheduler_change K p SCHED_NORMAL 0 False s"
proof -
  have "setscheduler_param_check s p 0 0 = None" "setscheduler_perm_check K s p 0 0 False = None"
    by (simp_all add: setscheduler_param_check_None setscheduler_perm_check_def assms(1))
  then show ?thesis
    using assms by (simp add: setscheduler_once_def Let_def valid_policy_def policy_defs rt_policy_def)
qed




text \<open>Changing the priority of a WRR task with SCHED_WRR again is silently ignored: the call
  returns 0 as for any unchanged policy, but the state, and so the task's rt_priority, stays as
  it was, because only the RT policies compare the priorities.\<close>

theorem setscheduler_wrr_priority_ignored:
  assumes "policy (tasks s p) = SCHED_WRR" "0 \<le> pr" "pr \<le> 99" "stop (rqs s (task_cpu s p)) \<noteq> Some p"
  shows "sched_setscheduler_nocheck K p SCHED_WRR pr s = Some (0, s)"
proof -
  have "setscheduler_param_check s p 6 pr = None"
    using assms by (simp add: setscheduler_param_check_None wrr_policy_def policy_defs)
  then show ?thesis
    using assms
    by (simp add: sched_setscheduler_nocheck_def setscheduler_once_eq setscheduler_once_def Let_def
        valid_policy_def policy_defs rt_policy_def)
qed

theorem setscheduler_wrr_priority_ignored_witness:
  "sched_setscheduler_nocheck sample_kenv 20 SCHED_WRR 7 sample_off = Some (0, sample_off) \<and>
   rt_priority (tasks sample_off 20) \<noteq> 7"
  using setscheduler_wrr_priority_ignored [of sample_off 20 7 sample_kenv] by simp

text \<open>SCHED_WRR needs no privilege. For an unprivileged caller the permission check of a
  switch to SCHED_WRR ignores RLIMIT_RTPRIO and the priority asked for: it passes exactly when
  the caller owns the task, a SCHED_IDLE task may leave its policy, and the reset-on-fork flag is
  not cleared. A switch to an RT policy fails when RLIMIT_RTPRIO is 0.\<close>

theorem wrr_needs_no_rtprio:
  assumes "\<not> capable_nice K"
  shows "(setscheduler_perm_check K s p SCHED_WRR pr flag = None \<longleftrightarrow>
      check_same_owner K s p \<and> (policy (tasks s p) = SCHED_IDLE \<longrightarrow> can_nice K p (task_nice s p)) \<and>
      (sched_reset_on_fork (tasks s p) \<longrightarrow> flag)) \<and>
    (rt_policy pol \<and> pol \<noteq> policy (tasks s p) \<and> rlimit_rtprio K p = 0 \<longrightarrow>
      setscheduler_perm_check K s p pol pr flag = Some (- EPERM))"
  using assms by (auto simp: setscheduler_perm_check_def policy_defs rt_policy_def)

lemma sample_kenv_limits:
  "\<not> capable_nice sample_kenv" "rlimit_rtprio sample_kenv p = 0"
  "cred_user_ns sample_kenv p = 0" "cred_uid sample_kenv p = 1000" "cred_euid sample_kenv p = 1000"
  by (simp_all add: sample_kenv_def)

theorem wrr_needs_no_rtprio_witness:
  "setscheduler_perm_check sample_kenv sample_off 20 SCHED_WRR 99 True = None \<and>
   setscheduler_perm_check sample_kenv sample_off 20 SCHED_FIFO 99 True = Some (- EPERM)"
  using wrr_needs_no_rtprio [of sample_kenv sample_off 20 99 True SCHED_FIFO]
  by (simp add: sample_kenv_limits check_same_owner_def policy_defs rt_policy_def)

section \<open>Priority inheritance\<close>

text \<open>rt_mutex_setprio puts the task into the RT class for a priority below 100 and into the fair
  class otherwise, whatever its policy, and leaves the policy alone. So a SCHED_WRR task whose
  boost ends runs in the fair class while it still reports SCHED_WRR.\<close>

theorem rt_mutex_setprio_leaves_wrr:
  assumes "\<And>k. keeps_params (ops K k)" "rt_mutex_setprio K p pr s = Some s'"
    and "p \<noteq> idle (rqs s (task_cpu s p))"
  shows "task_class (tasks s' p) = (if pr < 100 then rt_sched_class else fair_sched_class) \<and>
    policy (tasks s' p) = policy (tasks s p) \<and> prio (tasks s' p) = pr \<and> 0 \<le> pr \<and> pr \<le> 140"
proof -
  note keep = opt_class_same [OF assms(1)]
  let ?c = "task_cpu s p"
  let ?set = "\<lambda>s. upd_task p (\<lambda>t. t\<lparr>prio := pr\<rparr>) (upd_task p (\<lambda>t. t\<lparr>task_class :=
      if rt_prio pr then rt_sched_class else fair_sched_class\<rparr>) s)"
  obtain u where b: "BUG_ON (pr < 0 \<or> pr > MAX_PRIO) = Some u"
    using assms(2) unfolding rt_mutex_setprio_def by (elim bindE)
  from assms(2) obtain s1 s2 s4 s5 where
    e: "(if on_rq (tasks s p) then dequeue_task K ?c p 0 s else Some s) = Some s1"
      "(if task_current s ?c p then op_put_prev_task (class_of K s1 p) ?c p s1 else Some s1) = Some s2"
      "(if task_current s ?c p then op_set_curr_task (class_of K (?set s2) p) ?c (?set s2) else Some (?set s2)) = Some s4"
      "(if on_rq (tasks s p) then enqueue_task K ?c p (if prio (tasks s p) < pr then ENQUEUE_HEAD else 0) s4
        else Some s4) = Some s5"
      "check_class_changed K ?c p (task_class (tasks s p)) (prio (tasks s p)) s5 = Some s'"
    unfolding rt_mutex_setprio_def b bind.bind_lunit Let_def if_not_P [OF assms(3)] by (elim bindE)
  have "params_same s s2" using keep(2) [OF e(1)] keep(4) [OF e(2)] params_same_trans by blast
  note params_sameD [OF this, simp]
  have "params_same (?set s2) s'"
    using keep(5) [OF e(3)] keep(3) [OF e(4)] keep(1) [OF e(5)] params_same_trans by blast
  note params_sameD [OF this, simp]
  have "0 \<le> pr \<and> pr \<le> 140" using b by (auto simp: BUG_ON_def split: if_splits)
  then show ?thesis by (simp add: rt_prio_def)
qed

theorem rt_mutex_setprio_leaves_wrr_witness:
  "\<exists>s'. rt_mutex_setprio sample_root_kenv 20 120 sample_off = Some s' \<and>
     policy (tasks s' 20) = SCHED_WRR \<and> task_class (tasks s' 20) = fair_sched_class"
proof -
  have i: "idle (rqs sample_off 0) = 0"
    by (simp add: sample_off_def sample_core_unfold)
  have "rt_mutex_setprio sample_root_kenv 20 120 sample_off \<noteq> None"
    by (simp add: rt_mutex_setprio_def i task_current_def Let_def rt_prio_def check_class_changed_def opt_call_def)
  then obtain s' where s': "rt_mutex_setprio sample_root_kenv 20 120 sample_off = Some s'" by blast
  then show ?thesis using rt_mutex_setprio_leaves_wrr [OF _ s'] i by simp
qed

end
