(* ===== verification/Core_Wake_Spec.thy ===== *)
theory Core_Wake_Spec
  imports Core_Schedule Core_Sched_Spec
begin

text \<open>
  Placing, waking and forking WRR tasks: the fallback search ends with a usable CPU, a forked task
  gets the class of its policy, and waking a sleeping WRR task has no defined result.
\<close>

section \<open>Selecting a run-queue\<close>

lemma mask_cpus_find:
  "List.find P (mask_cpus s m) = Some d \<Longrightarrow> P d \<and> d \<in> m \<and> d < nr_cpus s"
  by (auto simp: mask_cpus_def find_Some_iff nth_mem dest!: nth_mem)

lemma mask_cpus_find_None:
  "List.find P (mask_cpus s m) = None \<longleftrightarrow> (\<forall>d < nr_cpus s. d \<in> m \<longrightarrow> \<not> P d)"
  by (auto simp: mask_cpus_def find_None_iff)

lemma do_set_cpus_allowed_wrr:
  assumes "ops K (task_class (tasks s p)) = wrr_class E"
  shows "\<exists>s'. do_set_cpus_allowed K p m s = Some s' \<and> cpus_allowed (tasks s' p) = m \<and>
    task_class (tasks s' p) = task_class (tasks s p) \<and> nr_cpus s' = nr_cpus s \<and>
    cpu_online s' = cpu_online s \<and> cpu_active s' = cpu_active s"
  using assms by (simp add: do_set_cpus_allowed_def opt_call_def wrr_class_def wrr_dummy_defs Let_def)

text \<open>The search succeeds in the state it is started in, or in a later one.\<close>

lemma fallback_loop_finds:
  assumes "ops K (task_class (tasks s p)) = wrr_class E" "c0 < nr_cpus s" "usable_cpu s c0"
    and "st = fail \<longrightarrow> c0 \<in> cpus_allowed (tasks s p)"
  shows "\<exists>d s'. fallback_loop K p st s = Some (d, s') \<and> usable_cpu s' d \<and> d \<in> cpus_allowed (tasks s' p) \<and>
    ((\<exists>d < nr_cpus s. usable_cpu s d \<and> d \<in> cpus_allowed (tasks s p)) \<longrightarrow>
       cpus_allowed (tasks s' p) = cpus_allowed (tasks s p))"
  using assms
proof (induction K p st s rule: fallback_loop.induct)
  case (1 K p st s)
  show ?case
  proof (cases "List.find (usable_cpu s) (mask_cpus s (cpus_allowed (tasks s p)))")
    case (Some d)
    then show ?thesis using mask_cpus_find [OF Some] by (subst fallback_loop.simps) simp
  next
    case None
    then have none: "\<forall>d < nr_cpus s. d \<in> cpus_allowed (tasks s p) \<longrightarrow> \<not> usable_cpu s d"
      by (simp add: mask_cpus_find_None)
    have "st \<noteq> fail" using none 1(3-) "1.prems" by auto
    note widen = do_set_cpus_allowed_wrr [OF 1(3)]
    show ?thesis
    proof (cases st)
      case fail
      then show ?thesis using \<open>st \<noteq> fail\<close> by simp
    next
      case cpuset
      obtain u where u: "do_set_cpus_allowed K p (cpuset_fallback K s p) s = Some u"
        "task_class (tasks u p) = task_class (tasks s p)" "nr_cpus u = nr_cpus s"
        "cpu_online u = cpu_online s" "cpu_active u = cpu_active s"
        using widen by blast
      have "usable_cpu u c0" using 1(5) u(4,5) by (simp add: usable_cpu_def)
      with 1(1) [OF None cpuset u(1)] 1(3-5) u none cpuset None show ?thesis
        by (subst fallback_loop.simps) auto
    next
      case possible
      obtain u where u: "do_set_cpus_allowed K p (cpu_possible_mask s) s = Some u"
        "cpus_allowed (tasks u p) = cpu_possible_mask s"
        "task_class (tasks u p) = task_class (tasks s p)" "nr_cpus u = nr_cpus s"
        "cpu_online u = cpu_online s" "cpu_active u = cpu_active s"
        using widen by blast
      have "usable_cpu u c0" "c0 \<in> cpus_allowed (tasks u p)"
        using 1(4,5) u by (simp_all add: usable_cpu_def cpu_possible_mask_def)
      with 1(2) [OF None possible u(1)] 1(3-5) u none possible None show ?thesis
        by (subst fallback_loop.simps) auto
    qed
  qed
qed

text \<open>C38: The fallback search for a CPU terminates with an answer for every WRR task as long as some
  possible CPU is online and active: the CPU it returns is online, active and allowed in the
  state it leaves, and the task's own mask is widened only when no allowed CPU could be used.\<close>

theorem select_fallback_rq_finds:
  assumes "ops K (task_class (tasks s p)) = wrr_class E" "c0 < nr_cpus s" "usable_cpu s c0"
  shows "\<exists>d s'. select_fallback_rq K c p s = Some (d, s') \<and> d \<in> cpu_online s' \<and> d \<in> cpu_active s' \<and>
    d \<in> cpus_allowed (tasks s' p) \<and>
    ((\<exists>d < nr_cpus s. usable_cpu s d \<and> d \<in> cpus_allowed (tasks s p)) \<longrightarrow>
       cpus_allowed (tasks s' p) = cpus_allowed (tasks s p))"
proof (cases "List.find (\<lambda>d. usable_cpu s d \<and> d \<in> cpus_allowed (tasks s p)) (nodemask K c)")
  case None
  with fallback_loop_finds [OF assms, of cpuset] show ?thesis
    by (auto simp: select_fallback_rq_def usable_cpu_def)
next
  case (Some d)
  then have "usable_cpu s d \<and> d \<in> cpus_allowed (tasks s p)" by (auto simp: find_Some_iff)
  with Some show ?thesis by (auto simp: select_fallback_rq_def usable_cpu_def)
qed

lemma sample_core_cpus [simp]: "cpu_online sample_core = {0}" "cpu_active sample_core = {0}"
  by (auto simp: sample_core_unfold)

theorem select_fallback_rq_finds_witness:
  "\<exists>d s'. select_fallback_rq sample_kenv 0 2 sample_core = Some (d, s') \<and> d \<in> cpu_active s'"
  using select_fallback_rq_finds [of sample_kenv sample_core 2 sample_env 0 0]
  by (auto simp: usable_cpu_def)

section \<open>Waking a WRR task\<close>

text \<open>C39: Waking a sleeping WRR task is undefined: select_task_rq_wrr is declared to return a CPU but
  returns nothing, so for a WRR task that is off its run-queue try_to_wake_up has no defined
  result in any state, and neither has the first wake-up of a forked WRR task.\<close>

theorem wake_wrr_undefined:
  assumes "ops K wrr_sched_class = wrr_class E" "task_class (tasks s p) = wrr_sched_class"
    and "\<not> on_rq (tasks s p)" "tstate (tasks s p) AND state \<noteq> 0"
  shows "try_to_wake_up K p state flags s = None \<and> wake_up_new_task K p s = None"
  using assms
  by (cases "on_cpu (tasks s p)")
    (simp_all add: try_to_wake_up_def wake_up_new_task_def select_task_rq_def wrr_class_def
      select_task_rq_wrr_def opt_call_def Let_def)

theorem wake_wrr_undefined_witness:
  "try_to_wake_up sample_kenv 20 TASK_NORMAL 0
     (upd_task 20 (\<lambda>t. t\<lparr>tstate := TASK_INTERRUPTIBLE\<rparr>) sample_off) = None"
  using wake_wrr_undefined [of sample_kenv sample_env
      "upd_task 20 (\<lambda>t. t\<lparr>tstate := TASK_INTERRUPTIBLE\<rparr>) sample_off" 20 TASK_NORMAL 0]
  by (simp add: task_state_defs)

section \<open>Fork\<close>

lemma sched_fork0_effect:
  "sched_fork0 p s = Some s0 \<Longrightarrow> policy (tasks s0 p) = policy (tasks s p) \<and> \<not> on_rq (tasks s0 p) \<and>
     sched_reset_on_fork (tasks s0 p) = sched_reset_on_fork (tasks s p) \<and>
     task_class (tasks s0 p) = task_class (tasks s p) \<and> this_cpu s0 = this_cpu s"
  by (auto simp: sched_fork0_def Let_def elim!: bindE)

lemma set_task_cpu_effect:
  "task_params (tasks (set_task_cpu p c s) q) = task_params (tasks s q)"
  "on_rq (tasks (set_task_cpu p c s) q) = on_rq (tasks s q)" "task_cpu (set_task_cpu p c s) p = c"
  by (simp_all add: set_task_cpu_def set_task_cpu0_def set_task_rq_def Let_def task_params_def task_cpu_def)

lemma fork_reset_effect:
  assumes "fork_reset p s = Some s'"
  shows "policy (tasks s' p) =
      (if sched_reset_on_fork (tasks s p) \<and> rt_policy (policy (tasks s p)) then SCHED_NORMAL
       else policy (tasks s p)) \<and> \<not> sched_reset_on_fork (tasks s' p) \<and>
    on_rq (tasks s' p) = on_rq (tasks s p) \<and> task_class (tasks s' p) = task_class (tasks s p)"
  using assms
  by (auto simp: fork_reset_def Let_def task_has_rt_policy_def elim!: bindE split: if_split_asm
      dest!: set_load_weight_same dest: params_sameD)

text \<open>C40: The class of a forked task is well-formed. When sched_fork returns, the child is on no
  run-queue, its reset flag is consumed, a SCHED_WRR child is in the WRR class and any other
  child with a priority of 100 or more is in the fair class. Resetting on fork demotes the RT
  policies only: a SCHED_WRR child of a reset-on-fork parent keeps SCHED_WRR.\<close>

theorem sched_fork_class:
  assumes "sched_fork K p s = Some s'"
    and "\<And>k f u u'. op_task_fork (ops K k) = Some f \<Longrightarrow> f p u = Some u' \<Longrightarrow> params_same u u'"
  shows "task_class (tasks s' p) =
      (if policy (tasks s' p) = SCHED_WRR then wrr_sched_class
       else if 100 \<le> prio (tasks s' p) then fair_sched_class else task_class (tasks s p)) \<and>
    policy (tasks s' p) =
      (if sched_reset_on_fork (tasks s p) \<and> rt_policy (policy (tasks s p)) then SCHED_NORMAL
       else policy (tasks s p)) \<and>
    \<not> sched_reset_on_fork (tasks s' p) \<and> \<not> on_rq (tasks s' p) \<and> task_cpu s' p = this_cpu s"
proof -
  let ?run = "\<lambda>s. (\<lambda>s. upd_task p (\<lambda>t. t\<lparr>prio := normal_prio (tasks s (current s))\<rparr>) s)
      (upd_task p (\<lambda>t. t\<lparr>tstate := TASK_RUNNING\<rparr>) s)"
  let ?fair = "\<lambda>s. if \<not> rt_prio (prio (tasks s p)) then upd_task p (\<lambda>t. t\<lparr>task_class := fair_sched_class\<rparr>) s else s"
  let ?wrr = "\<lambda>s. if policy (tasks s p) = SCHED_WRR then upd_task p (\<lambda>t. t\<lparr>task_class := wrr_sched_class\<rparr>) s else s"
  from assms(1) obtain s0 s2 s4 where s0: "sched_fork0 p s = Some s0"
    and s2: "fork_reset p (?run s0) = Some s2"
    and s4: "opt_call (op_task_fork (class_of K (?wrr (?fair s2)) p)) p (?wrr (?fair s2)) = Some s4"
    and s': "Some (upd_task p (\<lambda>t. t\<lparr>ti_preempt_count := 1\<rparr>)
        (upd_task p (\<lambda>t. t\<lparr>on_cpu := False\<rparr>) (set_task_cpu p (this_cpu s) s4))) = Some s'"
    unfolding sched_fork_def Let_def by (elim bindE)
  note e0 = sched_fork0_effect [OF s0] and e2 = fork_reset_effect [OF s2]
  have "params_same (?wrr (?fair s2)) s4"
    using s4 assms(2) by (auto simp: opt_call_def split: option.splits)
  note e4 = params_sameD [OF this]
  have c4: "task_class (tasks s4 p) =
      (if policy (tasks s2 p) = SCHED_WRR then wrr_sched_class
       else if \<not> rt_prio (prio (tasks s2 p)) then fair_sched_class else task_class (tasks s2 p))"
    and o4: "policy (tasks s4 p) = policy (tasks s2 p)" "prio (tasks s4 p) = prio (tasks s2 p)"
      "sched_reset_on_fork (tasks s4 p) = sched_reset_on_fork (tasks s2 p)" "on_rq (tasks s4 p) = on_rq (tasks s2 p)"
    unfolding e4 by auto
  have tp: "policy (tasks s' p) = policy (tasks s4 p)" "task_class (tasks s' p) = task_class (tasks s4 p)"
      "prio (tasks s' p) = prio (tasks s4 p)" "sched_reset_on_fork (tasks s' p) = sched_reset_on_fork (tasks s4 p)"
      "on_rq (tasks s' p) = on_rq (tasks s4 p)" "task_cpu s' p = this_cpu s"
    using set_task_cpu_effect [of p "this_cpu s" s4] s' by (auto simp: task_params_def task_cpu_def)
  have "policy (tasks s2 p) =
      (if sched_reset_on_fork (tasks s p) \<and> rt_policy (policy (tasks s p)) then SCHED_NORMAL
       else policy (tasks s p)) \<and> \<not> sched_reset_on_fork (tasks s2 p) \<and> \<not> on_rq (tasks s2 p) \<and>
      task_class (tasks s2 p) = task_class (tasks s p)"
    using e0 e2 by simp
  then show ?thesis unfolding tp c4 o4 by (simp add: rt_prio_def)
qed

theorem sched_fork_class_witness:
  "\<exists>s'. sched_fork sample_kenv 20 (upd_task 20 (\<lambda>t. t\<lparr>sched_reset_on_fork := True\<rparr>) sample_off) = Some s' \<and>
     policy (tasks s' 20) = SCHED_WRR \<and> task_class (tasks s' 20) = wrr_sched_class"
proof -
  let ?s = "upd_task 20 (\<lambda>t. t\<lparr>sched_reset_on_fork := True\<rparr>) sample_off"
  have "\<not> linked (Se_of_task 20) (wrr_list sample_core)"
    using klist_ok_unlinked [OF wrr_invD(1) [OF sample_core_simps(1)]] by simp
  moreover have "rt_list sample_core = klist_empty"
    by (simp add: sample_core_unfold)
  ultimately have unl: "\<not> linked (Se_of_task 20) (wrr_list sample_off)" "\<not> linked (Se_of_task 20) (rt_list sample_off)"
    by (simp_all add: sample_off_def linked_def klist_empty_def)
  have "sched_fork sample_kenv 20 ?s \<noteq> None"
    using unl by (simp add: sched_fork_def sched_fork0_def init_entry_def fork_reset_def Let_def set_load_weight_def
        table_at_def prio_to_weight_def prio_to_wmult_def task_has_rt_policy_def rt_policy_def policy_defs
        PRIO_TO_NICE_def wrr_class_def wrr_dummy_defs opt_call_def)
  then obtain s' where s': "sched_fork sample_kenv 20 ?s = Some s'" by blast
  have "params_same u u'" if "op_task_fork (ops sample_kenv k) = Some f" "f 20 u = Some u'" for k f u u'
    using that by (auto simp: sample_kenv_def wrr_class_def wrr_dummy_defs split: if_splits)
  from sched_fork_class [OF s' this] s' show ?thesis by (simp add: policy_defs rt_policy_def)
qed

end
