(* ===== verification/Core_Wrr_Spec.thy ===== *)
theory Core_Wrr_Spec
  imports Core_Wake_Spec Core_Load_Spec
begin

text \<open>
  The core and the basic WRR class together: what one pass of \<open>__schedule\<close> does on a CPU whose
  current task is a WRR task, and the round robin it gives with the tick.
\<close>

section \<open>Bookkeeping that neither queues nor dispatches\<close>

definition sched_same :: "cpu \<Rightarrow> kst \<Rightarrow> kst \<Rightarrow> bool" where
  "sched_same c s s' \<longleftrightarrow>
     wrr_same s s' \<and> params_same s s' \<and> nr_running (rqs s' c) = nr_running (rqs s c) \<and>
     cfs_h_nr_running (rqs s' c) = cfs_h_nr_running (rqs s c) \<and>
     (\<forall>p. ti_need_resched (tasks s' p) = ti_need_resched (tasks s p)) \<and>
     post_schedule_flag (rqs s' c) = post_schedule_flag (rqs s c)"

lemma sched_same_trans: "sched_same c s s' \<Longrightarrow> sched_same c s' s'' \<Longrightarrow> sched_same c s s''"
  by (auto simp: sched_same_def intro: wrr_same_trans params_same_trans)

lemma sched_sameD:
  assumes "sched_same c s s'"
  shows "wrr_same s s'" "params_same s s'" "nr_running (rqs s' c) = nr_running (rqs s c)"
    "cfs_h_nr_running (rqs s' c) = cfs_h_nr_running (rqs s c)"
    "post_schedule_flag (rqs s' c) = post_schedule_flag (rqs s c)"
    "ti_need_resched (tasks s' p) = ti_need_resched (tasks s p)"
    "wrr_nr_running (wrr_rqs s' q) = wrr_nr_running (wrr_rqs s q)"
  using assms by (simp_all add: sched_same_def) (simp add: wrr_same_def)

lemma sched_same_bookkeeping [simp]:
  "sched_same c s (ext x s)" "sched_same c s (update_curr_wrr E d s)"
  "sched_same c s (update_rq_clock K d s)"
proof -
  show "sched_same c s (ext x s)" by (simp add: sched_same_def) (simp add: ext_def)
  show "sched_same c s (update_curr_wrr E d s)" by (simp add: sched_same_def)
  have "wrr_same s (update_rq_clock K d s)"
    by (simp add: update_rq_clock_def update_rq_clock_task_def Let_def wrr_same_def task_cpu_def)
  then show "sched_same c s (update_rq_clock K d s)"
    by (simp add: sched_same_def) (simp add: update_rq_clock_def update_rq_clock_task_def Let_def)
qed

section \<open>One pass of the scheduler function\<close>

text \<open>From putting the previous task on: the first task of the lowest level becomes current.\<close>

lemma schedule_switch_wrr:
  assumes "basic_inv s" "c = this_cpu s" "c < nr_cpus s" "ops K wrr_sched_class = wrr_class E"
    and "\<And>k s. k < wrr_sched_class \<Longrightarrow> op_pick_next_task (ops K k) c s = Some (None, s)"
    and "nr_running (rqs s c) = cfs_h_nr_running (rqs s c) + wrr_nr_running (wrr_rqs s (Rq_of_cpu c))"
    and "task_class (tasks s prev) = wrr_sched_class" "\<not> post_schedule_flag (rqs s c)"
    and "i < LEVELS" "items (wrr_list s) (Rq_of_cpu c, i) = Se_of_task p # es"
    and "\<And>j. j < i \<Longrightarrow> items (wrr_list s) (Rq_of_cpu c, j) = []"
  shows "\<exists>u s'. put_prev_task K c prev s = Some u \<and> pick_next_task K c u = Some (p, s') \<and>
    sched_same c s s'"
proof -
  define v where "v = (if on_rq (tasks s prev) \<or> skip_clock_update (rqs s c) < 0 then update_rq_clock K c s else s)"
  define u where "u = update_curr_wrr E c v"
  have v: "sched_same c s v" by (simp add: v_def) (simp add: sched_same_def)
  then have su: "sched_same c s u" unfolding u_def using sched_same_bookkeeping(2) sched_same_trans by blast
  note same = sched_sameD [OF su]
  have "put_prev_task K c prev s = Some u"
    using assms(4,7) params_sameD(6) [OF sched_sameD(2) [OF v], of prev]
    by (simp add: put_prev_task_def Let_def u_def wrr_class_def put_prev_task_wrr_def flip: v_def)
  moreover have "pick_next_task K c u =
      Some (p, upd_task p (\<lambda>t. t\<lparr>se := (se t)\<lparr>exec_start := clock_task (rqs u c)\<rparr>\<rparr>) u)"
  proof (rule pick_wrr [OF _ _ assms(4,5) _ assms(9)])
    show "basic_inv u" "c < nr_cpus u"
      using assms(1,3) wrr_same_inv [OF same(1)] wrr_same_nr_cpus [OF same(1)] by simp_all
    show "nr_running (rqs u c) = cfs_h_nr_running (rqs u c) + wrr_nr_running (wrr_rqs u (Rq_of_cpu c))"
      using assms(6) same(3,4,7) by simp
    show "items (wrr_list u) (Rq_of_cpu c, i) = Se_of_task p # es"
      using same(1) assms(10) by (simp add: wrr_same_def)
    show "items (wrr_list u) (Rq_of_cpu c, j) = []" if "j < i" for j
      using same(1) assms(11) [OF that] by (simp add: wrr_same_def)
  qed
  moreover have "sched_same c u (upd_task p (\<lambda>t. t\<lparr>se := (se t)\<lparr>exec_start := clock_task (rqs u c)\<rparr>\<rparr>) u)"
    by (simp add: sched_same_def wrr_same_exec_start)
  ultimately show ?thesis using sched_same_trans [OF su] by blast
qed


lemma schedule_commit_wrr:
  "wrr_same s (schedule_commit c prev p b s)"
  "curr (rqs (schedule_commit c prev p b s) c) = (if prev = p then curr (rqs s c) else p)"
  "ti_need_resched (tasks (schedule_commit c prev p b s) r) = (r \<noteq> prev \<and> ti_need_resched (tasks s r))"
  "post_schedule_flag (rqs (schedule_commit c prev p b s) d) = post_schedule_flag (rqs s d)"
  "this_cpu (schedule_commit c prev p b s) = this_cpu s"
  by (simp_all add: schedule_commit_def context_switch_def finish_task_switch_def finish_lock_switch_def
      prepare_lock_switch_def clear_tsk_need_resched_def Let_def wrr_same_def task_cpu_def ext_def)

lemma pre_schedule_wrr_none:
  "ops K wrr_sched_class = wrr_class E \<Longrightarrow> task_class (tasks s prev) = wrr_sched_class \<Longrightarrow>
   pre_schedule K c prev s = Some s"
  by (simp add: pre_schedule_def opt_call_def wrr_class_def wrr_dummy_defs)

text \<open>A pass in which the WRR task that runs goes on being runnable.\<close>

lemma schedule_running:
  assumes "basic_inv s" "c = this_cpu s" "c < nr_cpus s" "ops K wrr_sched_class = wrr_class E"
    and "\<And>k s. k < wrr_sched_class \<Longrightarrow> op_pick_next_task (ops K k) c s = Some (None, s)"
    and "nr_running (rqs s c) = cfs_h_nr_running (rqs s c) + wrr_nr_running (wrr_rqs s (Rq_of_cpu c))"
    and "task_class (tasks s (curr (rqs s c))) = wrr_sched_class" "\<not> post_schedule_flag (rqs s c)"
    and "i < LEVELS" "items (wrr_list s) (Rq_of_cpu c, i) = Se_of_task p # es"
    and "\<And>j. j < i \<Longrightarrow> items (wrr_list s) (Rq_of_cpu c, j) = []"
    and "tstate (tasks s (curr (rqs s c))) = 0" "nr_running (rqs s c) \<noteq> 0"
  shows "\<exists>s'. schedule_pass K s = Some s' \<and> wrr_same s s' \<and> this_cpu s' = c \<and> curr (rqs s' c) = p \<and>
     (\<forall>r. ti_need_resched (tasks s' r) = (r \<noteq> curr (rqs s c) \<and> ti_need_resched (tasks s r)))"
proof -
  let ?prev = "curr (rqs s c)"
  obtain u t where ut: "put_prev_task K c ?prev s = Some u" "pick_next_task K c u = Some (p, t)"
    "sched_same c s t"
    using schedule_switch_wrr [OF assms(1-4) assms(5) assms(6-11)] by blast
  let ?t = "schedule_commit c ?prev p False t"
  note same = sched_sameD [OF ut(3)] and commit = schedule_commit_wrr [where s = t and c = c and prev = ?prev and p = p and b = False]
  have "schedule_pass K s = Some ?t"
    using ut assms(2,8,12,13) pre_schedule_wrr_none [OF assms(4,7)] same(5) commit(4) 
    by (simp add: schedule_pass_def Let_def post_schedule_def)
  then show ?thesis
    using wrr_same_trans [OF same(1) commit(1)] same(6) commit(2,3,5) params_sameD(7,10) [OF same(2)] assms(2)
    by auto
qed

section \<open>The tick\<close>

text \<open>What the expiring tick of the WRR class leaves alone besides the queues.\<close>

lemma task_tick_wrr_core:
  assumes "task_tick_wrr E c p queued s = Some s'"
  shows "rqs s' = rqs s \<and> this_cpu s' = this_cpu s \<and>
    tstate (tasks s' r) = tstate (tasks s r) \<and> task_class (tasks s' r) = task_class (tasks s r)"
proof -
  have u: "tstate (tasks (update_curr_wrr E c s) r) = tstate (tasks s r) \<and>
      task_class (tasks (update_curr_wrr E c s) r) = task_class (tasks s r) \<and>
      this_cpu (update_curr_wrr E c s) = this_cpu s"
    by (simp add: update_curr_wrr_def Let_def cpuacct_charge_def ext_def)
  have path: "this_cpu (task_group_path E tg t) = this_cpu t" for tg t
    by (simp add: task_group_path_def Let_def split: prod.split)
  have move: "\<exists>L. t' = t\<lparr>wrr_list := L\<rparr>" if "requeue_task_wrr c p False t = Some t'" for t t'
    using that by (auto simp: requeue_task_wrr_def elim!: bindE)
  from assms show ?thesis
    using u unfolding task_tick_wrr_def Let_def
    by (auto simp: path set_tsk_need_resched_def split: if_splits elim!: bindE dest!: move)
qed

text \<open>Clock and load update leave everything the class and the dispatch look at.\<close>

lemma tick_prologue:
  assumes "sysctl_sched_time_avg (globals s) \<noteq> 0"
  shows "\<exists>u. update_cpu_load_active E c (update_rq_clock K c s) = Some u \<and> wrr_same s u \<and>
    params_same s u \<and> tasks u = tasks s \<and> nr_running (rqs u c) = nr_running (rqs s c) \<and>
    cfs_h_nr_running (rqs u c) = cfs_h_nr_running (rqs s c) \<and>
    post_schedule_flag (rqs u c) = post_schedule_flag (rqs s c)"
proof -
  let ?v = "update_rq_clock K c s"
  have v: "sched_same c s ?v" by (rule sched_same_bookkeeping)
  have tv: "tasks ?v = tasks s \<and> globals ?v = globals s"
    by (simp add: update_rq_clock_def update_rq_clock_task_def Let_def)
  with assms obtain u where u: "update_cpu_load_active E c ?v = Some u" "load_frame ?v u"
    using update_cpu_load_active_frame [of ?v E c] by auto
  have "wrr_same ?v u" "params_same ?v u"
    using u(2) by (simp_all add: load_frame_def wrr_same_def params_same_def task_cpu_def)
  then have "wrr_same s u" "params_same s u"
    using sched_sameD(1,2) [OF v] wrr_same_trans params_same_trans by blast+
  with u tv sched_sameD(3-5) [OF v] show ?thesis by (simp add: load_frame_def)
qed


text \<open>The sample machine right before the slice of task 2 runs out.\<close>

definition sample_tick :: kst where
  "sample_tick = sample_core\<lparr>globals := (globals sample_core)\<lparr>sysctl_sched_time_avg := 1000\<rparr>\<rparr>"

lemma sample_tick_simps [simp]:
  "tasks sample_tick = sample_task" "this_cpu sample_tick = 0" "nr_cpus sample_tick = 1"
  "wrr_list sample_tick = wrr_list sample_core" "rqs sample_tick = rqs sample_core"
  "wrr_rqs sample_tick = wrr_rqs sample_core" "sysctl_sched_time_avg (globals sample_tick) = 1000"
  "wrr_same sample_core sample_tick"
  by (simp_all add: sample_tick_def wrr_same_def task_cpu_def)


end
