(* ===== verification/Rt_Queue.thy ===== *)
theory Rt_Queue
  imports Core_Load
begin

text \<open>
  The RT class's run-queue (kernel/rt.c, with CONFIG_SMP and CONFIG_RT_GROUP_SCHED): the
  hierarchy of \<open>rt_rq\<close> and entities, the counters kept with every entity, the pushable list and
  the moves of entities on and off their queues.
\<close>

section \<open>Entities and run-queues\<close>

definition RUNTIME_INF :: u64 where "RUNTIME_INF = NOT 0"

definition get_rt_se :: "kst \<Rightarrow> se_ref \<Rightarrow> sched_rt_entity" where
  "get_rt_se s e = (case e of Se_of_task p \<Rightarrow> rt (tasks s p) | Se_of_group tg c \<Rightarrow> rt_gses s tg c)"

definition upd_rt_se :: "se_ref \<Rightarrow> (sched_rt_entity \<Rightarrow> sched_rt_entity) \<Rightarrow> kst \<Rightarrow> kst" where
  "upd_rt_se e f s = (case e of
      Se_of_task p \<Rightarrow> upd_task p (\<lambda>t. t\<lparr>rt := f (rt t)\<rparr>) s
    | Se_of_group tg c \<Rightarrow> s\<lparr>rt_gses := (rt_gses s)(tg := (rt_gses s tg)(c := f (rt_gses s tg c)))\<rparr>)"

definition rt_entity_is_task :: "kst \<Rightarrow> se_ref \<Rightarrow> bool" where
  "rt_entity_is_task s rt_se \<longleftrightarrow> rt_my_q (get_rt_se s rt_se) = None"

definition rt_task_of :: "se_ref \<Rightarrow> tid option" where
  "rt_task_of rt_se = (case rt_se of Se_of_task p \<Rightarrow> Some p | Se_of_group _ _ \<Rightarrow> None)"

definition rq_of_rt_rq :: "kst \<Rightarrow> rq_ref \<Rightarrow> cpu option" where
  "rq_of_rt_rq s q = rt_rq_rq (rt_rqs s q)"

definition rt_rq_of_se :: "kst \<Rightarrow> se_ref \<Rightarrow> rq_ref option" where
  "rt_rq_of_se s rt_se = rt_rq_ptr (get_rt_se s rt_se)"

definition group_rt_rq :: "kst \<Rightarrow> se_ref \<Rightarrow> rq_ref option" where
  "group_rt_rq s rt_se = rt_my_q (get_rt_se s rt_se)"

definition on_rt_rq :: "kst \<Rightarrow> se_ref \<Rightarrow> bool" where
  "on_rt_rq s rt_se \<longleftrightarrow> linked rt_se (rt_list s)"

text \<open>\<open>array->queue + prio\<close>: only the priorities below 100 have a queue.\<close>

definition rt_queue :: "rq_ref \<Rightarrow> int \<Rightarrow> (rq_ref \<times> nat) option" where
  "rt_queue q i = (if 0 \<le> i \<and> i < MAX_RT_PRIO then Some (q, nat i) else None)"

section \<open>Initialisation\<close>

definition init_rt_bandwidth :: "tgid \<Rightarrow> u64 \<Rightarrow> u64 \<Rightarrow> kst \<Rightarrow> kst" where
  "init_rt_bandwidth tg period runtime s =
     upd_tg tg (\<lambda>g. g\<lparr>tg_rt_period := period, tg_rt_runtime := runtime, tg_rt_timer_active := False\<rparr>) s"

definition init_rt_rq :: "rq_ref \<Rightarrow> kst \<Rightarrow> kst" where
  "init_rt_rq q s =
     (let s = fold (\<lambda>i s. upd_rt_rq q (\<lambda>r. r\<lparr>rt_bitmap := (rt_bitmap r)(i := False)\<rparr>)
                            (s\<lparr>rt_list := init_head (q, i) (rt_list s)\<rparr>)) [0..<nat MAX_RT_PRIO] s;
          s = upd_rt_rq q (\<lambda>r. r\<lparr>rt_bitmap := (rt_bitmap r)(nat MAX_RT_PRIO := True)\<rparr>) s;
          s = upd_rt_rq q (\<lambda>r. r\<lparr>rt_highest_curr := MAX_RT_PRIO, rt_highest_next := MAX_RT_PRIO,
                                 rt_nr_migratory := 0, rt_overloaded_flag := False, pushable_tasks := []\<rparr>) s
      in upd_rt_rq q (\<lambda>r. r\<lparr>rt_time := 0, rt_throttled := False, rt_runtime := 0\<rparr>) s)"

definition init_tg_rt_entry :: "tgid \<Rightarrow> rq_ref \<Rightarrow> se_ref option \<Rightarrow> cpu \<Rightarrow> se_ref option \<Rightarrow> kst \<Rightarrow> kst" where
  "init_tg_rt_entry tg q rt_se c parent s =
     (let s = upd_rt_rq q (\<lambda>r. r\<lparr>rt_highest_curr := MAX_RT_PRIO, rt_nr_boosted := 0, rt_rq_rq := Some c,
                                 rt_tg := Some tg\<rparr>) s;
          s = upd_tg tg (\<lambda>g. g\<lparr>tg_rt_rq := (tg_rt_rq g)(c := Some q), tg_rt_se := (tg_rt_se g)(c := rt_se)\<rparr>) s
      in case rt_se of
           None \<Rightarrow> s
         | Some e \<Rightarrow>
             let s = upd_rt_se e (\<lambda>w. w\<lparr>rt_rq_ptr := (case parent of
                                          None \<Rightarrow> Some (Rq_of_cpu c)
                                        | Some pe \<Rightarrow> rt_my_q (get_rt_se s pe))\<rparr>) s;
                 s = upd_rt_se e (\<lambda>w. w\<lparr>rt_my_q := Some q\<rparr>) s;
                 s = upd_rt_se e (\<lambda>w. w\<lparr>rt_parent := parent\<rparr>) s
             in s\<lparr>rt_list := (rt_list s)\<lparr>owner := (owner (rt_list s))(e := None)\<rparr>\<rparr>)"

text \<open>
  Allocation asks \<open>kzalloc\<close> for the two pointer arrays and then, per CPU, for a run-queue and an
  entity; \<open>alloc_ok n\<close> says whether the \<open>n\<close>-th call succeeds. What was allocated before an error
  stays.
\<close>

fun alloc_rt_loop :: "(nat \<Rightarrow> bool) \<Rightarrow> tgid \<Rightarrow> tgid \<Rightarrow> cpu list \<Rightarrow> nat \<Rightarrow> kst \<Rightarrow> int \<times> kst" where
  "alloc_rt_loop alloc_ok tg parent [] n s = (1, s)"
| "alloc_rt_loop alloc_ok tg parent (i # is) n s =
     (if \<not> alloc_ok n then (0, s)
      else if \<not> alloc_ok (n + 1) then (0, s)
      else
        let q = Rq_of_group tg i; e = Se_of_group tg i;
            s = upd_rt_rq q (\<lambda>_. zero_rt_rq) s;
            s = upd_rt_se e (\<lambda>_. rt zero_task) s;
            s = init_rt_rq q s;
            s = upd_rt_rq q (\<lambda>r. r\<lparr>rt_runtime := tg_rt_runtime (task_groups s tg)\<rparr>) s;
            s = init_tg_rt_entry tg q (Some e) i (tg_rt_se (task_groups s parent) i) s
        in alloc_rt_loop alloc_ok tg parent is (n + 2) s)"

definition alloc_rt_sched_group :: "(nat \<Rightarrow> bool) \<Rightarrow> tgid \<Rightarrow> tgid \<Rightarrow> kst \<Rightarrow> int \<times> kst" where
  "alloc_rt_sched_group alloc_ok tg parent s =
     (if \<not> alloc_ok 0 then (0, s)
      else let s = upd_tg tg (\<lambda>g. g\<lparr>tg_rt_rq := (\<lambda>_. None)\<rparr>) s in
      if \<not> alloc_ok 1 then (0, s)
      else let s = upd_tg tg (\<lambda>g. g\<lparr>tg_rt_se := (\<lambda>_. None)\<rparr>) s;
               s = init_rt_bandwidth tg (def_rt_period (globals s)) 0 s
           in alloc_rt_loop alloc_ok tg parent [0..<nr_cpus s] 2 s)"

text \<open>
  Freeing cancels the period timer when the group has its array of RT entities (a timer can only
  be active when some entity was made) and releases everything.
\<close>

definition free_rt_sched_group :: "tgid \<Rightarrow> kst \<Rightarrow> kst" where
  "free_rt_sched_group tg s =
     (let s = (if list_ex (\<lambda>i. tg_rt_se (task_groups s tg) i \<noteq> None) [0..<nr_cpus s]
               then upd_tg tg (\<lambda>g. g\<lparr>tg_rt_timer_active := False\<rparr>) s else s)
      in upd_tg tg (\<lambda>g. g\<lparr>tg_rt_rq := (\<lambda>_. None), tg_rt_se := (\<lambda>_. None)\<rparr>) s)"

section \<open>Overload and migration\<close>

definition rt_overloaded :: "kst \<Rightarrow> cpu \<Rightarrow> bool" where
  "rt_overloaded s c \<longleftrightarrow> rto_count (root_domains s (rd (rqs s c))) \<noteq> 0"

definition rt_set_overload :: "cpu \<Rightarrow> kst \<Rightarrow> kst" where
  "rt_set_overload c s =
     (if \<not> online (rqs s c) then s
      else upd_rd (rd (rqs s c)) (\<lambda>d. d\<lparr>rto_mask := insert c (rto_mask d), rto_count := rto_count d + 1\<rparr>) s)"

definition rt_clear_overload :: "cpu \<Rightarrow> kst \<Rightarrow> kst" where
  "rt_clear_overload c s =
     (if \<not> online (rqs s c) then s
      else upd_rd (rd (rqs s c)) (\<lambda>d. d\<lparr>rto_count := rto_count d - 1, rto_mask := rto_mask d - {c}\<rparr>) s)"

definition update_rt_migration :: "rq_ref \<Rightarrow> kst \<Rightarrow> kst option" where
  "update_rt_migration q s =
     (if rt_nr_migratory (rt_rqs s q) \<noteq> 0 \<and> rt_nr_total (rt_rqs s q) > 1 then
        if \<not> rt_overloaded_flag (rt_rqs s q) then do {
          c \<leftarrow> rq_of_rt_rq s q;
          Some (upd_rt_rq q (\<lambda>r. r\<lparr>rt_overloaded_flag := True\<rparr>) (rt_set_overload c s))
        } else Some s
      else if rt_overloaded_flag (rt_rqs s q) then do {
        c \<leftarrow> rq_of_rt_rq s q;
        Some (upd_rt_rq q (\<lambda>r. r\<lparr>rt_overloaded_flag := False\<rparr>) (rt_clear_overload c s))
      } else Some s)"

text \<open>The counts are kept in the CPU's own run-queue, whatever the group.\<close>

definition inc_rt_migration :: "se_ref \<Rightarrow> rq_ref \<Rightarrow> kst \<Rightarrow> kst option" where
  "inc_rt_migration rt_se q s =
     (if \<not> rt_entity_is_task s rt_se then Some s
      else do {
        c \<leftarrow> rq_of_rt_rq s q;
        let q = Rq_of_cpu c;
        let s = upd_rt_rq q (\<lambda>r. r\<lparr>rt_nr_total := rt_nr_total r + 1\<rparr>) s;
        let s = (if nr_cpus_allowed (get_rt_se s rt_se) > 1
                 then upd_rt_rq q (\<lambda>r. r\<lparr>rt_nr_migratory := rt_nr_migratory r + 1\<rparr>) s else s);
        update_rt_migration q s
      })"

definition dec_rt_migration :: "se_ref \<Rightarrow> rq_ref \<Rightarrow> kst \<Rightarrow> kst option" where
  "dec_rt_migration rt_se q s =
     (if \<not> rt_entity_is_task s rt_se then Some s
      else do {
        c \<leftarrow> rq_of_rt_rq s q;
        let q = Rq_of_cpu c;
        let s = upd_rt_rq q (\<lambda>r. r\<lparr>rt_nr_total := rt_nr_total r - 1\<rparr>) s;
        let s = (if nr_cpus_allowed (get_rt_se s rt_se) > 1
                 then upd_rt_rq q (\<lambda>r. r\<lparr>rt_nr_migratory := rt_nr_migratory r - 1\<rparr>) s else s);
        update_rt_migration q s
      })"

section \<open>Pushable tasks\<close>

text \<open>
  The library's priority list (lib/plist.c is not in the repository): nodes by ascending
  priority, a new node behind the old ones of its priority. A task is on one such list at most.
\<close>

definition plist_del :: "tid \<Rightarrow> (int \<times> tid) list \<Rightarrow> (int \<times> tid) list" where
  "plist_del p xs = filter (\<lambda>(_, r). r \<noteq> p) xs"

fun plist_add :: "int \<times> tid \<Rightarrow> (int \<times> tid) list \<Rightarrow> (int \<times> tid) list" where
  "plist_add (i, p) [] = [(i, p)]"
| "plist_add (i, p) ((j, r) # xs) = (if i < j then (i, p) # (j, r) # xs else (j, r) # plist_add (i, p) xs)"

definition has_pushable_tasks :: "kst \<Rightarrow> cpu \<Rightarrow> bool" where
  "has_pushable_tasks s c \<longleftrightarrow> pushable_tasks (rt_rqs s (Rq_of_cpu c)) \<noteq> []"

definition enqueue_pushable_task :: "cpu \<Rightarrow> tid \<Rightarrow> kst \<Rightarrow> kst" where
  "enqueue_pushable_task c p s =
     (let q = Rq_of_cpu c;
          s = upd_rt_rq q (\<lambda>r. r\<lparr>pushable_tasks := plist_del p (pushable_tasks r)\<rparr>) s;
          s = upd_rt_rq q (\<lambda>r. r\<lparr>pushable_tasks := plist_add (prio (tasks s p), p) (pushable_tasks r)\<rparr>) s
      in if prio (tasks s p) < rt_highest_next (rt_rqs s q)
         then upd_rt_rq q (\<lambda>r. r\<lparr>rt_highest_next := prio (tasks s p)\<rparr>) s else s)"

definition dequeue_pushable_task :: "cpu \<Rightarrow> tid \<Rightarrow> kst \<Rightarrow> kst" where
  "dequeue_pushable_task c p s =
     (let q = Rq_of_cpu c;
          s = upd_rt_rq q (\<lambda>r. r\<lparr>pushable_tasks := plist_del p (pushable_tasks r)\<rparr>) s
      in case pushable_tasks (rt_rqs s q) of
           (_, p) # _ \<Rightarrow> upd_rt_rq q (\<lambda>r. r\<lparr>rt_highest_next := prio (tasks s p)\<rparr>) s
         | [] \<Rightarrow> upd_rt_rq q (\<lambda>r. r\<lparr>rt_highest_next := MAX_RT_PRIO\<rparr>) s)"

section \<open>The counters of a queued entity\<close>

definition rt_rq_throttled :: "kst \<Rightarrow> rq_ref \<Rightarrow> bool" where
  "rt_rq_throttled s q \<longleftrightarrow> rt_throttled (rt_rqs s q) \<and> rt_nr_boosted (rt_rqs s q) = 0"

definition rt_se_boosted :: "kst \<Rightarrow> se_ref \<Rightarrow> bool option" where
  "rt_se_boosted s rt_se = (case group_rt_rq s rt_se of
      Some q \<Rightarrow> Some (rt_nr_boosted (rt_rqs s q) \<noteq> 0)
    | None \<Rightarrow> do {
        p \<leftarrow> rt_task_of rt_se;
        Some (prio (tasks s p) \<noteq> normal_prio (tasks s p))
      })"

definition rt_se_prio :: "kst \<Rightarrow> se_ref \<Rightarrow> int option" where
  "rt_se_prio s rt_se = (case group_rt_rq s rt_se of
      Some q \<Rightarrow> Some (rt_highest_curr (rt_rqs s q))
    | None \<Rightarrow> do { p \<leftarrow> rt_task_of rt_se; Some (prio (tasks s p)) })"

definition inc_rt_prio_smp :: "rq_ref \<Rightarrow> int \<Rightarrow> int \<Rightarrow> kst \<Rightarrow> kst option" where
  "inc_rt_prio_smp q pr prev_prio s = do {
     c \<leftarrow> rq_of_rt_rq s q;
     Some (if online (rqs s c) \<and> pr < prev_prio then ext (Cpupri_set (rd (rqs s c)) c pr) s else s)
   }"

definition dec_rt_prio_smp :: "rq_ref \<Rightarrow> int \<Rightarrow> int \<Rightarrow> kst \<Rightarrow> kst option" where
  "dec_rt_prio_smp q pr prev_prio s = do {
     c \<leftarrow> rq_of_rt_rq s q;
     Some (if online (rqs s c) \<and> rt_highest_curr (rt_rqs s q) \<noteq> prev_prio
           then ext (Cpupri_set (rd (rqs s c)) c (rt_highest_curr (rt_rqs s q))) s else s)
   }"

definition inc_rt_prio :: "rq_ref \<Rightarrow> int \<Rightarrow> kst \<Rightarrow> kst option" where
  "inc_rt_prio q pr s =
     (let prev_prio = rt_highest_curr (rt_rqs s q);
          s = (if pr < prev_prio then upd_rt_rq q (\<lambda>r. r\<lparr>rt_highest_curr := pr\<rparr>) s else s)
      in inc_rt_prio_smp q pr prev_prio s)"

definition sched_find_first_bit :: "bitmap \<Rightarrow> nat" where
  "sched_find_first_bit b = find_next_bit b (nat MAX_RT_PRIO + 1) 0"

definition dec_rt_prio :: "rq_ref \<Rightarrow> int \<Rightarrow> kst \<Rightarrow> kst option" where
  "dec_rt_prio q pr s =
     (let prev_prio = rt_highest_curr (rt_rqs s q);
          s = (if rt_nr_running (rt_rqs s q) \<noteq> 0 then
                 if pr = prev_prio
                 then upd_rt_rq q (\<lambda>r. r\<lparr>rt_highest_curr := int (sched_find_first_bit (rt_bitmap r))\<rparr>) s
                 else s
               else upd_rt_rq q (\<lambda>r. r\<lparr>rt_highest_curr := MAX_RT_PRIO\<rparr>) s)
      in dec_rt_prio_smp q pr prev_prio s)"

text \<open>\<open>start_bandwidth_timer\<close> of core.c ends as soon as the timer is active.\<close>

definition start_bandwidth_timer :: "tgid \<Rightarrow> kst \<Rightarrow> kst" where
  "start_bandwidth_timer tg s =
     (if tg_rt_timer_active (task_groups s tg) then s
      else ext (Start_bandwidth_timer tg) (upd_tg tg (\<lambda>g. g\<lparr>tg_rt_timer_active := True\<rparr>) s))"

definition start_rt_bandwidth :: "tgid \<Rightarrow> kst \<Rightarrow> kst" where
  "start_rt_bandwidth tg s =
     (if \<not> rt_bandwidth_enabled s \<or> tg_rt_runtime (task_groups s tg) = RUNTIME_INF then s
      else if tg_rt_timer_active (task_groups s tg) then s
      else start_bandwidth_timer tg s)"

definition inc_rt_group :: "se_ref \<Rightarrow> rq_ref \<Rightarrow> kst \<Rightarrow> kst option" where
  "inc_rt_group rt_se q s = do {
     boosted \<leftarrow> rt_se_boosted s rt_se;
     let s = (if boosted then upd_rt_rq q (\<lambda>r. r\<lparr>rt_nr_boosted := rt_nr_boosted r + 1\<rparr>) s else s);
     Some (case rt_tg (rt_rqs s q) of None \<Rightarrow> s | Some tg \<Rightarrow> start_rt_bandwidth tg s)
   }"

definition dec_rt_group :: "se_ref \<Rightarrow> rq_ref \<Rightarrow> kst \<Rightarrow> kst option" where
  "dec_rt_group rt_se q s = do {
     boosted \<leftarrow> rt_se_boosted s rt_se;
     Some (if boosted then upd_rt_rq q (\<lambda>r. r\<lparr>rt_nr_boosted := rt_nr_boosted r - 1\<rparr>) s else s)
   }"

definition inc_rt_tasks :: "se_ref \<Rightarrow> rq_ref \<Rightarrow> kst \<Rightarrow> kst option" where
  "inc_rt_tasks rt_se q s = do {
     prio \<leftarrow> rt_se_prio s rt_se;
     let s = upd_rt_rq q (\<lambda>r. r\<lparr>rt_nr_running := rt_nr_running r + 1\<rparr>) s;
     s \<leftarrow> inc_rt_prio q prio s;
     s \<leftarrow> inc_rt_migration rt_se q s;
     inc_rt_group rt_se q s
   }"

definition dec_rt_tasks :: "se_ref \<Rightarrow> rq_ref \<Rightarrow> kst \<Rightarrow> kst option" where
  "dec_rt_tasks rt_se q s = do {
     let s = upd_rt_rq q (\<lambda>r. r\<lparr>rt_nr_running := rt_nr_running r - 1\<rparr>) s;
     prio \<leftarrow> rt_se_prio s rt_se;
     s \<leftarrow> dec_rt_prio q prio s;
     s \<leftarrow> dec_rt_migration rt_se q s;
     dec_rt_group rt_se q s
   }"

section \<open>Entities on and off their queue\<close>

definition list_add_leaf_rt_rq :: "rq_ref \<Rightarrow> kst \<Rightarrow> kst option" where
  "list_add_leaf_rt_rq q s = do {
     c \<leftarrow> rq_of_rt_rq s q;
     F \<leftarrow> list_add q c (leaf_rt s);
     Some (s\<lparr>leaf_rt := F\<rparr>)
   }"

definition list_del_leaf_rt_rq :: "rq_ref \<Rightarrow> kst \<Rightarrow> kst option" where
  "list_del_leaf_rt_rq q s = do {
     F \<leftarrow> list_del_rcu q (leaf_rt s);
     Some (s\<lparr>leaf_rt := F\<rparr>)
   }"

text \<open>The pointer to the queue is computed first but used only when the entity is queued.\<close>

definition enqueue_rt_entity1 :: "se_ref \<Rightarrow> bool \<Rightarrow> kst \<Rightarrow> kst option" where
  "enqueue_rt_entity1 rt_se head s = do {
     q \<leftarrow> rt_rq_of_se s rt_se;
     prio \<leftarrow> rt_se_prio s rt_se;
     if (case group_rt_rq s rt_se of
           None \<Rightarrow> False
         | Some g \<Rightarrow> rt_rq_throttled s g \<or> rt_nr_running (rt_rqs s g) = 0) then Some s
     else do {
       queue \<leftarrow> rt_queue q prio;
       s \<leftarrow> (if rt_nr_running (rt_rqs s q) = 0 then list_add_leaf_rt_rq q s else Some s);
       L \<leftarrow> (if head then list_add rt_se queue (rt_list s) else list_add_tail rt_se queue (rt_list s));
       let s = s\<lparr>rt_list := L\<rparr>;
       let s = upd_rt_rq q (\<lambda>r. r\<lparr>rt_bitmap := (rt_bitmap r)(nat prio := True)\<rparr>) s;
       inc_rt_tasks rt_se q s
     }
   }"

definition dequeue_rt_entity1 :: "se_ref \<Rightarrow> kst \<Rightarrow> kst option" where
  "dequeue_rt_entity1 rt_se s = do {
     q \<leftarrow> rt_rq_of_se s rt_se;
     let s = s\<lparr>rt_list := list_del_init rt_se (rt_list s)\<rparr>;
     prio \<leftarrow> rt_se_prio s rt_se;
     queue \<leftarrow> rt_queue q prio;
     let s = (if head_empty queue (rt_list s)
              then upd_rt_rq q (\<lambda>r. r\<lparr>rt_bitmap := (rt_bitmap r)(nat prio := False)\<rparr>) s else s);
     s \<leftarrow> dec_rt_tasks rt_se q s;
     if rt_nr_running (rt_rqs s q) = 0 then list_del_leaf_rt_rq q s else Some s
   }"

text \<open>
  The loops over \<open>for_each_sched_rt_entity\<close> follow \<open>parent\<close> (and \<open>back\<close>) pointers, which nothing
  bounds: a loop that does not end has the value \<open>None\<close>.
\<close>

partial_function (option) rt_set_back ::
  "se_ref option \<Rightarrow> se_ref option \<Rightarrow> kst \<Rightarrow> (se_ref option \<times> kst) option" where
  "rt_set_back rt_se back s = (case rt_se of
      None \<Rightarrow> Some (back, s)
    | Some e \<Rightarrow> rt_set_back (rt_parent (get_rt_se s e)) (Some e) (upd_rt_se e (\<lambda>w. w\<lparr>rt_back := back\<rparr>) s))"

partial_function (option) rt_dequeue_back :: "se_ref option \<Rightarrow> kst \<Rightarrow> kst option" where
  "rt_dequeue_back rt_se s = (case rt_se of
      None \<Rightarrow> Some s
    | Some e \<Rightarrow> Option.bind (if on_rt_rq s e then dequeue_rt_entity1 e s else Some s)
                 (\<lambda>s. rt_dequeue_back (rt_back (get_rt_se s e)) s))"

definition dequeue_rt_stack :: "se_ref \<Rightarrow> kst \<Rightarrow> kst option" where
  "dequeue_rt_stack rt_se s = do {
     (back, s) \<leftarrow> rt_set_back (Some rt_se) None s;
     rt_dequeue_back back s
   }"

partial_function (option) rt_enqueue_chain :: "se_ref option \<Rightarrow> bool \<Rightarrow> kst \<Rightarrow> kst option" where
  "rt_enqueue_chain rt_se head s = (case rt_se of
      None \<Rightarrow> Some s
    | Some e \<Rightarrow> Option.bind (enqueue_rt_entity1 e head s)
                 (\<lambda>s. rt_enqueue_chain (rt_parent (get_rt_se s e)) head s))"

definition enqueue_rt_entity :: "se_ref \<Rightarrow> bool \<Rightarrow> kst \<Rightarrow> kst option" where
  "enqueue_rt_entity rt_se head s = do {
     s \<leftarrow> dequeue_rt_stack rt_se s;
     rt_enqueue_chain (Some rt_se) head s
   }"

partial_function (option) rt_requeue_groups :: "se_ref option \<Rightarrow> kst \<Rightarrow> kst option" where
  "rt_requeue_groups rt_se s = (case rt_se of
      None \<Rightarrow> Some s
    | Some e \<Rightarrow> Option.bind
        (case group_rt_rq s e of
           None \<Rightarrow> Some s
         | Some g \<Rightarrow> if rt_nr_running (rt_rqs s g) \<noteq> 0 then enqueue_rt_entity1 e False s else Some s)
        (\<lambda>s. rt_requeue_groups (rt_parent (get_rt_se s e)) s))"

definition dequeue_rt_entity :: "se_ref \<Rightarrow> kst \<Rightarrow> kst option" where
  "dequeue_rt_entity rt_se s = do {
     s \<leftarrow> dequeue_rt_stack rt_se s;
     rt_requeue_groups (Some rt_se) s
   }"

definition requeue_rt_entity :: "rq_ref \<Rightarrow> se_ref \<Rightarrow> bool \<Rightarrow> kst \<Rightarrow> kst option" where
  "requeue_rt_entity q rt_se head s =
     (if on_rt_rq s rt_se then do {
        prio \<leftarrow> rt_se_prio s rt_se;
        queue \<leftarrow> rt_queue q prio;
        L \<leftarrow> (if head then list_move rt_se queue (rt_list s) else list_move_tail rt_se queue (rt_list s));
        Some (s\<lparr>rt_list := L\<rparr>)
      } else Some s)"

partial_function (option) rt_requeue_chain :: "se_ref option \<Rightarrow> bool \<Rightarrow> kst \<Rightarrow> kst option" where
  "rt_requeue_chain rt_se head s = (case rt_se of
      None \<Rightarrow> Some s
    | Some e \<Rightarrow> Option.bind (rt_rq_of_se s e)
        (\<lambda>q. Option.bind (requeue_rt_entity q e head s)
           (\<lambda>s. rt_requeue_chain (rt_parent (get_rt_se s e)) head s)))"

definition requeue_task_rt :: "cpu \<Rightarrow> tid \<Rightarrow> bool \<Rightarrow> kst \<Rightarrow> kst option" where
  "requeue_task_rt c p head s = rt_requeue_chain (Some (Se_of_task p)) head s"

end
