(* ===== verification/Rt_Bandwidth.thy ===== *)
theory Rt_Bandwidth
  imports Rt_Queue Core_Wake
begin

text \<open>
  RT bandwidth (kernel/rt.c, with CONFIG_SMP and CONFIG_RT_GROUP_SCHED): the budget \<open>rt_runtime\<close>
  of every run-queue per period, borrowing between CPUs, the period timer that replenishes, and
  throttling. Every \<open>rt_rq\<close> here belongs to a task group: its bandwidth is the group's.
\<close>

section \<open>Runtime of a run-queue\<close>

definition sched_rt_runtime :: "kst \<Rightarrow> rq_ref \<Rightarrow> u64" where
  "sched_rt_runtime s q = (case rt_tg (rt_rqs s q) of None \<Rightarrow> RUNTIME_INF | Some _ \<Rightarrow> rt_runtime (rt_rqs s q))"

definition sched_rt_bandwidth :: "kst \<Rightarrow> rq_ref \<Rightarrow> tgid option" where
  "sched_rt_bandwidth s q = rt_tg (rt_rqs s q)"

definition sched_rt_period :: "kst \<Rightarrow> rq_ref \<Rightarrow> u64 option" where
  "sched_rt_period s q = do { tg \<leftarrow> rt_tg (rt_rqs s q); Some (tg_rt_period (task_groups s tg)) }"

definition sched_rt_period_mask :: "kst \<Rightarrow> cpu list" where
  "sched_rt_period_mask s = mask_cpus s (rd_span (root_domains s (rd (rqs s (this_cpu s)))))"

definition sched_rt_period_rt_rq :: "kst \<Rightarrow> tgid \<Rightarrow> cpu \<Rightarrow> rq_ref option" where
  "sched_rt_period_rt_rq s rt_b c = tg_rt_rq (task_groups s rt_b) c"

text \<open>The run-queues \<open>for_each_rt_rq\<close> visits: autogroups are passed over, a group without a
  run-queue on the CPU ends the loop.\<close>

fun for_each_rt_rq :: "kenv \<Rightarrow> kst \<Rightarrow> cpu \<Rightarrow> tgid list \<Rightarrow> rq_ref list" where
  "for_each_rt_rq K s c [] = []"
| "for_each_rt_rq K s c (tg # tgs) =
     (if is_autogroup K tg then for_each_rt_rq K s c tgs
      else case tg_rt_rq (task_groups s tg) c of
             None \<Rightarrow> []
           | Some q \<Rightarrow> q # for_each_rt_rq K s c tgs)"

section \<open>Putting a group on or off its parent's queue\<close>

definition sched_rt_rq_enqueue :: "env \<Rightarrow> rq_ref \<Rightarrow> kst \<Rightarrow> kst option" where
  "sched_rt_rq_enqueue E q s = do {
     c \<leftarrow> rq_of_rt_rq s q;
     let cur = curr (rqs s c);
     tg \<leftarrow> rt_tg (rt_rqs s q);
     let rt_se = tg_rt_se (task_groups s tg) c;
     if rt_nr_running (rt_rqs s q) \<noteq> 0 then do {
       s \<leftarrow> (case rt_se of
              None \<Rightarrow> Some s
            | Some e \<Rightarrow> if on_rt_rq s e then Some s else enqueue_rt_entity e False s);
       Some (if rt_highest_curr (rt_rqs s q) < prio (tasks s cur) then resched_task E cur s else s)
     } else Some s
   }"

definition sched_rt_rq_dequeue :: "rq_ref \<Rightarrow> kst \<Rightarrow> kst option" where
  "sched_rt_rq_dequeue q s = do {
     c \<leftarrow> rq_of_rt_rq s q;
     tg \<leftarrow> rt_tg (rt_rqs s q);
     case tg_rt_se (task_groups s tg) c of
       None \<Rightarrow> Some s
     | Some e \<Rightarrow> if on_rt_rq s e then dequeue_rt_entity e s else Some s
   }"

section \<open>Borrowing\<close>

text \<open>
  \<open>diff\<close> is signed; the sum with the borrower's runtime is compared as unsigned. \<open>div_u64\<close> by a
  zero weight traps.
\<close>

fun balance_loop :: "rq_ref \<Rightarrow> tgid \<Rightarrow> u64 \<Rightarrow> nat \<Rightarrow> cpu list \<Rightarrow> int \<Rightarrow> kst \<Rightarrow> (int \<times> kst) option" where
  "balance_loop q rt_b period wt [] got s = Some (got, s)"
| "balance_loop q rt_b period wt (i # is) got s =
     Option.bind (sched_rt_period_rt_rq s rt_b i) (\<lambda>iter.
       if iter = q then balance_loop q rt_b period wt is got s
       else if rt_runtime (rt_rqs s iter) = RUNTIME_INF then balance_loop q rt_b period wt is got s
       else
         let diff = rt_runtime (rt_rqs s iter) - rt_time (rt_rqs s iter) in
         if sint diff > 0 then
           Option.bind (BUG_ON (wt = 0)) (\<lambda>_.
             let diff = diff div word_of_nat wt;
                 diff = (if rt_runtime (rt_rqs s q) + diff > period
                         then period - rt_runtime (rt_rqs s q) else diff);
                 s = upd_rt_rq iter (\<lambda>r. r\<lparr>rt_runtime := rt_runtime r - diff\<rparr>) s;
                 s = upd_rt_rq q (\<lambda>r. r\<lparr>rt_runtime := rt_runtime r + diff\<rparr>) s
             in if rt_runtime (rt_rqs s q) = period then Some (1, s)
                else balance_loop q rt_b period wt is 1 s)
         else balance_loop q rt_b period wt is got s)"

definition do_balance_runtime :: "rq_ref \<Rightarrow> kst \<Rightarrow> (int \<times> kst) option" where
  "do_balance_runtime q s = do {
     rt_b \<leftarrow> sched_rt_bandwidth s q;
     c \<leftarrow> rq_of_rt_rq s q;
     let span = mask_cpus s (rd_span (root_domains s (rd (rqs s c))));
     balance_loop q rt_b (tg_rt_period (task_groups s rt_b)) (length span) span 0 s
   }"

definition balance_runtime :: "kenv \<Rightarrow> rq_ref \<Rightarrow> kst \<Rightarrow> (int \<times> kst) option" where
  "balance_runtime K q s =
     (if \<not> rt_runtime_share K then Some (0, s)
      else if rt_time (rt_rqs s q) > rt_runtime (rt_rqs s q) then do_balance_runtime q s
      else Some (0, s))"

section \<open>Taking a CPU out of the sharing and back\<close>

fun reclaim_loop :: "rq_ref \<Rightarrow> tgid \<Rightarrow> cpu list \<Rightarrow> u64 \<Rightarrow> kst \<Rightarrow> (u64 \<times> kst) option" where
  "reclaim_loop q rt_b [] want s = Some (want, s)"
| "reclaim_loop q rt_b (i # is) want s =
     Option.bind (sched_rt_period_rt_rq s rt_b i) (\<lambda>iter.
       if iter = q \<or> rt_runtime (rt_rqs s iter) = RUNTIME_INF then reclaim_loop q rt_b is want s
       else
         let (want, s) =
               (if sint want > 0 then
                  let diff = (if sint (rt_runtime (rt_rqs s iter)) < sint want
                              then rt_runtime (rt_rqs s iter) else want)
                  in (want - diff, upd_rt_rq iter (\<lambda>r. r\<lparr>rt_runtime := rt_runtime r - diff\<rparr>) s)
                else (want - want, upd_rt_rq iter (\<lambda>r. r\<lparr>rt_runtime := rt_runtime r - want\<rparr>) s))
         in if want = 0 then Some (want, s) else reclaim_loop q rt_b is want s)"

definition disable_rt_rq :: "cpu \<Rightarrow> rq_ref \<Rightarrow> kst \<Rightarrow> kst option" where
  "disable_rt_rq c q s = do {
     rt_b \<leftarrow> sched_rt_bandwidth s q;
     let rt_b_runtime = tg_rt_runtime (task_groups s rt_b);
     s \<leftarrow> (if rt_runtime (rt_rqs s q) = RUNTIME_INF \<or> rt_runtime (rt_rqs s q) = rt_b_runtime then Some s
          else do {
            let want = rt_b_runtime - rt_runtime (rt_rqs s q);
            (want, s) \<leftarrow> reclaim_loop q rt_b (mask_cpus s (rd_span (root_domains s (rd (rqs s c))))) want s;
            _ \<leftarrow> BUG_ON (want \<noteq> 0);
            Some s
          });
     Some (upd_rt_rq q (\<lambda>r. r\<lparr>rt_runtime := RUNTIME_INF\<rparr>) s)
   }"

fun disable_loop :: "cpu \<Rightarrow> rq_ref list \<Rightarrow> kst \<Rightarrow> kst option" where
  "disable_loop c [] s = Some s"
| "disable_loop c (q # qs) s = Option.bind (disable_rt_rq c q s) (disable_loop c qs)"

definition disable_runtime :: "kenv \<Rightarrow> cpu \<Rightarrow> kst \<Rightarrow> kst option" where
  "disable_runtime K c s =
     (if \<not> scheduler_running (globals s) then Some s
      else disable_loop c (for_each_rt_rq K s c (task_group_list (globals s))) s)"

fun enable_loop :: "rq_ref list \<Rightarrow> kst \<Rightarrow> kst option" where
  "enable_loop [] s = Some s"
| "enable_loop (q # qs) s =
     Option.bind (sched_rt_bandwidth s q) (\<lambda>rt_b.
       enable_loop qs (upd_rt_rq q (\<lambda>r. r\<lparr>rt_runtime := tg_rt_runtime (task_groups s rt_b), rt_time := 0,
                                          rt_throttled := False\<rparr>) s))"

definition enable_runtime :: "kenv \<Rightarrow> cpu \<Rightarrow> kst \<Rightarrow> kst option" where
  "enable_runtime K c s =
     (if \<not> scheduler_running (globals s) then Some s
      else enable_loop (for_each_rt_rq K s c (task_group_list (globals s))) s)"

text \<open>The hotplug notifier; the frozen variants of the actions do the same.\<close>

datatype hotplug_action = Cpu_down_prepare | Cpu_down_failed | Cpu_online | Cpu_other

datatype notify = Notify_ok | Notify_done

definition update_runtime :: "kenv \<Rightarrow> hotplug_action \<Rightarrow> cpu \<Rightarrow> kst \<Rightarrow> (notify \<times> kst) option" where
  "update_runtime K action c s =
     (case action of
        Cpu_down_prepare \<Rightarrow> do { s \<leftarrow> disable_runtime K c s; Some (Notify_ok, s) }
      | Cpu_down_failed \<Rightarrow> do { s \<leftarrow> enable_runtime K c s; Some (Notify_ok, s) }
      | Cpu_online \<Rightarrow> do { s \<leftarrow> enable_runtime K c s; Some (Notify_ok, s) }
      | Cpu_other \<Rightarrow> Some (Notify_done, s))"

section \<open>The period timer\<close>

text \<open>One CPU's part of the timer: what is left of \<open>(idle, throttled)\<close> and the state. \<open>overrun\<close>
  is a C \<open>int\<close>, converted to \<open>u64\<close> for the product.\<close>

definition rt_period_cpu :: "kenv \<Rightarrow> tgid \<Rightarrow> int \<Rightarrow> cpu \<Rightarrow> bool \<times> bool \<times> kst \<Rightarrow> (bool \<times> bool \<times> kst) option" where
  "rt_period_cpu K rt_b overrun i = (\<lambda>(idl, throttled, s). do {
     q \<leftarrow> sched_rt_period_rt_rq s rt_b i;
     c \<leftarrow> rq_of_rt_rq s q;
     (enqueue, idl, s) \<leftarrow>
       (if rt_time (rt_rqs s q) \<noteq> 0 then do {
          s \<leftarrow> (if rt_throttled (rt_rqs s q)
               then map_option snd (balance_runtime K q s) else Some s);
          let runtime = rt_runtime (rt_rqs s q);
          let s = upd_rt_rq q (\<lambda>r. r\<lparr>rt_time := rt_time r - min (rt_time r) (word_of_int overrun * runtime)\<rparr>) s;
          let (enqueue, s) =
            (if rt_throttled (rt_rqs s q) \<and> rt_time (rt_rqs s q) < runtime then
               let s = upd_rt_rq q (\<lambda>r. r\<lparr>rt_throttled := False\<rparr>) s in
               (True, if rt_nr_running (rt_rqs s q) \<noteq> 0 \<and> curr (rqs s c) = idle (rqs s c)
                      then upd_rq c (\<lambda>r. r\<lparr>skip_clock_update := - 1\<rparr>) s else s)
             else (False, s));
          Some (enqueue, idl \<and> rt_time (rt_rqs s q) = 0 \<and> rt_nr_running (rt_rqs s q) = 0, s)
        }
        else if rt_nr_running (rt_rqs s q) \<noteq> 0 then Some (\<not> rt_rq_throttled s q, False, s)
        else Some (False, idl, s));
     let throttled = (throttled \<or> rt_throttled (rt_rqs s q));
     s \<leftarrow> (if enqueue then sched_rt_rq_enqueue (base K) q s else Some s);
     Some (idl, throttled, s)
   })"

fun rt_period_loop :: "kenv \<Rightarrow> tgid \<Rightarrow> int \<Rightarrow> cpu list \<Rightarrow> bool \<times> bool \<times> kst \<Rightarrow> (bool \<times> bool \<times> kst) option" where
  "rt_period_loop K rt_b overrun [] st = Some st"
| "rt_period_loop K rt_b overrun (i # is) st =
     Option.bind (rt_period_cpu K rt_b overrun i st) (rt_period_loop K rt_b overrun is)"

definition do_sched_rt_period_timer :: "kenv \<Rightarrow> tgid \<Rightarrow> int \<Rightarrow> kst \<Rightarrow> (bool \<times> kst) option" where
  "do_sched_rt_period_timer K rt_b overrun s = do {
     (idl, throttled, s) \<leftarrow> rt_period_loop K rt_b overrun (sched_rt_period_mask s) (True, False, s);
     if \<not> throttled \<and> (\<not> rt_bandwidth_enabled s \<or> tg_rt_runtime (task_groups s rt_b) = RUNTIME_INF)
     then Some (True, s) else Some (idl, s)
   }"

text \<open>
  The timer's callback: \<open>overruns\<close> lists what the calls of \<open>hrtimer_forward\<close> return until it
  returns 0. The timer restarts (\<open>True\<close>) unless the last round found nothing to do.
\<close>

fun timer_loop :: "kenv \<Rightarrow> tgid \<Rightarrow> int list \<Rightarrow> bool \<Rightarrow> kst \<Rightarrow> (bool \<times> kst) option" where
  "timer_loop K rt_b [] idl s = Some (idl, s)"
| "timer_loop K rt_b (overrun # overruns) idl s =
     (if overrun = 0 then Some (idl, s)
      else Option.bind (do_sched_rt_period_timer K rt_b overrun s)
             (\<lambda>(idl, s). timer_loop K rt_b overruns idl s))"

definition sched_rt_period_timer :: "kenv \<Rightarrow> tgid \<Rightarrow> int list \<Rightarrow> kst \<Rightarrow> (bool \<times> kst) option" where
  "sched_rt_period_timer K rt_b overruns s = do {
     (idl, s) \<leftarrow> timer_loop K rt_b overruns False s;
     Some (\<not> idl, upd_tg rt_b (\<lambda>g. g\<lparr>tg_rt_timer_active := \<not> idl\<rparr>) s)
   }"

section \<open>Throttling\<close>

definition sched_rt_runtime_exceeded :: "kenv \<Rightarrow> rq_ref \<Rightarrow> kst \<Rightarrow> (bool \<times> kst) option" where
  "sched_rt_runtime_exceeded K q s =
     (if rt_throttled (rt_rqs s q) then Some (rt_rq_throttled s q, s)
      else do {
        period \<leftarrow> sched_rt_period s q;
        if sched_rt_runtime s q \<ge> period then Some (False, s)
        else do {
          (_, s) \<leftarrow> balance_runtime K q s;
          let runtime = sched_rt_runtime s q;
          if runtime = RUNTIME_INF then Some (False, s)
          else if rt_time (rt_rqs s q) > runtime then do {
            rt_b \<leftarrow> sched_rt_bandwidth s q;
            let s = (if tg_rt_runtime (task_groups s rt_b) \<noteq> 0
                     then upd_rt_rq q (\<lambda>r. r\<lparr>rt_throttled := True\<rparr>) s
                     else upd_rt_rq q (\<lambda>r. r\<lparr>rt_time := 0\<rparr>) s);
            if rt_rq_throttled s q then do {
              s \<leftarrow> sched_rt_rq_dequeue q s;
              Some (True, s)
            } else Some (False, s)
          } else Some (False, s)
        }
      })"

definition sched_rt_avg_update :: "cpu \<Rightarrow> u64 \<Rightarrow> kst \<Rightarrow> kst option" where
  "sched_rt_avg_update c rt_delta s = sched_avg_update c (upd_rq c (\<lambda>r. r\<lparr>rt_avg := rt_avg r + rt_delta\<rparr>) s)"

partial_function (option) rt_charge_chain :: "kenv \<Rightarrow> tid \<Rightarrow> u64 \<Rightarrow> se_ref option \<Rightarrow> kst \<Rightarrow> kst option" where
  "rt_charge_chain K p delta_exec rt_se s = (case rt_se of
      None \<Rightarrow> Some s
    | Some e \<Rightarrow> Option.bind (rt_rq_of_se s e)
        (\<lambda>q. Option.bind
           (if sched_rt_runtime s q \<noteq> RUNTIME_INF then
              Option.bind (sched_rt_runtime_exceeded K q
                  (upd_rt_rq q (\<lambda>r. r\<lparr>rt_time := rt_time r + delta_exec\<rparr>) s))
                (\<lambda>(exceeded, s). Some (if exceeded then resched_task (base K) p s else s))
            else Some s)
           (\<lambda>s. rt_charge_chain K p delta_exec (rt_parent (get_rt_se s e)) s)))"

definition update_curr_rt :: "kenv \<Rightarrow> cpu \<Rightarrow> kst \<Rightarrow> kst option" where
  "update_curr_rt K c s =
     (let p = curr (rqs s c) in
      if task_class (tasks s p) \<noteq> rt_sched_class then Some s
      else do {
        let delta_exec = clock_task (rqs s c) - exec_start (se (tasks s p));
        let delta_exec = (if sint delta_exec < 0 then 0 else delta_exec);
        let s = upd_task p (\<lambda>t. t\<lparr>se := (se t)\<lparr>exec_max := max (exec_max (se t)) delta_exec\<rparr>\<rparr>) s;
        let s = upd_task p (\<lambda>t. t\<lparr>se := (se t)\<lparr>sum_exec_runtime := sum_exec_runtime (se t) + delta_exec\<rparr>\<rparr>) s;
        let s = ext (Account_group_exec_runtime p delta_exec) s;
        let s = upd_task p (\<lambda>t. t\<lparr>se := (se t)\<lparr>exec_start := clock_task (rqs s c)\<rparr>\<rparr>) s;
        let s = cpuacct_charge (base K) p delta_exec s;
        s \<leftarrow> sched_rt_avg_update c delta_exec s;
        if \<not> rt_bandwidth_enabled s then Some s
        else rt_charge_chain K p delta_exec (Some (Se_of_task p)) s
      })"

end
