(* ===== verification/Rt_Class.thy ===== *)
theory Rt_Class
  imports Rt_Bandwidth
begin

text \<open>
  The RT class's table (kernel/rt.c): the operations the core calls, with the search for a CPU to
  run on and the push and pull of tasks between CPUs. Where the C code may drop the run-queue
  lock, \<open>double_lock_balance\<close> of the environment says whether it did and what the other CPUs did
  meanwhile.
\<close>

section \<open>Enqueue, dequeue, yield\<close>

definition enqueue_task_rt :: "cpu \<Rightarrow> tid \<Rightarrow> u32 \<Rightarrow> kst \<Rightarrow> kst option" where
  "enqueue_task_rt c p flags s = do {
     let s = (if flags AND ENQUEUE_WAKEUP \<noteq> 0
              then upd_rt_se (Se_of_task p) (\<lambda>w. w\<lparr>rt_timeout := 0\<rparr>) s else s);
     s \<leftarrow> enqueue_rt_entity (Se_of_task p) (flags AND ENQUEUE_HEAD \<noteq> 0) s;
     let s = (if \<not> task_current s c p \<and> nr_cpus_allowed (rt (tasks s p)) > 1
              then enqueue_pushable_task c p s else s);
     Some (inc_nr_running c s)
   }"

definition dequeue_task_rt :: "kenv \<Rightarrow> cpu \<Rightarrow> tid \<Rightarrow> u32 \<Rightarrow> kst \<Rightarrow> kst option" where
  "dequeue_task_rt K c p flags s = do {
     s \<leftarrow> update_curr_rt K c s;
     s \<leftarrow> dequeue_rt_entity (Se_of_task p) s;
     Some (dec_nr_running c (dequeue_pushable_task c p s))
   }"

definition yield_task_rt :: "cpu \<Rightarrow> kst \<Rightarrow> kst option" where
  "yield_task_rt c s = requeue_task_rt c (curr (rqs s c)) False s"

section \<open>Choosing a CPU\<close>

text \<open>
  \<open>find_lowest_rq\<close>: \<open>cpupri_find\<close> gives the CPUs of lowest priority that suit the task. \<open>-1\<close> is
  \<open>None\<close>. The local masks are those \<open>init_sched_rt_class\<close> allocates at boot.
\<close>

definition find_lowest_rq :: "kenv \<Rightarrow> kst \<Rightarrow> tid \<Rightarrow> cpu option" where
  "find_lowest_rq K s p =
     (let c = task_cpu s p; this = this_cpu s in
      if nr_cpus_allowed (rt (tasks s p)) = 1 then None
      else case cpupri_find K s (rd (rqs s c)) p of
        None \<Rightarrow> None
      | Some lowest_mask \<Rightarrow>
          if c \<in> lowest_mask then Some c
          else
            let this_ok = (this \<in> lowest_mask);
                hit = (\<lambda>span. if this_ok \<and> this \<in> span then Some this
                              else List.find (\<lambda>i. i \<in> lowest_mask \<and> i \<in> span) [0..<nr_cpus s]) in
            case List.find (\<lambda>(wake_affine, span). wake_affine \<and> hit span \<noteq> None) (sched_domains K c) of
              Some (_, span) \<Rightarrow> hit span
            | None \<Rightarrow> if this_ok then Some this else List.find (\<lambda>i. i \<in> lowest_mask) [0..<nr_cpus s])"

definition select_task_rq_rt :: "kenv \<Rightarrow> tid \<Rightarrow> u32 \<Rightarrow> u32 \<Rightarrow> kst \<Rightarrow> cpu option" where
  "select_task_rq_rt K p sd_flag flags s =
     (let c = task_cpu s p in
      if nr_cpus_allowed (rt (tasks s p)) = 1 then Some c
      else if sd_flag \<noteq> SD_BALANCE_WAKE \<and> sd_flag \<noteq> SD_BALANCE_FORK then Some c
      else
        let cur = curr (rqs s c) in
        if rt_task s cur \<and>
           (nr_cpus_allowed (rt (tasks s cur)) < 2 \<or> prio (tasks s cur) \<le> prio (tasks s p)) \<and>
           nr_cpus_allowed (rt (tasks s p)) > 1
        then Some (case find_lowest_rq K s p of None \<Rightarrow> c | Some target \<Rightarrow> target)
        else Some c)"

section \<open>Preemption\<close>

definition check_preempt_equal_prio :: "kenv \<Rightarrow> cpu \<Rightarrow> tid \<Rightarrow> kst \<Rightarrow> kst option" where
  "check_preempt_equal_prio K c p s =
     (let cur = curr (rqs s c); d = rd (rqs s c) in
      if nr_cpus_allowed (rt (tasks s cur)) = 1 then Some s
      else if nr_cpus_allowed (rt (tasks s p)) \<noteq> 1 \<and> cpupri_find K s d p \<noteq> None then Some s
      else if cpupri_find K s d cur = None then Some s
      else do {
        s \<leftarrow> requeue_task_rt c p True s;
        Some (resched_task (base K) cur s)
      })"

definition check_preempt_curr_rt :: "kenv \<Rightarrow> cpu \<Rightarrow> tid \<Rightarrow> u32 \<Rightarrow> kst \<Rightarrow> kst option" where
  "check_preempt_curr_rt K c p flags s =
     (let cur = curr (rqs s c) in
      if prio (tasks s p) < prio (tasks s cur) then Some (resched_task (base K) cur s)
      else if prio (tasks s p) = prio (tasks s cur) \<and> \<not> test_tsk_need_resched s cur
      then check_preempt_equal_prio K c p s
      else Some s)"

section \<open>Picking\<close>

definition pick_next_rt_entity :: "rq_ref \<Rightarrow> kst \<Rightarrow> se_ref option" where
  "pick_next_rt_entity q s = do {
     let idx = sched_find_first_bit (rt_bitmap (rt_rqs s q));
     _ \<leftarrow> BUG_ON (int idx \<ge> MAX_RT_PRIO);
     queue \<leftarrow> rt_queue q (int idx);
     first_entry queue (rt_list s)
   }"

partial_function (option) rt_pick_descend :: "rq_ref \<Rightarrow> kst \<Rightarrow> se_ref option" where
  "rt_pick_descend q s = Option.bind (pick_next_rt_entity q s)
     (\<lambda>e. case group_rt_rq s e of None \<Rightarrow> Some e | Some g \<Rightarrow> rt_pick_descend g s)"

definition pick_next_task_rt1 :: "cpu \<Rightarrow> kst \<Rightarrow> (tid option \<times> kst) option" where
  "pick_next_task_rt1 c s =
     (let q = Rq_of_cpu c in
      if rt_nr_running (rt_rqs s q) = 0 then Some (None, s)
      else if rt_rq_throttled s q then Some (None, s)
      else do {
        rt_se \<leftarrow> rt_pick_descend q s;
        p \<leftarrow> rt_task_of rt_se;
        Some (Some p, upd_task p (\<lambda>t. t\<lparr>se := (se t)\<lparr>exec_start := clock_task (rqs s c)\<rparr>\<rparr>) s)
      })"

definition pick_next_task_rt :: "cpu \<Rightarrow> kst \<Rightarrow> (tid option \<times> kst) option" where
  "pick_next_task_rt c s = do {
     (p, s) \<leftarrow> pick_next_task_rt1 c s;
     let s = (case p of None \<Rightarrow> s | Some p \<Rightarrow> dequeue_pushable_task c p s);
     Some (p, upd_rq c (\<lambda>r. r\<lparr>post_schedule_flag := has_pushable_tasks s c\<rparr>) s)
   }"

definition put_prev_task_rt :: "kenv \<Rightarrow> cpu \<Rightarrow> tid \<Rightarrow> kst \<Rightarrow> kst option" where
  "put_prev_task_rt K c p s = do {
     s \<leftarrow> update_curr_rt K c s;
     Some (if on_rt_rq s (Se_of_task p) \<and> nr_cpus_allowed (rt (tasks s p)) > 1
           then enqueue_pushable_task c p s else s)
   }"

definition set_curr_task_rt :: "cpu \<Rightarrow> kst \<Rightarrow> kst" where
  "set_curr_task_rt c s =
     (let p = curr (rqs s c);
          s = upd_task p (\<lambda>t. t\<lparr>se := (se t)\<lparr>exec_start := clock_task (rqs s c)\<rparr>\<rparr>) s
      in dequeue_pushable_task c p s)"

section \<open>The task to move to another CPU\<close>

text \<open>A negative CPU in \<open>pick_rt_task\<close> stands for any CPU; no caller passes one.\<close>

definition pick_rt_task :: "kst \<Rightarrow> cpu \<Rightarrow> tid \<Rightarrow> cpu \<Rightarrow> bool" where
  "pick_rt_task s c p target \<longleftrightarrow>
     \<not> task_running s c p \<and> target \<in> cpus_allowed (tasks s p) \<and> nr_cpus_allowed (rt (tasks s p)) > 1"

fun pick_in_queue :: "kst \<Rightarrow> cpu \<Rightarrow> cpu \<Rightarrow> se_ref list \<Rightarrow> tid option option" where
  "pick_in_queue s c target [] = Some None"
| "pick_in_queue s c target (e # es) =
     (if \<not> rt_entity_is_task s e then pick_in_queue s c target es
      else Option.bind (rt_task_of e) (\<lambda>p.
        if pick_rt_task s c p target then Some (Some p) else pick_in_queue s c target es))"

text \<open>The \<open>next_idx\<close> loop over the levels of one run-queue.\<close>

function pick_in_levels :: "kst \<Rightarrow> cpu \<Rightarrow> cpu \<Rightarrow> rq_ref \<Rightarrow> nat \<Rightarrow> tid option \<Rightarrow> tid option option" where
  "pick_in_levels s c target q idx next =
     (if int idx \<ge> MAX_RT_PRIO then Some next
      else if (case next of Some n \<Rightarrow> prio (tasks s n) \<le> int idx | None \<Rightarrow> False) then Some next
      else case pick_in_queue s c target (items (rt_list s) (q, idx)) of
        None \<Rightarrow> None
      | Some (Some p) \<Rightarrow> Some (Some p)
      | Some None \<Rightarrow>
          if next = None
          then pick_in_levels s c target q
                 (find_next_bit (rt_bitmap (rt_rqs s q)) (nat MAX_RT_PRIO) (idx + 1)) next
          else Some next)"
  by pat_completeness auto
termination
proof (relation "measure (\<lambda>(_, _, _, _, idx, _). 100 - idx)")
  fix s :: kst and c target q idx and "next" :: "tid option" and x
  assume "\<not> MAX_RT_PRIO \<le> int idx"
  then have "idx + 1 \<le> find_next_bit (rt_bitmap (rt_rqs s q)) 100 (idx + 1) \<and> idx < 100"
    by (cases rule: find_next_bit_cases [of "rt_bitmap (rt_rqs s q)" 100 "idx + 1"]) auto
  then show "((s, c, target, q, find_next_bit (rt_bitmap (rt_rqs s q)) (nat MAX_RT_PRIO) (idx + 1), next),
      s, c, target, q, idx, next) \<in> measure (\<lambda>(_, _, _, _, idx, _). 100 - idx)"
    by (simp add: diff_less_mono2)
qed simp

declare pick_in_levels.simps [simp del]

fun pick_in_leaves :: "kst \<Rightarrow> cpu \<Rightarrow> cpu \<Rightarrow> rq_ref list \<Rightarrow> tid option \<Rightarrow> tid option option" where
  "pick_in_leaves s c target [] next = Some next"
| "pick_in_leaves s c target (q # qs) next =
     Option.bind (pick_in_levels s c target q (sched_find_first_bit (rt_bitmap (rt_rqs s q))) next)
       (pick_in_leaves s c target qs)"

definition pick_next_highest_task_rt :: "kst \<Rightarrow> cpu \<Rightarrow> cpu \<Rightarrow> tid option option" where
  "pick_next_highest_task_rt s c target = pick_in_leaves s c target (items (leaf_rt s) c) None"

definition pick_next_pushable_task :: "cpu \<Rightarrow> kst \<Rightarrow> tid option option" where
  "pick_next_pushable_task c s =
     (case pushable_tasks (rt_rqs s (Rq_of_cpu c)) of
        [] \<Rightarrow> Some None
      | (_, p) # _ \<Rightarrow> do {
          _ \<leftarrow> BUG_ON (c \<noteq> task_cpu s p);
          _ \<leftarrow> BUG_ON (task_current s c p);
          _ \<leftarrow> BUG_ON (nr_cpus_allowed (rt (tasks s p)) \<le> 1);
          _ \<leftarrow> BUG_ON (\<not> on_rq (tasks s p));
          _ \<leftarrow> BUG_ON (\<not> rt_task s p);
          Some (Some p)
        })"

section \<open>Push\<close>

definition RT_MAX_TRIES :: nat where "RT_MAX_TRIES = 3"

fun find_lock_tries :: "kenv \<Rightarrow> tid \<Rightarrow> cpu \<Rightarrow> nat \<Rightarrow> kst \<Rightarrow> cpu option \<times> kst" where
  "find_lock_tries K p c 0 s = (None, s)"
| "find_lock_tries K p c (Suc tries) s =
     (case find_lowest_rq K s p of
        None \<Rightarrow> (None, s)
      | Some lowest \<Rightarrow>
          if lowest = c then (None, s)
          else
            let (dropped, s) = double_lock_balance K c lowest s in
            if dropped \<and> (task_cpu s p \<noteq> c \<or> lowest \<notin> cpus_allowed (tasks s p) \<or> task_running s c p \<or>
                          \<not> on_rq (tasks s p)) then (None, s)
            else if rt_highest_curr (rt_rqs s (Rq_of_cpu lowest)) > prio (tasks s p) then (Some lowest, s)
            else find_lock_tries K p c tries s)"

definition find_lock_lowest_rq :: "kenv \<Rightarrow> tid \<Rightarrow> cpu \<Rightarrow> kst \<Rightarrow> cpu option \<times> kst" where
  "find_lock_lowest_rq K p c s = find_lock_tries K p c RT_MAX_TRIES s"

text \<open>The part of \<open>push_rt_task\<close> from \<open>retry\<close> on.\<close>

partial_function (option) push_retry :: "kenv \<Rightarrow> cpu \<Rightarrow> tid \<Rightarrow> kst \<Rightarrow> (bool \<times> kst) option" where
  "push_retry K c next_task s =
     (let cur = curr (rqs s c) in
      if next_task = cur then Some (False, s)
      else if prio (tasks s next_task) < prio (tasks s cur) then Some (False, resched_task (base K) cur s)
      else
        let (lowest, s) = find_lock_lowest_rq K next_task c s in
        (case lowest of
           None \<Rightarrow> Option.bind (pick_next_pushable_task c s) (\<lambda>task.
             if task_cpu s next_task = c \<and> task = Some next_task then Some (False, s)
             else case task of
               None \<Rightarrow> Some (False, s)
             | Some t \<Rightarrow> push_retry K c t (ext (Task_note ''put_task_struct'' next_task) s))
         | Some lowest \<Rightarrow>
             Option.bind (deactivate_task K c next_task 0 s) (\<lambda>s.
             Option.bind (activate_task K lowest next_task 0 (set_task_cpu next_task lowest s)) (\<lambda>s.
               Some (True, resched_task (base K) (curr (rqs s lowest)) s)))))"

definition push_rt_task :: "kenv \<Rightarrow> cpu \<Rightarrow> kst \<Rightarrow> (bool \<times> kst) option" where
  "push_rt_task K c s =
     (if \<not> rt_overloaded_flag (rt_rqs s (Rq_of_cpu c)) then Some (False, s)
      else do {
        next \<leftarrow> pick_next_pushable_task c s;
        case next of
          None \<Rightarrow> Some (False, s)
        | Some next_task \<Rightarrow> push_retry K c next_task s
      })"

partial_function (option) push_rt_tasks :: "kenv \<Rightarrow> cpu \<Rightarrow> kst \<Rightarrow> kst option" where
  "push_rt_tasks K c s =
     Option.bind (push_rt_task K c s) (\<lambda>(pushed, s). if pushed then push_rt_tasks K c s else Some s)"

section \<open>Pull\<close>

definition pull_from :: "kenv \<Rightarrow> cpu \<Rightarrow> cpu \<Rightarrow> kst \<Rightarrow> (bool \<times> kst) option" where
  "pull_from K this src s =
     (let this_q = Rq_of_cpu this; src_q = Rq_of_cpu src in
      if rt_highest_next (rt_rqs s src_q) \<ge> rt_highest_curr (rt_rqs s this_q) then Some (False, s)
      else
        let s = snd (double_lock_balance K this src s) in
        if rt_nr_running (rt_rqs s src_q) \<le> 1 then Some (False, s)
        else do {
          r \<leftarrow> pick_next_highest_task_rt s src this;
          case r of
            None \<Rightarrow> Some (False, s)
          | Some p \<Rightarrow>
              if prio (tasks s p) < rt_highest_curr (rt_rqs s this_q) then
                if prio (tasks s p) < prio (tasks s (curr (rqs s src))) then Some (False, s)
                else do {
                  s \<leftarrow> deactivate_task K src p 0 s;
                  s \<leftarrow> activate_task K this p 0 (set_task_cpu p this s);
                  Some (True, s)
                }
              else Some (False, s)
        })"

text \<open>The mask is read again for every CPU: a pull may change it.\<close>

fun pull_loop :: "kenv \<Rightarrow> cpu \<Rightarrow> cpu list \<Rightarrow> bool \<Rightarrow> kst \<Rightarrow> (bool \<times> kst) option" where
  "pull_loop K this [] ret s = Some (ret, s)"
| "pull_loop K this (c # cs) ret s =
     (if c \<notin> rto_mask (root_domains s (rd (rqs s this))) \<or> this = c then pull_loop K this cs ret s
      else Option.bind (pull_from K this c s) (\<lambda>(pulled, s). pull_loop K this cs (ret \<or> pulled) s))"

definition pull_rt_task :: "kenv \<Rightarrow> cpu \<Rightarrow> kst \<Rightarrow> (bool \<times> kst) option" where
  "pull_rt_task K this s =
     (if \<not> rt_overloaded s this then Some (False, s)
      else pull_loop K this [0..<nr_cpus s] False s)"

section \<open>Hooks of the scheduler\<close>

definition pre_schedule_rt :: "kenv \<Rightarrow> cpu \<Rightarrow> tid \<Rightarrow> kst \<Rightarrow> kst option" where
  "pre_schedule_rt K c prev s =
     (if rt_highest_curr (rt_rqs s (Rq_of_cpu c)) > prio (tasks s prev)
      then map_option snd (pull_rt_task K c s) else Some s)"

definition post_schedule_rt :: "kenv \<Rightarrow> cpu \<Rightarrow> kst \<Rightarrow> kst option" where
  "post_schedule_rt K c s = push_rt_tasks K c s"

definition task_woken_rt :: "kenv \<Rightarrow> cpu \<Rightarrow> tid \<Rightarrow> kst \<Rightarrow> kst option" where
  "task_woken_rt K c p s =
     (let cur = curr (rqs s c) in
      if \<not> task_running s c p \<and> \<not> test_tsk_need_resched s cur \<and> has_pushable_tasks s c \<and>
         nr_cpus_allowed (rt (tasks s p)) > 1 \<and> rt_task s cur \<and>
         (nr_cpus_allowed (rt (tasks s cur)) < 2 \<or> prio (tasks s cur) \<le> prio (tasks s p))
      then push_rt_tasks K c s else Some s)"

definition set_cpus_allowed_rt :: "tid \<Rightarrow> cpu set \<Rightarrow> kst \<Rightarrow> kst option" where
  "set_cpus_allowed_rt p new_mask s = do {
     let wt = int (length (mask_cpus s new_mask));
     let old = nr_cpus_allowed (rt (tasks s p));
     _ \<leftarrow> BUG_ON (\<not> rt_task s p);
     if on_rq (tasks s p) \<and> wt \<noteq> old then do {
       let c = task_cpu s p;
       let q = Rq_of_cpu c;
       let s = (if \<not> task_current s c p then
                  let s = (if old > 1 then dequeue_pushable_task c p s else s)
                  in if wt > 1 then enqueue_pushable_task c p s else s
                else s);
       s \<leftarrow> (if old \<le> 1 \<and> wt > 1
            then Some (upd_rt_rq q (\<lambda>r. r\<lparr>rt_nr_migratory := rt_nr_migratory r + 1\<rparr>) s)
            else if old > 1 \<and> wt \<le> 1 then do {
              _ \<leftarrow> BUG_ON (rt_nr_migratory (rt_rqs s q) = 0);
              Some (upd_rt_rq q (\<lambda>r. r\<lparr>rt_nr_migratory := rt_nr_migratory r - 1\<rparr>) s)
            } else Some s);
       update_rt_migration q s
     } else Some s
   }"

definition rq_online_rt :: "kenv \<Rightarrow> cpu \<Rightarrow> kst \<Rightarrow> kst option" where
  "rq_online_rt K c s = do {
     let s = (if rt_overloaded_flag (rt_rqs s (Rq_of_cpu c)) then rt_set_overload c s else s);
     s \<leftarrow> enable_runtime K c s;
     Some (ext (Cpupri_set (rd (rqs s c)) c (rt_highest_curr (rt_rqs s (Rq_of_cpu c)))) s)
   }"

definition rq_offline_rt :: "kenv \<Rightarrow> cpu \<Rightarrow> kst \<Rightarrow> kst option" where
  "rq_offline_rt K c s = do {
     let s = (if rt_overloaded_flag (rt_rqs s (Rq_of_cpu c)) then rt_clear_overload c s else s);
     s \<leftarrow> disable_runtime K c s;
     Some (ext (Cpupri_set (rd (rqs s c)) c (CPUPRI_INVALID K)) s)
   }"

section \<open>Changes of class and priority\<close>

definition switched_from_rt :: "kenv \<Rightarrow> cpu \<Rightarrow> tid \<Rightarrow> kst \<Rightarrow> kst option" where
  "switched_from_rt K c p s =
     (if on_rq (tasks s p) \<and> rt_nr_running (rt_rqs s (Rq_of_cpu c)) = 0
      then map_option snd (pull_rt_task K c s) else Some s)"

definition switched_to_rt :: "kenv \<Rightarrow> cpu \<Rightarrow> tid \<Rightarrow> kst \<Rightarrow> kst option" where
  "switched_to_rt K c p s =
     (if on_rq (tasks s p) \<and> curr (rqs s c) \<noteq> p then do {
        (pushed, s) \<leftarrow> (if rt_overloaded_flag (rt_rqs s (Rq_of_cpu c)) then push_rt_task K c s
                       else Some (False, s));
        let check_resched = \<not> (pushed \<and> c \<noteq> task_cpu s p);
        Some (if check_resched \<and> prio (tasks s p) < prio (tasks s (curr (rqs s c)))
              then resched_task (base K) (curr (rqs s c)) s else s)
      } else Some s)"

definition prio_changed_rt :: "kenv \<Rightarrow> cpu \<Rightarrow> tid \<Rightarrow> int \<Rightarrow> kst \<Rightarrow> kst option" where
  "prio_changed_rt K c p oldprio s =
     (if \<not> on_rq (tasks s p) then Some s
      else if curr (rqs s c) = p then do {
        s \<leftarrow> (if oldprio < prio (tasks s p) then map_option snd (pull_rt_task K c s) else Some s);
        Some (if prio (tasks s p) > rt_highest_curr (rt_rqs s (Rq_of_cpu c)) \<and> curr (rqs s c) = p
              then resched_task (base K) p s else s)
      }
      else Some (if prio (tasks s p) < prio (tasks s (curr (rqs s c)))
                 then resched_task (base K) (curr (rqs s c)) s else s))"

section \<open>The tick\<close>

definition watchdog :: "kenv \<Rightarrow> tid \<Rightarrow> kst \<Rightarrow> kst" where
  "watchdog K p s =
     (let (soft, hard) = rlimit_rttime K p in
      if soft \<noteq> NOT 0 then
        let s = upd_task p (\<lambda>t. t\<lparr>rt := (rt t)\<lparr>rt_timeout := rt_timeout (rt t) + 1\<rparr>\<rparr>) s;
            tick = word_of_nat (1000000 div HZ (base K));
            next = (min soft hard + tick - 1) div tick
        in if rt_timeout (rt (tasks s p)) > next
           then upd_task p (\<lambda>t. t\<lparr>sched_exp := sum_exec_runtime (se t)\<rparr>) s else s
      else s)"

partial_function (option) rt_tick_chain :: "cpu \<Rightarrow> tid \<Rightarrow> se_ref option \<Rightarrow> kst \<Rightarrow> kst option" where
  "rt_tick_chain c p rt_se s = (case rt_se of
      None \<Rightarrow> Some s
    | Some e \<Rightarrow>
        if prev_neq_next e (rt_list s) then
          Option.bind (requeue_task_rt c p False s) (\<lambda>s. Some (set_tsk_need_resched p s))
        else rt_tick_chain c p (rt_parent (get_rt_se s e)) s)"

definition task_tick_rt :: "kenv \<Rightarrow> cpu \<Rightarrow> tid \<Rightarrow> bool \<Rightarrow> kst \<Rightarrow> kst option" where
  "task_tick_rt K c p queued s = do {
     s \<leftarrow> update_curr_rt K c s;
     let s = watchdog K p s;
     if policy (tasks s p) \<noteq> SCHED_RR then Some s
     else do {
       let s = upd_task p (\<lambda>t. t\<lparr>rt := (rt t)\<lparr>rt_time_slice := rt_time_slice (rt t) - 1\<rparr>\<rparr>) s;
       if rt_time_slice (rt (tasks s p)) \<noteq> 0 then Some s
       else do {
         let s = upd_task p (\<lambda>t. t\<lparr>rt := (rt t)\<lparr>rt_time_slice := RR_TIMESLICE (HZ (base K))\<rparr>\<rparr>) s;
         rt_tick_chain c p (Some (Se_of_task p)) s
       }
     }
   }"

definition get_rr_interval_rt :: "kenv \<Rightarrow> cpu \<Rightarrow> tid option \<Rightarrow> kst \<Rightarrow> (u32 \<times> kst) option" where
  "get_rr_interval_rt K c task s = do {
     p \<leftarrow> task;
     Some (if policy (tasks s p) = SCHED_RR then RR_TIMESLICE (HZ (base K)) else 0, s)
   }"

section \<open>The class table\<close>

text \<open>
  Push and pull move tasks with the core's \<open>activate_task\<close>, which dispatches through the class
  tables of \<open>K\<close>: for the kernel's own tables take the \<open>K\<close> that \<open>with_rt_class\<close> builds. Enqueue and
  dequeue do not dispatch, so one level of unfolding is enough.
\<close>

definition rt_class :: "kenv \<Rightarrow> class_ops" where
  "rt_class K =
     \<lparr>op_enqueue_task = enqueue_task_rt,
      op_dequeue_task = dequeue_task_rt K,
      op_yield_task = yield_task_rt,
      op_check_preempt_curr = check_preempt_curr_rt K,
      op_pick_next_task = pick_next_task_rt,
      op_put_prev_task = put_prev_task_rt K,
      op_select_task_rq = select_task_rq_rt K,
      op_pre_schedule = Some (pre_schedule_rt K),
      op_post_schedule = Some (post_schedule_rt K),
      op_task_waking = None,
      op_task_woken = Some (task_woken_rt K),
      op_set_cpus_allowed = Some set_cpus_allowed_rt,
      op_rq_online = Some (rq_online_rt K),
      op_rq_offline = Some (rq_offline_rt K),
      op_set_curr_task = (\<lambda>c s. Some (set_curr_task_rt c s)),
      op_task_tick = task_tick_rt K,
      op_task_fork = None,
      op_switched_from = Some (switched_from_rt K),
      op_switched_to = switched_to_rt K,
      op_prio_changed = prio_changed_rt K,
      op_get_rr_interval = Some (get_rr_interval_rt K)\<rparr>"

definition with_rt_class :: "kenv \<Rightarrow> kenv" where
  "with_rt_class K =
     (let K0 = K\<lparr>ops := (ops K)(rt_sched_class := rt_class K)\<rparr>
      in K\<lparr>ops := (ops K)(rt_sched_class := rt_class K0)\<rparr>)"

end
