(* ===== verification/Safe_Run.thy ===== *)
theory Safe_Run
  imports Main
begin

text \<open>
  Runs of an operation table: events that are enabled in a state are executed by a partial
  function. When every enabled event succeeds and keeps an invariant, no run gets stuck.
\<close>

inductive event_step :: "('e \<Rightarrow> 's \<Rightarrow> bool) \<Rightarrow> ('e \<Rightarrow> 's \<Rightarrow> 's option) \<Rightarrow> 's \<Rightarrow> 's \<Rightarrow> bool" for enabled exec where
  event_stepI: "enabled ev s \<Longrightarrow> exec ev s = Some s' \<Longrightarrow> event_step enabled exec s s'"

inductive_cases event_stepE: "event_step enabled exec s s'"

inductive_simps event_step_iff: "event_step enabled exec s s'"

locale safe_events =
  fixes inv :: "'s \<Rightarrow> bool"
    and enabled :: "'e \<Rightarrow> 's \<Rightarrow> bool"
    and exec :: "'e \<Rightarrow> 's \<Rightarrow> 's option"
  assumes event_law: "inv s \<Longrightarrow> enabled ev s \<Longrightarrow> \<exists>s'. exec ev s = Some s' \<and> inv s'"
begin

lemma run_inv: "(event_step enabled exec)\<^sup>*\<^sup>* s0 s \<Longrightarrow> inv s0 \<Longrightarrow> inv s"
  by (induction rule: rtranclp_induct) (auto elim!: event_stepE dest: event_law)

lemma run_safe:
  assumes "(event_step enabled exec)\<^sup>*\<^sup>* s0 s" "inv s0"
  shows "inv s \<and> (\<forall>ev. enabled ev s \<longrightarrow> exec ev s \<noteq> None)"
  using run_inv [OF assms] event_law by fastforce

end

end
