(* ===== verification/Rt_Bandwidth_Spec.thy ===== *)
theory Rt_Bandwidth_Spec
  imports Rt_Bandwidth Safe_Run
begin

text \<open>
  Conservation of RT bandwidth. Borrowing and reclaiming only change the runtimes of a group's
  run-queues, so both loops are first shown equal to pure functions on runtimes; what the CPUs
  that take part hold together is then an invariant, and from it follows that a CPU taken down
  always gets back what it lent.
\<close>

section \<open>Small 64-bit numbers\<close>

lemma uint_small: "unat (x :: u64) < 2 ^ 63 \<Longrightarrow> 0 \<le> uint x \<and> uint x < 2 ^ 63"
  unfolding unat_eq_nat_uint by (subst (asm) nat_less_iff) simp_all

lemma sint_diff_small:
  fixes a b :: u64
  assumes "unat a < 2 ^ 63" "unat b < 2 ^ 63"
  shows "sint (a - b) = int (unat a) - int (unat b)"
proof -
  have s: "sint x = uint x" if "unat x < 2 ^ 63" for x :: u64
    using uint_small [OF that] unfolding sint_uint by (intro signed_take_bit_int_eq_self; simp; linarith)
  have "sint (a - b) = signed_take_bit 63 (uint a - uint b)"
    using s [OF assms(1)] s [OF assms(2)] by (simp add: sint_word_ariths)
  also have "\<dots> = uint a - uint b"
    using uint_small [OF assms(1)] uint_small [OF assms(2)]
    by (intro signed_take_bit_int_eq_self) linarith+
  finally show ?thesis by simp
qed

lemma unat_RUNTIME_INF: "unat RUNTIME_INF = 2 ^ 64 - 1"
  by (simp add: RUNTIME_INF_def unsigned_minus_1_eq_mask mask_eq_exp_minus_1)

section \<open>Borrowing on runtimes alone\<close>

definition with_runtime :: "(rq_ref \<Rightarrow> u64) \<Rightarrow> kst \<Rightarrow> kst" where
  "with_runtime f s = s\<lparr>rt_rqs := (\<lambda>q. (rt_rqs s q)\<lparr>rt_runtime := f q\<rparr>)\<rparr>"

lemma with_runtime_simps [simp]:
  "rt_runtime (rt_rqs (with_runtime f s) q) = f q" "rt_time (rt_rqs (with_runtime f s) q) = rt_time (rt_rqs s q)"
  "rt_tg (rt_rqs (with_runtime f s) q) = rt_tg (rt_rqs s q)"
  "rt_rq_rq (rt_rqs (with_runtime f s) q) = rt_rq_rq (rt_rqs s q)"
  "task_groups (with_runtime f s) = task_groups s" "root_domains (with_runtime f s) = root_domains s"
  "rqs (with_runtime f s) = rqs s" "nr_cpus (with_runtime f s) = nr_cpus s"
  "upd_rt_rq q (\<lambda>r. r\<lparr>rt_runtime := x\<rparr>) (with_runtime f s) = with_runtime (f(q := x)) s"
  by (simp_all add: with_runtime_def fun_eq_iff)

lemma with_runtime_id: "with_runtime (\<lambda>q. rt_runtime (rt_rqs s q)) s = s"
  by (simp add: with_runtime_def)

fun share :: "rq_ref \<Rightarrow> u64 \<Rightarrow> nat \<Rightarrow> (rq_ref \<Rightarrow> u64) \<Rightarrow> rq_ref list \<Rightarrow> int \<Rightarrow> (rq_ref \<Rightarrow> u64) \<Rightarrow> int \<times> (rq_ref \<Rightarrow> u64)" where
  "share q period wt T [] got f = (got, f)"
| "share q period wt T (x # xs) got f =
     (let d = f x - T x in
      if x = q \<or> f x = RUNTIME_INF \<or> sint d \<le> 0 then share q period wt T xs got f
      else
        let d = d div word_of_nat wt;
            d = (if f q + d > period then period - f q else d);
            f = f(x := f x - d, q := f q + d)
        in if f q = period then (1, f) else share q period wt T xs 1 f)"

lemma balance_loop_share:
  assumes "wt \<noteq> 0" "map (tg_rt_rq (task_groups s tg)) cs = map Some xs"
  shows "balance_loop q tg period wt cs got (with_runtime f s) =
    Some (case share q period wt (\<lambda>x. rt_time (rt_rqs s x)) xs got f of (g, f') \<Rightarrow> (g, with_runtime f' s))"
  using assms(2)
proof (induction cs arbitrary: xs got f)
  case Nil
  then show ?case by simp
next
  case (Cons c cs)
  then obtain x ys where xs: "xs = x # ys" "tg_rt_rq (task_groups s tg) c = Some x"
    "map (tg_rt_rq (task_groups s tg)) cs = map Some ys" by (cases xs) auto
  note IH = Cons.IH [OF xs(3)]
  let ?d = "(f x - rt_time (rt_rqs s x)) div word_of_nat wt"
  let ?e = "if f q + ?d > period then period - f q else ?d"
  show ?case
  proof (cases "x = q \<or> f x = RUNTIME_INF \<or> sint (f x - rt_time (rt_rqs s x)) \<le> 0")
    case True
    then show ?thesis using IH xs by (auto simp: sched_rt_period_rt_rq_def Let_def)
  next
    case False
    then have nq: "q \<noteq> x" by blast
    define h where "h = f(x := f x - ?e, q := f q + ?e)"
    have "balance_loop q tg period wt (c # cs) got (with_runtime f s) =
        (if h q = period then Some (1, with_runtime h s)
         else balance_loop q tg period wt cs 1 (with_runtime h s))"
      using False nq assms(1) xs(2) by (simp add: sched_rt_period_rt_rq_def Let_def h_def)
    moreover have "share q period wt (\<lambda>x. rt_time (rt_rqs s x)) (x # ys) got f =
        (if h q = period then (1, h) else share q period wt (\<lambda>x. rt_time (rt_rqs s x)) ys 1 h)"
      using False by (simp add: Let_def h_def)
    ultimately show ?thesis using IH [of 1 h] xs(1) by (simp del: balance_loop.simps share.simps)
  qed
qed

section \<open>What sharing keeps\<close>

text \<open>
  The CPUs that take part are those whose runtime is not infinite; \<open>pool\<close> is what they hold
  together. Below \<open>2^63\<close> ns no sum of theirs wraps.
\<close>

definition active :: "rq_ref list \<Rightarrow> (rq_ref \<Rightarrow> u64) \<Rightarrow> rq_ref set" where
  "active qs f = {x \<in> set qs. f x \<noteq> RUNTIME_INF}"

definition pool :: "rq_ref list \<Rightarrow> (rq_ref \<Rightarrow> u64) \<Rightarrow> nat" where
  "pool qs f = (\<Sum>x\<in>active qs f. unat (f x))"

lemma active_finite [simp]: "finite (active qs f)"
  by (simp add: active_def)

lemma active_le_pool: "x \<in> active qs f \<Longrightarrow> unat (f x) \<le> pool qs f"
  unfolding pool_def by (rule member_le_sum) simp_all

lemma small_not_INF: "unat (y :: u64) < 2 ^ 63 \<Longrightarrow> y \<noteq> RUNTIME_INF"
  using unat_RUNTIME_INF by auto

lemma pool_two:
  assumes "x \<in> active qs f" "q \<in> active qs f" "x \<noteq> q"
  shows "(\<Sum>y\<in>active qs f. unat (g y)) = unat (g x) + unat (g q) + (\<Sum>y\<in>active qs f - {x} - {q}. unat (g y))"
  using assms by (simp add: sum.remove [of _ x] sum.remove [of _ q])

lemma unat_of_sum:
  fixes a b :: u64
  assumes "0 \<le> int (unat a) + k" "int (unat a) + k < 2 ^ 63" "b = a + word_of_int k"
  shows "int (unat b) = int (unat a) + k"
proof -
  have u: "uint (word_of_int i :: u64) = i" if "0 \<le> i" "i < 2 ^ 63" for i
    using that by (subst uint_word_of_int_eq) (simp add: take_bit_int_eq_self)
  have "b = word_of_int (uint a + k)" using assms(3) by simp
  moreover have "0 \<le> uint a + k" "uint a + k < 2 ^ 63" using assms(1,2) by simp_all
  ultimately have "uint b = uint a + k" using u by metis
  then show ?thesis by simp
qed

text \<open>One transfer, of a positive or a negative amount, from \<open>x\<close> to \<open>q\<close>.\<close>

lemma pool_transfer:
  assumes "x \<in> active qs f" "q \<in> active qs f" "x \<noteq> q" "pool qs f < 2 ^ 63"
    "k \<le> int (unat (f x))" "- int (unat (f q)) \<le> k" "d = word_of_int k"
  defines "f' \<equiv> f(x := f x - d, q := f q + d)"
  shows "active qs f' = active qs f" "pool qs f' = pool qs f"
    "int (unat (f' x)) = int (unat (f x)) - k" "int (unat (f' q)) = int (unat (f q)) + k"
proof -
  have two: "unat (f x) + unat (f q) \<le> pool qs f"
    using pool_two [OF assms(1-3), of f] by (simp add: pool_def)
  have "unat (f x) + unat (f q) < 2 ^ 63" using two assms(4) by linarith
  then have "int (unat (f x) + unat (f q)) < int (2 ^ 63)" by (simp only: of_nat_less_iff)
  then have P: "int (unat (f x)) + int (unat (f q)) < 2 ^ 63" by simp
  have px: "f' x = f x + word_of_int (- k)" and pq: "f' q = f q + word_of_int k"
    using assms(3,7) by (simp_all add: f'_def)
  show fx: "int (unat (f' x)) = int (unat (f x)) - k"
  proof -
    have "0 \<le> int (unat (f x)) + - k" "int (unat (f x)) + - k < 2 ^ 63" using P assms(5,6) by linarith+
    from unat_of_sum [OF this px] show ?thesis by linarith
  qed
  show fq: "int (unat (f' q)) = int (unat (f q)) + k"
  proof -
    have "0 \<le> int (unat (f q)) + k" "int (unat (f q)) + k < 2 ^ 63" using P assms(5,6) by linarith+
    from unat_of_sum [OF this pq] show ?thesis .
  qed
  have "unat (f' x) < 2 ^ 63" "unat (f' q) < 2 ^ 63" using fx fq two assms(4-6) by linarith+
  then have inf': "f' x \<noteq> RUNTIME_INF" "f' q \<noteq> RUNTIME_INF" using small_not_INF by blast+
  show act: "active qs f' = active qs f"
    using assms(1,2) inf' by (auto simp: active_def) (auto simp: f'_def split: if_splits)
  have "(\<Sum>y\<in>active qs f - {x} - {q}. unat (f' y)) = (\<Sum>y\<in>active qs f - {x} - {q}. unat (f y))"
    by (intro sum.cong) (auto simp: f'_def)
  moreover have "unat (f' x) + unat (f' q) = unat (f x) + unat (f q)" using fx fq by linarith
  ultimately show "pool qs f' = pool qs f"
    using pool_two [OF assms(1-3), of f] pool_two [OF assms(1-3), of f'] by (simp add: pool_def act)
qed

text \<open>The borrower's share of the spare time of one lender, as a signed number.\<close>

lemma share_amount:
  fixes fx fq T period :: u64 and wt :: nat
  assumes "unat T < 2 ^ 63" "unat fx + unat fq < 2 ^ 63" "unat period < 2 ^ 63" "0 < sint (fx - T)"
  defines "d \<equiv> (fx - T) div word_of_nat wt"
  defines "e \<equiv> if fq + d > period then period - fq else d"
  obtains k where "e = word_of_int k" "k \<le> int (unat fx) - int (unat T)" "- int (unat fq) \<le> k"
    "unat fq \<le> unat period \<longrightarrow> 0 \<le> k \<and> int (unat fq) + k \<le> int (unat period)"
proof -
  have fx: "unat fx < 2 ^ 63" using assms(2) by linarith
  have T: "unat T < unat fx" using sint_diff_small [OF fx assms(1)] assms(4) by linarith
  then have "unat (fx - T) = unat fx - unat T" by (simp add: unat_sub word_le_nat_alt)
  then have d: "unat d \<le> unat fx - unat T" by (simp add: d_def unat_div)
  then have sum: "unat (fq + d) = unat fq + unat d"
    using assms(2) by (simp add: unat_word_ariths)
  show thesis
  proof (cases "fq + d > period")
    case True
    then have "unat period < unat fq + unat d" using sum by (simp add: word_less_nat_alt)
    moreover have "e = word_of_int (int (unat period) - int (unat fq))" using True by (simp add: e_def)
    ultimately show thesis
      by (intro that [of "int (unat period) - int (unat fq)"]) (use d T in linarith)+
  next
    case False
    then have "unat fq + unat d \<le> unat period" using sum by (simp add: word_less_nat_alt)
    moreover have "e = word_of_int (int (unat d))" using False by (simp add: e_def)
    ultimately show thesis by (intro that [of "int (unat d)"]) (use d T in linarith)+
  qed
qed

lemma share_keeps:
  assumes "share q period wt T xs got f = (g, f')" "pool qs f < 2 ^ 63" "q \<in> active qs f"
    "set xs \<subseteq> set qs" "unat period < 2 ^ 63" "\<forall>x\<in>set qs. unat (T x) < 2 ^ 63"
  shows "active qs f' = active qs f \<and> pool qs f' = pool qs f \<and>
    (f q \<le> period \<longrightarrow> f q \<le> f' q \<and> f' q \<le> period) \<and> (\<forall>x\<in>set qs. x \<noteq> q \<and> T x \<le> f x \<longrightarrow> T x \<le> f' x)"
  using assms
proof (induction xs arbitrary: got f)
  case Nil
  then show ?case by simp
next
  case (Cons x xs)
  show ?case
  proof (cases "x = q \<or> f x = RUNTIME_INF \<or> sint (f x - T x) \<le> 0")
    case True
    then show ?thesis using Cons by (auto simp: Let_def)
  next
    case False
    define e where "e = (if f q + (f x - T x) div word_of_nat wt > period then period - f q
                         else (f x - T x) div word_of_nat wt)"
    define h where "h = f(x := f x - e, q := f q + e)"
    have act: "x \<in> active qs f" "q \<in> active qs f" "x \<noteq> q" using False Cons.prems(3,4) by (auto simp: active_def)
    have two: "unat (f x) + unat (f q) < 2 ^ 63"
      using pool_two [OF act, of f] Cons.prems(2) by (simp add: pool_def)
    have T: "unat (T x) < 2 ^ 63" using Cons.prems(4,6) by simp
    have pos: "0 < sint (f x - T x)" using False by simp
    obtain k where k: "e = word_of_int k" "k \<le> int (unat (f x)) - int (unat (T x))" "- int (unat (f q)) \<le> k"
      "unat (f q) \<le> unat period \<longrightarrow> 0 \<le> k \<and> int (unat (f q)) + k \<le> int (unat period)"
      using share_amount [OF T two Cons.prems(5) pos, of wt] unfolding e_def by blast
    have kx: "k \<le> int (unat (f x))" using k(2) by linarith
    note tr = pool_transfer [OF act Cons.prems(2) kx k(3,1), folded h_def]
    have keep: "T y \<le> h y" if "y \<noteq> q" "T y \<le> f y" for y
    proof (cases "y = x")
      case True
      have "int (unat (T x)) \<le> int (unat (h x))" using tr(3) k(2) by linarith
      then show ?thesis using True by (simp only: of_nat_le_iff word_le_nat_alt)
    qed (use that in \<open>simp add: h_def\<close>)
    have up: "f q \<le> period \<longrightarrow> f q \<le> h q \<and> h q \<le> period"
    proof
      assume "f q \<le> period"
      then have "unat (f q) \<le> unat period" by (simp only: word_le_nat_alt)
      then have "int (unat (f q)) \<le> int (unat (h q))" "int (unat (h q)) \<le> int (unat period)"
        using tr(4) k(4) by linarith+
      then show "f q \<le> h q \<and> h q \<le> period" by (simp only: of_nat_le_iff word_le_nat_alt)
    qed
    have step: "share q period wt T (x # xs) got f = (if h q = period then (1, h) else share q period wt T xs 1 h)"
      using False by (auto simp: Let_def h_def e_def)
    show ?thesis
    proof (cases "h q = period")
      case True
      then have "f' = h" using Cons.prems(1) step by simp
      then show ?thesis using tr(1,2) keep up by simp
    next
      case False
      have hq: "q \<in> active qs h" and sub: "set xs \<subseteq> set qs" and ph: "pool qs h < 2 ^ 63"
        using act(2) tr(1,2) Cons.prems(2,4) by simp_all
      have "share q period wt T xs 1 h = (g, f')" using Cons.prems(1) step False by simp
      from Cons.IH [OF this ph hq sub Cons.prems(5,6)] show ?thesis
        using tr(1,2) keep up by (auto intro: order_trans)
    qed
  qed
qed

section \<open>Reclaiming on runtimes alone\<close>

fun reclaim :: "rq_ref \<Rightarrow> rq_ref list \<Rightarrow> u64 \<Rightarrow> (rq_ref \<Rightarrow> u64) \<Rightarrow> u64 \<times> (rq_ref \<Rightarrow> u64)" where
  "reclaim q [] want f = (want, f)"
| "reclaim q (x # xs) want f =
     (if x = q \<or> f x = RUNTIME_INF then reclaim q xs want f
      else
        let d = (if sint want > 0 \<and> sint (f x) < sint want then f x else want);
            f = f(x := f x - d)
        in if want - d = 0 then (0, f) else reclaim q xs (want - d) f)"

lemma reclaim_loop_reclaim:
  "map (tg_rt_rq (task_groups s tg)) cs = map Some xs \<Longrightarrow>
   reclaim_loop q tg cs want (with_runtime f s) =
     Some (case reclaim q xs want f of (w, f') \<Rightarrow> (w, with_runtime f' s))"
proof (induction cs arbitrary: xs want f)
  case Nil
  then show ?case by simp
next
  case (Cons c cs)
  then obtain x ys where xs: "xs = x # ys" "tg_rt_rq (task_groups s tg) c = Some x"
    "map (tg_rt_rq (task_groups s tg)) cs = map Some ys" by (cases xs) auto
  define d where "d = (if sint want > 0 \<and> sint (f x) < sint want then f x else want)"
  define h where "h = f(x := f x - d)"
  have "reclaim_loop q tg (c # cs) want (with_runtime f s) =
      (if x = q \<or> f x = RUNTIME_INF then reclaim_loop q tg cs want (with_runtime f s)
       else if want - d = 0 then Some (0, with_runtime h s) else reclaim_loop q tg cs (want - d) (with_runtime h s))"
    using xs(2) by (simp add: sched_rt_period_rt_rq_def Let_def d_def h_def)
  moreover have "reclaim q xs want f =
      (if x = q \<or> f x = RUNTIME_INF then reclaim q ys want f
       else if want - d = 0 then (0, h) else reclaim q ys (want - d) h)"
    unfolding xs(1) by (simp add: Let_def d_def h_def)
  ultimately show ?case
    using Cons.IH [OF xs(3)] by (simp del: reclaim_loop.simps)
qed

definition others :: "rq_ref \<Rightarrow> rq_ref list \<Rightarrow> (rq_ref \<Rightarrow> u64) \<Rightarrow> rq_ref set" where
  "others q xs f = {x \<in> set xs. x \<noteq> q \<and> f x \<noteq> RUNTIME_INF}"

text \<open>
  Reclaiming finds all that is wanted when the others hold it, and finds someone to give an
  excess to when there is another one; the others' total changes by exactly the amount wanted.
\<close>

lemma sint_of_word_of_int: "- (2 ^ 63) \<le> i \<Longrightarrow> i < 2 ^ 63 \<Longrightarrow> sint (word_of_int i :: u64) = i"
  by (subst sint_sbintrunc') (simp add: signed_take_bit_int_eq_self)

lemma others_insert:
  "x \<noteq> q \<Longrightarrow> g x \<noteq> RUNTIME_INF \<Longrightarrow> others q (x # xs) g = insert x (others q xs g)"
  by (auto simp: others_def)

lemma sum_others_Cons:
  assumes "distinct (x # xs)" "x \<noteq> q" "f x \<noteq> RUNTIME_INF" "g x \<noteq> RUNTIME_INF" "\<forall>y. y \<noteq> x \<longrightarrow> g y = f y"
  shows "(\<Sum>y\<in>others q (x # xs) g. unat (g y)) = unat (g x) + (\<Sum>y\<in>others q xs f. unat (f y))"
proof -
  have "others q (x # xs) g = insert x (others q xs f)" "x \<notin> others q xs f"
    using assms by (auto simp: others_def)
  moreover have "(\<Sum>y\<in>others q xs f. unat (g y)) = (\<Sum>y\<in>others q xs f. unat (f y))"
    using assms(1,5) by (intro sum.cong) (auto simp: others_def)
  moreover have "finite (others q xs f)" by (simp add: others_def)
  ultimately show ?thesis by simp
qed

lemma reclaim_total:
  assumes "distinct xs" "want \<noteq> 0" "\<forall>x\<in>others q xs f. unat (f x) < 2 ^ 63"
    "sint want < 0 \<Longrightarrow> others q xs f \<noteq> {}"
    "sint want \<le> int (\<Sum>x\<in>others q xs f. unat (f x))"
    "int (\<Sum>x\<in>others q xs f. unat (f x)) - sint want < 2 ^ 63"
  shows "\<exists>f'. reclaim q xs want f = (0, f') \<and> others q xs f' = others q xs f \<and>
    (\<forall>y. y \<notin> others q xs f \<longrightarrow> f' y = f y) \<and>
    int (\<Sum>x\<in>others q xs f. unat (f' x)) = int (\<Sum>x\<in>others q xs f. unat (f x)) - sint want"
  using assms
proof (induction xs arbitrary: want f)
  case Nil
  have "want = word_of_int (sint want)" by simp
  then have "sint want \<noteq> 0" using Nil(2) by (metis of_int_0)
  with Nil show ?case by (simp add: others_def)
next
  case (Cons x xs)
  show ?case
  proof (cases "x = q \<or> f x = RUNTIME_INF")
    case True
    then have "others q (x # xs) g = others q xs g" if "g x = f x" for g
      using that by (auto simp: others_def)
    note eq = this [of f, simplified]
    have "x \<notin> others q xs f" using Cons.prems(1) by (simp add: others_def)
    moreover obtain f' where "reclaim q xs want f = (0, f')" "others q xs f' = others q xs f"
      "\<forall>y. y \<notin> others q xs f \<longrightarrow> f' y = f y"
      "int (\<Sum>x\<in>others q xs f. unat (f' x)) = int (\<Sum>x\<in>others q xs f. unat (f x)) - sint want"
      using Cons.IH [of want f] Cons.prems eq by auto
    ultimately show ?thesis using True eq \<open>\<And>g. g x = f x \<Longrightarrow> others q (x # xs) g = others q xs g\<close>
      by (intro exI [of _ f']) auto
  next
    case False
    note small = Cons.prems(3)
    have fx: "unat (f x) < 2 ^ 63" "x \<in> others q (x # xs) f" using False small by (auto simp: others_def)
    let ?S = "\<Sum>y\<in>others q xs f. unat (f y)"
    have S: "(\<Sum>y\<in>others q (x # xs) g. unat (g y)) = unat (g x) + ?S"
      if "g x \<noteq> RUNTIME_INF" "\<forall>y. y \<noteq> x \<longrightarrow> g y = f y" for g
      using sum_others_Cons [OF Cons.prems(1) _ _ that] False by blast
    have oth: "others q (x # xs) g = others q (x # xs) f"
      if "g x \<noteq> RUNTIME_INF" "\<forall>y. y \<noteq> x \<longrightarrow> g y = f y" for g
      using that False by (auto simp: others_def)
    show ?thesis
    proof (cases "0 < sint want \<and> sint (f x) < sint want")
      case True
      define h where "h = f(x := 0)"
      have fxs: "sint (f x) = int (unat (f x))" using sint_diff_small [OF fx(1), of 0] by simp
      have lt: "sint want < 2 ^ 63" and gt: "0 < sint want" using True sint_lt [of want] by simp_all
      have "- (2 ^ 63 :: int) \<le> 0" by simp
      then have r: "- (2 ^ 63) \<le> sint want - int (unat (f x))" "sint want - int (unat (f x)) < 2 ^ 63"
        using conjunct2 [OF True] fxs lt gt by linarith+
      have "want - f x = word_of_int (sint want - int (unat (f x)))" by simp
      then have w: "sint (want - f x) = sint want - int (unat (f x))"
        using sint_of_word_of_int [OF r] by (simp only:)
      have sub: "others q xs h = others q xs f" using Cons.prems(1) by (auto simp: others_def h_def)
      have sums: "(\<Sum>y\<in>others q xs f. unat (h y)) = ?S"
        using Cons.prems(1) by (intro sum.cong) (auto simp: others_def h_def)
      have tot: "(\<Sum>y\<in>others q (x # xs) f. unat (f y)) = unat (f x) + ?S"
        using S [of f] False by simp
      have "\<exists>f'. reclaim q xs (want - f x) h = (0, f') \<and> others q xs f' = others q xs h \<and>
          (\<forall>y. y \<notin> others q xs h \<longrightarrow> f' y = h y) \<and>
          int (\<Sum>x\<in>others q xs h. unat (f' x)) = int (\<Sum>x\<in>others q xs h. unat (h x)) - sint (want - f x)"
      proof (rule Cons.IH)
        show "distinct xs" using Cons.prems(1) by simp
        show "want - f x \<noteq> 0" using True by auto
        show "\<forall>x\<in>others q xs h. unat (h x) < 2 ^ 63"
          using small sub Cons.prems(1) by (auto simp: others_def h_def)
        show "sint (want - f x) < 0 \<Longrightarrow> others q xs h \<noteq> {}" using w True fxs by linarith
        show "sint (want - f x) \<le> int (\<Sum>x\<in>others q xs h. unat (h x))"
          "int (\<Sum>x\<in>others q xs h. unat (h x)) - sint (want - f x) < 2 ^ 63"
          using w tot sums sub Cons.prems(5,6) by simp_all
      qed
      then obtain f' where f': "reclaim q xs (want - f x) h = (0, f')" "others q xs f' = others q xs f"
        "\<forall>y. y \<notin> others q xs f \<longrightarrow> f' y = h y"
        "int (\<Sum>x\<in>others q xs f. unat (f' x)) = int ?S - sint (want - f x)" using sub sums by auto
      have nx: "x \<notin> others q xs f" using Cons.prems(1) by (simp add: others_def)
      then have hx: "f' x = 0" using f'(3) by (simp add: h_def)
      have oth': "others q (x # xs) f' = others q (x # xs) f"
        using others_insert [of x q f'] others_insert [of x q f] hx f'(2) small_not_INF [of 0]
          \<open>\<not> (x = q \<or> f x = RUNTIME_INF)\<close> by simp
      have fin: "finite (others q xs f)" by (simp add: others_def)
      have "others q (x # xs) f = insert x (others q xs f)"
        using others_insert [of x q f] \<open>\<not> (x = q \<or> f x = RUNTIME_INF)\<close> by blast
      then have "(\<Sum>y\<in>others q (x # xs) f. unat (f' y)) = (\<Sum>y\<in>others q xs f. unat (f' y))"
        using nx hx fin by simp
      moreover have "reclaim q (x # xs) want f = (0, f')"
        using True \<open>\<not> (x = q \<or> f x = RUNTIME_INF)\<close> f'(1) by (auto simp: Let_def h_def)
      moreover have "f' y = f y" if "y \<notin> others q (x # xs) f" for y
        using that f'(3) fx(2) by (auto simp: others_def h_def)
      ultimately show ?thesis using oth' f'(4) w tot by (intro exI [of _ f']) simp
    next
      case False
      define h where "h = f(x := f x - want)"
      have fxs: "sint (f x) = int (unat (f x))" using sint_diff_small [OF fx(1), of 0] by simp
      have tot: "(\<Sum>y\<in>others q (x # xs) f. unat (f y)) = unat (f x) + ?S"
        using S [of f] \<open>\<not> (x = q \<or> f x = RUNTIME_INF)\<close> by simp
      have eq: "h x = f x + word_of_int (- sint want)" by (simp add: h_def)
      have lo: "0 \<le> int (unat (f x)) + - sint want" using False fxs by linarith
      have hi: "int (unat (f x)) + - sint want < 2 ^ 63" using tot Cons.prems(6) by linarith
      have e: "int (unat (h x)) = int (unat (f x)) + - sint want" by (rule unat_of_sum [OF lo hi eq])
      then have hx: "int (unat (h x)) = int (unat (f x)) - sint want" by linarith
      have "int (unat (h x)) < int (2 ^ 63)" using e hi by simp
      then have "unat (h x) < 2 ^ 63" by (simp only: of_nat_less_iff)
      then have ninf: "h x \<noteq> RUNTIME_INF" by (rule small_not_INF)
      have "reclaim q (x # xs) want f = (0, h)"
        using False \<open>\<not> (x = q \<or> f x = RUNTIME_INF)\<close> by (auto simp: Let_def h_def)
      moreover have "others q (x # xs) h = others q (x # xs) f"
        "(\<Sum>y\<in>others q (x # xs) h. unat (h y)) = unat (h x) + ?S"
        using oth [of h, OF ninf] S [of h, OF ninf] by (simp_all add: h_def)
      moreover have "\<forall>y. y \<notin> others q (x # xs) f \<longrightarrow> h y = f y" using fx(2) by (auto simp: h_def)
      ultimately show ?thesis using hx tot by (intro exI [of _ h]) simp
    qed
  qed
qed

section \<open>The operations\<close>

text \<open>
  \<open>rt_group s tg span qs\<close>: \<open>qs\<close> are the group's run-queues on the CPUs of \<open>span\<close>, each knows its
  group, and its CPU's root domain spans \<open>span\<close>.
\<close>

definition rt_group :: "kst \<Rightarrow> tgid \<Rightarrow> cpu list \<Rightarrow> rq_ref list \<Rightarrow> bool" where
  "rt_group s tg span qs \<longleftrightarrow>
     distinct qs \<and> map (tg_rt_rq (task_groups s tg)) span = map Some qs \<and>
     (\<forall>q\<in>set qs. rt_tg (rt_rqs s q) = Some tg \<and>
        (\<exists>c. rt_rq_rq (rt_rqs s q) = Some c \<and> mask_cpus s (rd_span (root_domains s (rd (rqs s c)))) = span))"

abbreviation runtimes :: "kst \<Rightarrow> rq_ref \<Rightarrow> u64" where
  "runtimes s \<equiv> (\<lambda>q. rt_runtime (rt_rqs s q))"

lemma rt_group_with_runtime: "rt_group (with_runtime f s) tg span qs = rt_group s tg span qs"
  by (simp add: rt_group_def mask_cpus_def)

lemma upd_runtime: "upd_rt_rq q (\<lambda>r. r\<lparr>rt_runtime := x\<rparr>) s = with_runtime ((runtimes s)(q := x)) s"
  using with_runtime_simps(9) [where q = q and x = x and f = "runtimes s" and s = s] by (simp only: with_runtime_id)

text \<open>What the CPUs that take part should hold together: the group's runtime each.\<close>

definition balanced :: "kst \<Rightarrow> tgid \<Rightarrow> rq_ref list \<Rightarrow> bool" where
  "balanced s tg qs \<longleftrightarrow>
     pool qs (runtimes s) = card (active qs (runtimes s)) * unat (tg_rt_runtime (task_groups s tg))"

definition rt_small :: "kst \<Rightarrow> tgid \<Rightarrow> rq_ref list \<Rightarrow> bool" where
  "rt_small s tg qs \<longleftrightarrow>
     unat (tg_rt_period (task_groups s tg)) < 2 ^ 63 \<and> (\<forall>x\<in>set qs. unat (rt_time (rt_rqs s x)) < 2 ^ 63) \<and>
     length qs * unat (tg_rt_runtime (task_groups s tg)) < 2 ^ 63"

lemma balanced_pool_small: "balanced s tg qs \<Longrightarrow> rt_small s tg qs \<Longrightarrow> pool qs (runtimes s) < 2 ^ 63"
proof -
  assume b: "balanced s tg qs" "rt_small s tg qs"
  have "card (active qs (runtimes s)) \<le> card (set qs)" by (intro card_mono) (auto simp: active_def)
  also have "\<dots> \<le> length qs" by (rule card_length)
  finally have "pool qs (runtimes s) \<le> length qs * unat (tg_rt_runtime (task_groups s tg))"
    using b(1) by (simp add: balanced_def mult_le_mono1)
  also have "\<dots> < 2 ^ 63" using b(2) by (simp add: rt_small_def)
  finally show ?thesis .
qed

lemma do_balance_runtime_share:
  assumes "rt_group s tg span qs" "q \<in> set qs"
  shows "do_balance_runtime q s =
    Some (case share q (tg_rt_period (task_groups s tg)) (length span) (\<lambda>x. rt_time (rt_rqs s x)) qs 0 (runtimes s)
          of (g, f') \<Rightarrow> (g, with_runtime f' s))"
proof -
  obtain c where c: "rt_rq_rq (rt_rqs s q) = Some c" "rt_tg (rt_rqs s q) = Some tg"
    "mask_cpus s (rd_span (root_domains s (rd (rqs s c)))) = span"
    using assms by (auto simp: rt_group_def)
  have map: "map (tg_rt_rq (task_groups s tg)) span = map Some qs" using assms(1) by (simp add: rt_group_def)
  then have "length span \<noteq> 0" using assms(2) by (metis length_0_conv length_map empty_iff list.set(1))
  from balance_loop_share [OF this map, of q "tg_rt_period (task_groups s tg)" 0 "runtimes s"]
  show ?thesis using c by (simp add: do_balance_runtime_def sched_rt_bandwidth_def rq_of_rt_rq_def with_runtime_id)
qed

lemma do_balance_keeps:
  assumes "rt_group s tg span qs" "balanced s tg qs" "rt_small s tg qs"
    "q \<in> set qs" "rt_runtime (rt_rqs s q) \<noteq> RUNTIME_INF"
  shows "\<exists>got s'. do_balance_runtime q s = Some (got, s') \<and>
    s' = with_runtime (runtimes s') s \<and> balanced s' tg qs \<and>
    active qs (runtimes s') = active qs (runtimes s) \<and>
    (rt_runtime (rt_rqs s q) \<le> tg_rt_period (task_groups s tg) \<longrightarrow>
       rt_runtime (rt_rqs s q) \<le> rt_runtime (rt_rqs s' q) \<and>
       rt_runtime (rt_rqs s' q) \<le> tg_rt_period (task_groups s tg)) \<and>
    (\<forall>x\<in>set qs. x \<noteq> q \<and> rt_time (rt_rqs s x) \<le> rt_runtime (rt_rqs s x) \<longrightarrow>
       rt_time (rt_rqs s x) \<le> rt_runtime (rt_rqs s' x))"
proof -
  obtain g f' where gf: "share q (tg_rt_period (task_groups s tg)) (length span) (\<lambda>x. rt_time (rt_rqs s x)) qs 0
      (runtimes s) = (g, f')" by fastforce
  have q: "q \<in> active qs (runtimes s)" using assms(4,5) by (simp add: active_def)
  note keeps = share_keeps [OF gf balanced_pool_small [OF assms(2,3)] q subset_refl]
  have "do_balance_runtime q s = Some (g, with_runtime f' s)"
    using do_balance_runtime_share [OF assms(1,4)] gf by simp
  then show ?thesis
    using keeps assms(2,3) by (intro exI [of _ g] exI [of _ "with_runtime f' s"])
      (simp add: rt_small_def balanced_def)
qed

lemma others_eq: "others q qs f = active qs f - {q}"
  by (auto simp: others_def active_def)

text \<open>What the CPUs other than \<open>q\<close> hold, and the pool.\<close>

lemma pool_others:
  assumes "q \<in> active qs f"
  shows "pool qs f = unat (f q) + (\<Sum>x\<in>others q qs f. unat (f x))" "active qs f = insert q (others q qs f)"
    "card (active qs f) = Suc (card (others q qs f))"
proof -
  show i: "active qs f = insert q (others q qs f)" using assms by (auto simp: active_def others_def)
  have "q \<notin> others q qs f" "finite (others q qs f)" by (simp_all add: others_def)
  then show "pool qs f = unat (f q) + (\<Sum>x\<in>others q qs f. unat (f x))"
    "card (active qs f) = Suc (card (others q qs f))"
    by (simp_all add: pool_def i)
qed

lemma pool_disabled:
  assumes "q \<in> set qs"
  shows "active qs (f(q := RUNTIME_INF)) = others q qs f"
    "pool qs (f(q := RUNTIME_INF)) = (\<Sum>x\<in>others q qs f. unat (f x))"
proof -
  show i: "active qs (f(q := RUNTIME_INF)) = others q qs f" by (auto simp: active_def others_def)
  show "pool qs (f(q := RUNTIME_INF)) = (\<Sum>x\<in>others q qs f. unat (f x))"
    unfolding pool_def i by (intro sum.cong) (auto simp: others_def)
qed

lemma disable_keeps:
  assumes "rt_group s tg span qs" "balanced s tg qs" "rt_small s tg qs" "q \<in> set qs"
    "rt_rq_rq (rt_rqs s q) = Some c"
  shows "\<exists>s'. disable_rt_rq c q s = Some s' \<and> s' = with_runtime (runtimes s') s \<and>
    rt_runtime (rt_rqs s' q) = RUNTIME_INF \<and> balanced s' tg qs \<and>
    active qs (runtimes s') = active qs (runtimes s) - {q}"
proof -
  let ?f = "runtimes s" and ?B = "tg_rt_runtime (task_groups s tg)"
  have g: "rt_tg (rt_rqs s q) = Some tg" "mask_cpus s (rd_span (root_domains s (rd (rqs s c)))) = span"
    "distinct qs" "map (tg_rt_rq (task_groups s tg)) span = map Some qs"
    using assms(1,4,5) by (auto simp: rt_group_def)
  have fin: "\<exists>s'. disable_rt_rq c q s = Some s' \<and> s' = with_runtime (runtimes s') s \<and>
      rt_runtime (rt_rqs s' q) = RUNTIME_INF \<and> balanced s' tg qs \<and>
      active qs (runtimes s') = active qs ?f - {q}"
    if "disable_rt_rq c q s = Some (with_runtime (f'(q := RUNTIME_INF)) s)"
      "(\<Sum>x\<in>others q qs f'. unat (f' x)) = card (others q qs f') * unat ?B" "others q qs f' = others q qs ?f" for f'
  proof -
    let ?s = "with_runtime (f'(q := RUNTIME_INF)) s"
    note dis = pool_disabled [OF assms(4), of f']
    have rt: "runtimes ?s = f'(q := RUNTIME_INF)" by (simp only: with_runtime_simps)
    have "balanced ?s tg qs" using that(2) by (simp only: balanced_def rt dis with_runtime_simps)
    moreover have "active qs (runtimes ?s) = active qs ?f - {q}"
      unfolding rt dis that(3) by (rule others_eq)
    moreover have "?s = with_runtime (runtimes ?s) s" "rt_runtime (rt_rqs ?s q) = RUNTIME_INF"
      by (simp_all only: rt with_runtime_simps fun_upd_same)
    ultimately show ?thesis using that(1) by blast
  qed
  have small: "pool qs ?f < 2 ^ 63" by (rule balanced_pool_small [OF assms(2,3)])
  consider "?f q = RUNTIME_INF" | "?f q \<noteq> RUNTIME_INF" "?f q = ?B" | "?f q \<noteq> RUNTIME_INF" "?f q \<noteq> ?B" by blast
  then show ?thesis
  proof cases
    case 1
    then have "active qs ?f = others q qs ?f" by (auto simp: active_def others_def)
    then have "(\<Sum>x\<in>others q qs ?f. unat (?f x)) = card (others q qs ?f) * unat ?B"
      using assms(2) by (simp add: balanced_def pool_def)
    then show ?thesis using 1 g(1)
      by (intro fin [of ?f]) (simp_all add: disable_rt_rq_def sched_rt_bandwidth_def Let_def upd_runtime)
  next
    case 2
    then have "q \<in> active qs ?f" using assms(4) by (simp add: active_def)
    from pool_others [OF this] have "(\<Sum>x\<in>others q qs ?f. unat (?f x)) = card (others q qs ?f) * unat ?B"
      using assms(2) 2 by (simp add: balanced_def)
    then show ?thesis using 2 g(1)
      by (intro fin [of ?f]) (simp_all add: disable_rt_rq_def sched_rt_bandwidth_def Let_def upd_runtime)
  next
    case 3
    let ?want = "?B - ?f q"
    have act: "q \<in> active qs ?f" using 3 assms(4) by (simp add: active_def)
    note po = pool_others [OF act]
    have total: "unat (?f q) + (\<Sum>x\<in>others q qs ?f. unat (?f x)) = card (others q qs ?f) * unat ?B + unat ?B"
      using assms(2) po(1,3) by (simp add: balanced_def)
    have k: "card (others q qs ?f) * unat ?B + unat ?B < 2 ^ 63" using total po(1) small by linarith
    have fq: "unat (?f q) < 2 ^ 63" using active_le_pool [OF act] small by linarith
    have B: "unat ?B < 2 ^ 63" using k by linarith
    have w: "sint ?want = int (unat ?B) - int (unat (?f q))" by (rule sint_diff_small [OF B fq])
    have tot: "int (\<Sum>x\<in>others q qs ?f. unat (?f x)) - sint ?want = int (card (others q qs ?f) * unat ?B)"
      using total w by linarith
    have ne: "others q qs ?f \<noteq> {}"
    proof
      assume "others q qs ?f = {}"
      with total have "unat (?f q) = unat ?B" by simp
      then show False using 3(2) by (simp only: word_unat_eq_iff)
    qed
    have "\<exists>f'. reclaim q qs ?want ?f = (0, f') \<and> others q qs f' = others q qs ?f \<and>
        (\<forall>y. y \<notin> others q qs ?f \<longrightarrow> f' y = ?f y) \<and>
        int (\<Sum>x\<in>others q qs ?f. unat (f' x)) = int (\<Sum>x\<in>others q qs ?f. unat (?f x)) - sint ?want"
    proof (rule reclaim_total [OF g(3)])
      show "?want \<noteq> 0" using 3(2) by simp
      show "\<forall>x\<in>others q qs ?f. unat (?f x) < 2 ^ 63"
        using active_le_pool [of _ qs ?f] small po(2) by fastforce
      show "sint ?want \<le> int (\<Sum>x\<in>others q qs ?f. unat (?f x))" using tot by linarith
      have "card (others q qs ?f) * unat ?B < 2 ^ 63" using k by linarith
      then have "int (card (others q qs ?f) * unat ?B) < int (2 ^ 63)" by (simp only: of_nat_less_iff)
      then show "int (\<Sum>x\<in>others q qs ?f. unat (?f x)) - sint ?want < 2 ^ 63" unfolding tot by simp
    qed (use ne in blast)
    then obtain f' where f': "reclaim q qs ?want ?f = (0, f')" "others q qs f' = others q qs ?f"
      "int (\<Sum>x\<in>others q qs ?f. unat (f' x)) = int (\<Sum>x\<in>others q qs ?f. unat (?f x)) - sint ?want" by blast
    have "reclaim_loop q tg span ?want s = Some (0, with_runtime f' s)"
      using reclaim_loop_reclaim [OF g(4), of q ?want ?f] f'(1) by (simp add: with_runtime_id)
    then have "disable_rt_rq c q s = Some (with_runtime (f'(q := RUNTIME_INF)) s)"
      using 3 g(1,2) by (simp add: disable_rt_rq_def sched_rt_bandwidth_def Let_def)
    moreover have "(\<Sum>x\<in>others q qs f'. unat (f' x)) = card (others q qs f') * unat ?B"
      using f'(2,3) tot by (simp only: of_nat_eq_iff)
    ultimately show ?thesis using f'(2) by (rule fin)
  qed
qed

section \<open>Runs\<close>

text \<open>
  What happens to a group's run-queues: one borrows, a CPU is taken down or brought up again, and
  the consumed time moves (execution adds to it, the period timer takes from it).
\<close>

datatype bw_event = Borrow rq_ref | Take_down rq_ref | Bring_up rq_ref | Consume rq_ref u64

fun bw_exec :: "bw_event \<Rightarrow> kst \<Rightarrow> kst option" where
  "bw_exec (Borrow q) s = map_option snd (do_balance_runtime q s)"
| "bw_exec (Take_down q) s = Option.bind (rq_of_rt_rq s q) (\<lambda>c. disable_rt_rq c q s)"
| "bw_exec (Bring_up q) s = enable_loop [q] s"
| "bw_exec (Consume q t) s = Some (upd_rt_rq q (\<lambda>r. r\<lparr>rt_time := t\<rparr>) s)"

fun bw_enabled :: "rq_ref list \<Rightarrow> bw_event \<Rightarrow> kst \<Rightarrow> bool" where
  "bw_enabled qs (Borrow q) s \<longleftrightarrow> q \<in> set qs \<and> rt_runtime (rt_rqs s q) \<noteq> RUNTIME_INF"
| "bw_enabled qs (Take_down q) s \<longleftrightarrow> q \<in> set qs"
| "bw_enabled qs (Bring_up q) s \<longleftrightarrow> q \<in> set qs \<and> rt_runtime (rt_rqs s q) = RUNTIME_INF"
| "bw_enabled qs (Consume q t) s \<longleftrightarrow> q \<in> set qs \<and> unat t < 2 ^ 63"

definition bw_inv :: "tgid \<Rightarrow> cpu list \<Rightarrow> rq_ref list \<Rightarrow> kst \<Rightarrow> bool" where
  "bw_inv tg span qs s \<longleftrightarrow> rt_group s tg span qs \<and> balanced s tg qs \<and> rt_small s tg qs"

lemma rt_small_with_runtime [simp]: "rt_small (with_runtime f s) tg qs = rt_small s tg qs"
  by (simp add: rt_small_def)

text \<open>Operations that only touch runtimes and balance again keep the invariant.\<close>

lemma bw_inv_runtimes:
  "bw_inv tg span qs s \<Longrightarrow> s' = with_runtime f s \<Longrightarrow> balanced s' tg qs \<Longrightarrow> bw_inv tg span qs s'"
  by (simp add: bw_inv_def rt_group_with_runtime)

lemma balanced_bring_up:
  assumes "balanced s tg qs" "rt_small s tg qs" "q \<in> set qs" "rt_runtime (rt_rqs s q) = RUNTIME_INF"
    "f = (runtimes s)(q := tg_rt_runtime (task_groups s tg))"
  shows "balanced (with_runtime f s) tg qs"
proof -
  let ?B = "tg_rt_runtime (task_groups s tg)"
  have "1 * unat ?B \<le> length qs * unat ?B" using assms(3) by (intro mult_le_mono1) (cases qs; simp)
  also have "\<dots> < 2 ^ 63" using assms(2) by (simp add: rt_small_def)
  finally have "unat ?B < 2 ^ 63" by simp
  then have act: "q \<in> active qs f" using assms(3,5) small_not_INF by (auto simp: active_def)
  have oth: "others q qs f = active qs (runtimes s)" using assms(4,5) by (auto simp: others_def active_def)
  have "(\<Sum>x\<in>active qs (runtimes s). unat (f x)) = pool qs (runtimes s)"
    unfolding pool_def using assms(4,5) by (intro sum.cong) (auto simp: active_def)
  moreover have "f q = ?B" using assms(5) by simp
  ultimately have "pool qs f = card (active qs f) * unat ?B"
    using pool_others(1,3) [OF act] assms(1) by (simp add: balanced_def oth)
  then show ?thesis by (simp only: balanced_def with_runtime_simps)
qed

lemma bw_inv_consume:
  assumes "bw_inv tg span qs s" "unat t < 2 ^ 63"
  shows "bw_inv tg span qs (upd_rt_rq q (\<lambda>r. r\<lparr>rt_time := t, rt_throttled := b\<rparr>) s)"
proof -
  let ?s = "upd_rt_rq q (\<lambda>r. r\<lparr>rt_time := t, rt_throttled := b\<rparr>) s"
  have "runtimes ?s = runtimes s" by auto
  moreover have "rt_group ?s tg span qs" using assms(1) by (auto simp: bw_inv_def rt_group_def mask_cpus_def)
  moreover have "rt_small ?s tg qs" using assms by (simp add: bw_inv_def rt_small_def)
  ultimately show ?thesis using assms(1) by (simp add: bw_inv_def balanced_def)
qed

lemma bw_event_law:
  assumes "bw_inv tg span qs s" "bw_enabled qs ev s"
  shows "\<exists>s'. bw_exec ev s = Some s' \<and> bw_inv tg span qs s'"
proof (cases ev)
  case (Borrow q)
  then obtain g s' where s': "do_balance_runtime q s = Some (g, s')" "s' = with_runtime (runtimes s') s"
    "balanced s' tg qs" using do_balance_keeps [of s tg span qs q] assms by (auto simp: bw_inv_def)
  show ?thesis using Borrow s'(1) bw_inv_runtimes [OF assms(1) s'(2,3)] by simp
next
  case (Take_down q)
  then have q: "q \<in> set qs" using assms(2) by simp
  then obtain c where c: "rt_rq_rq (rt_rqs s q) = Some c" using assms(1) by (auto simp: bw_inv_def rt_group_def)
  then obtain s' where s': "disable_rt_rq c q s = Some s'" "s' = with_runtime (runtimes s') s" "balanced s' tg qs"
    using disable_keeps [of s tg span qs q c] assms(1) q by (auto simp: bw_inv_def)
  show ?thesis using Take_down c s'(1) bw_inv_runtimes [OF assms(1) s'(2,3)] by (simp add: rq_of_rt_rq_def)
next
  case (Bring_up q)
  let ?s = "with_runtime ((runtimes s)(q := tg_rt_runtime (task_groups s tg))) s"
  have "bw_inv tg span qs ?s"
    using bw_inv_runtimes [OF assms(1) refl balanced_bring_up] assms Bring_up by (simp add: bw_inv_def)
  from bw_inv_consume [OF this, of 0 q False]
  have "bw_inv tg span qs (upd_rt_rq q (\<lambda>r. r\<lparr>rt_runtime := tg_rt_runtime (task_groups s tg), rt_time := 0,
      rt_throttled := False\<rparr>) s)"
    by (simp flip: upd_runtime)
  moreover have "rt_tg (rt_rqs s q) = Some tg" using assms Bring_up by (auto simp: bw_inv_def rt_group_def)
  ultimately show ?thesis using Bring_up by (simp add: sched_rt_bandwidth_def)
next
  case (Consume q t)
  then show ?thesis using bw_inv_consume [OF assms(1), of t q "rt_throttled (rt_rqs s q)"] assms(2) by simp
qed

interpretation bw_events: safe_events "bw_inv tg span qs" "bw_enabled qs" bw_exec for tg span qs
  by unfold_locales (rule bw_event_law)

text \<open>C3: RT runtime is never lost. Start from a group whose run-queues that take part hold together
  the group's runtime each. However the CPUs then borrow from each other, consume, are taken
  down and come up again, that equation keeps holding, and every one of these operations
  succeeds; in particular a CPU that goes down always reclaims exactly what it lent, and
  the BUG_ON on what it still wants is never hit.\<close>

theorem rt_bandwidth_conserved:
  assumes "(event_step (bw_enabled qs) bw_exec)\<^sup>*\<^sup>* s0 s"
    and "rt_group s0 tg span qs" "balanced s0 tg qs" "rt_small s0 tg qs"
  shows "balanced s tg qs \<and> (\<forall>ev. bw_enabled qs ev s \<longrightarrow> bw_exec ev s \<noteq> None)"
  using bw_events.run_safe [OF assms(1), of tg span] assms(2-4) by (simp add: bw_inv_def)

text \<open>C4: Borrowing for one run-queue. The queue that ran out gets no less than it had and no more
  than a period, no lender falls below the time it has already used, no CPU starts or stops
  taking part, nothing but runtimes changes and their sum stays.\<close>

theorem do_balance_runtime_correct:
  assumes "rt_group s tg span qs" "balanced s tg qs" "rt_small s tg qs"
    and "q \<in> set qs" "rt_runtime (rt_rqs s q) \<noteq> RUNTIME_INF"
    and "rt_runtime (rt_rqs s q) \<le> tg_rt_period (task_groups s tg)"
  shows "\<exists>got s'. do_balance_runtime q s = Some (got, s') \<and> s' = with_runtime (runtimes s') s \<and>
    pool qs (runtimes s') = pool qs (runtimes s) \<and> active qs (runtimes s') = active qs (runtimes s) \<and>
    rt_runtime (rt_rqs s q) \<le> rt_runtime (rt_rqs s' q) \<and>
    rt_runtime (rt_rqs s' q) \<le> tg_rt_period (task_groups s tg) \<and>
    (\<forall>x\<in>set qs. x \<noteq> q \<and> rt_time (rt_rqs s x) \<le> rt_runtime (rt_rqs s x) \<longrightarrow>
       rt_time (rt_rqs s x) \<le> rt_runtime (rt_rqs s' x))"
proof -
  obtain g s' where s': "do_balance_runtime q s = Some (g, s')" "s' = with_runtime (runtimes s') s"
    "balanced s' tg qs" "active qs (runtimes s') = active qs (runtimes s)"
    "rt_runtime (rt_rqs s q) \<le> rt_runtime (rt_rqs s' q)"
    "rt_runtime (rt_rqs s' q) \<le> tg_rt_period (task_groups s tg)"
    "\<forall>x\<in>set qs. x \<noteq> q \<and> rt_time (rt_rqs s x) \<le> rt_runtime (rt_rqs s x) \<longrightarrow>
       rt_time (rt_rqs s x) \<le> rt_runtime (rt_rqs s' x)"
    using do_balance_keeps [OF assms(1-5)] assms(6) by blast
  have "task_groups s' = task_groups s" by (subst s'(2)) (simp only: with_runtime_simps)
  then have "pool qs (runtimes s') = pool qs (runtimes s)"
    using s'(3,4) assms(2) by (simp add: balanced_def)
  with s' show ?thesis by blast
qed

text \<open>Two CPUs of a group with 950 ms per second each; the first has used its runtime up.\<close>

definition sample_rt :: kst where
  "sample_rt = (bss 2)\<lparr>
     rt_rqs := (\<lambda>q. zero_rt_rq\<lparr>rt_tg := Some 1, rt_runtime := 950000000,
                  rt_time := (if q = Rq_of_group 1 0 then 960000000 else 0),
                  rt_rq_rq := (case q of Rq_of_cpu c \<Rightarrow> Some c | Rq_of_group _ c \<Rightarrow> Some c)\<rparr>),
     root_domains := (\<lambda>_. \<lparr>rd_refcount = 1, rto_count = 0, rd_span = {0, 1}, rd_online = {0, 1}, rto_mask = {}\<rparr>),
     task_groups := (\<lambda>_. zero_task_group\<lparr>tg_rt_period := 1000000000, tg_rt_runtime := 950000000,
                           tg_rt_rq := (\<lambda>c. Some (Rq_of_group 1 c))\<rparr>)\<rparr>"

definition sample_qs :: "rq_ref list" where "sample_qs = [Rq_of_group 1 0, Rq_of_group 1 1]"

lemma sample_rt_ok: "rt_group sample_rt 1 [0, 1] sample_qs" "balanced sample_rt 1 sample_qs" "rt_small sample_rt 1 sample_qs"
proof -
  have up: "[0..<nr_cpus sample_rt] = [0, 1]" by (simp add: sample_rt_def bss_def upt_rec)
  show "rt_group sample_rt 1 [0, 1] sample_qs"
    unfolding rt_group_def mask_cpus_def up by (simp add: sample_qs_def sample_rt_def bss_defs)
  have "active sample_qs (runtimes sample_rt) = {Rq_of_group 1 0, Rq_of_group 1 1}"
    by (auto simp: active_def sample_qs_def sample_rt_def RUNTIME_INF_def)
  then show "balanced sample_rt 1 sample_qs"
    by (simp add: balanced_def pool_def sample_rt_def)
  show "rt_small sample_rt 1 sample_qs"
    by (simp add: rt_small_def sample_qs_def sample_rt_def)
qed

theorem rt_bandwidth_conserved_witness:
  "balanced sample_rt 1 sample_qs \<and> bw_exec (Take_down (Rq_of_group 1 0)) sample_rt \<noteq> None"
proof -
  have "bw_enabled sample_qs (Take_down (Rq_of_group 1 0)) sample_rt" by (simp add: sample_qs_def)
  then show ?thesis
    using rt_bandwidth_conserved [OF rtranclp.rtrancl_refl sample_rt_ok] by blast
qed

theorem do_balance_runtime_correct_witness:
  "\<exists>got s'. do_balance_runtime (Rq_of_group 1 0) sample_rt = Some (got, s') \<and>
     pool sample_qs (runtimes s') = pool sample_qs (runtimes sample_rt)"
proof -
  have "Rq_of_group 1 0 \<in> set sample_qs" by (simp add: sample_qs_def)
  moreover have "rt_runtime (rt_rqs sample_rt (Rq_of_group 1 0)) \<noteq> RUNTIME_INF"
    "rt_runtime (rt_rqs sample_rt (Rq_of_group 1 0)) \<le> tg_rt_period (task_groups sample_rt 1)"
    by (simp_all add: sample_rt_def RUNTIME_INF_def)
  ultimately show ?thesis using do_balance_runtime_correct [OF sample_rt_ok] by blast
qed

end
