(* ===== verification/Core_Group.thy ===== *)
theory Core_Group
  imports Core_Wake Rt_Queue Wrr_Basic
begin

text \<open>
  Task groups (kernel/core.c, with CONFIG_CGROUP_SCHED and CONFIG_RT_GROUP_SCHED): the walk over
  the tree of groups, creating and destroying a group, moving a task to another group, the
  admission test of RT bandwidth with the operations that set it, and the cgroup callbacks.
  A group's children are kept in the order of its \<open>children\<close> list, newest first.
\<close>

section \<open>The environment of group control\<close>

text \<open>
  What the code here calls outside the repository: the allocator, the fair class's part of a
  group, autogroups, the cgroup a task or a cgroup directory belongs to, the list of all threads
  and the sysctl parser.
\<close>

record genv =
  kcore :: kenv
  kzalloc_tg :: "kst \<Rightarrow> tgid option"
  rt_alloc_ok :: "nat \<Rightarrow> bool"
  alloc_fair_sched_group :: "tgid \<Rightarrow> tgid \<Rightarrow> kst \<Rightarrow> bool \<times> kst"
  task_css_tg :: "kst \<Rightarrow> tid \<Rightarrow> tgid"
  autogroup_task_group :: "tid \<Rightarrow> tgid \<Rightarrow> tgid"
  op_task_move_group :: "sched_class \<Rightarrow> (tid \<Rightarrow> bool \<Rightarrow> kst \<Rightarrow> kst option) option"
  all_threads :: "tid list"
  proc_dointvec :: "bool \<Rightarrow> kst \<Rightarrow> int \<times> kst"
  cgroup_tg :: "nat \<Rightarrow> tgid"
  cgroup_parent :: "nat \<Rightarrow> nat option"
  cred_suid :: "tid \<Rightarrow> nat"
  account_cfs_bandwidth_used :: "bool \<Rightarrow> bool \<Rightarrow> kst \<Rightarrow> kst"
  refill_cfs_bandwidth_runtime :: "tgid \<Rightarrow> kst \<Rightarrow> kst"
  start_cfs_bandwidth :: "tgid \<Rightarrow> kst \<Rightarrow> kst"
  unthrottle_cfs_rq :: "tgid \<Rightarrow> cpu \<Rightarrow> kst \<Rightarrow> kst"
  sched_group_set_shares :: "tgid \<Rightarrow> ulong \<Rightarrow> kst \<Rightarrow> int \<times> kst"

section \<open>Walking the tree\<close>

fun siblings_after :: "'a \<Rightarrow> 'a list \<Rightarrow> 'a list option" where
  "siblings_after x [] = None"
| "siblings_after x (y # ys) = (if y = x then Some ys else siblings_after x ys)"

text \<open>
  \<open>walk_tg_tree_from\<close> jumps between the labels \<open>down\<close> and \<open>up\<close>; here the flag \<open>descend\<close> says at which
  label the walk is. A visitor gets the data it is called with and hands it on. A group that is
  not on its parent's list leaves the walk with a wild pointer.
\<close>

partial_function (option) walk_loop ::
  "kst \<Rightarrow> (tgid \<Rightarrow> 's \<Rightarrow> (int \<times> 's) option) \<Rightarrow> (tgid \<Rightarrow> 's \<Rightarrow> (int \<times> 's) option) \<Rightarrow> tgid \<Rightarrow> bool \<Rightarrow> tgid \<Rightarrow> 's
     \<Rightarrow> (int \<times> 's) option" where
  "walk_loop s down up from descend parent d =
     (if descend then
        Option.bind (down parent d) (\<lambda>(ret, d).
          if ret \<noteq> 0 then Some (ret, d)
          else case tg_children (task_groups s parent) of
                 [] \<Rightarrow> walk_loop s down up from False parent d
               | child # _ \<Rightarrow> walk_loop s down up from True child d)
      else
        Option.bind (up parent d) (\<lambda>(ret, d).
          if ret \<noteq> 0 \<or> parent = from then Some (ret, d)
          else case tg_parent (task_groups s parent) of
                 None \<Rightarrow> Some (ret, d)
               | Some g \<Rightarrow>
                   Option.bind (siblings_after parent (tg_children (task_groups s g))) (\<lambda>rest.
                     case rest of
                       [] \<Rightarrow> walk_loop s down up from False g d
                     | child # _ \<Rightarrow> walk_loop s down up from True child d)))"

definition walk_tg_tree_from ::
  "kst \<Rightarrow> tgid \<Rightarrow> (tgid \<Rightarrow> 's \<Rightarrow> (int \<times> 's) option) \<Rightarrow> (tgid \<Rightarrow> 's \<Rightarrow> (int \<times> 's) option) \<Rightarrow> 's
     \<Rightarrow> (int \<times> 's) option" where
  "walk_tg_tree_from s from down up d = walk_loop s down up from True from d"

definition walk_tg_tree ::
  "kst \<Rightarrow> (tgid \<Rightarrow> 's \<Rightarrow> (int \<times> 's) option) \<Rightarrow> (tgid \<Rightarrow> 's \<Rightarrow> (int \<times> 's) option) \<Rightarrow> 's
     \<Rightarrow> (int \<times> 's) option" where
  "walk_tg_tree s down up d = walk_tg_tree_from s root_task_group down up d"

definition tg_nop :: "tgid \<Rightarrow> 's \<Rightarrow> (int \<times> 's) option" where
  "tg_nop tg d = Some (0, d)"

section \<open>Creating, destroying and leaving groups\<close>

definition free_sched_group :: "tgid \<Rightarrow> kst \<Rightarrow> kst" where
  "free_sched_group tg s =
     (let s = ext (Group_note ''free_fair_sched_group'' tg) s;
          s = free_rt_sched_group tg s;
          s = free_wrr_sched_group tg s;
          s = ext (Group_note ''autogroup_free'' tg) s
      in ext (Group_note ''kfree'' tg) s)"

text \<open>\<open>ERR_PTR\<close> is an \<open>Inl\<close>; the parent exists (a NULL one is dereferenced by the allocators).\<close>

definition sched_create_group :: "genv \<Rightarrow> tgid \<Rightarrow> kst \<Rightarrow> (int + tgid) \<times> kst" where
  "sched_create_group G parent s =
     (case kzalloc_tg G s of
        None \<Rightarrow> (Inl (- ENOMEM), s)
      | Some tg \<Rightarrow>
          let s = upd_tg tg (\<lambda>_. zero_task_group) s;
              (ok, s) = alloc_fair_sched_group G tg parent s in
          if \<not> ok then (Inl (- ENOMEM), free_sched_group tg s)
          else let (ok, s) = alloc_rt_sched_group (rt_alloc_ok G) tg parent s in
          if ok = 0 then (Inl (- ENOMEM), free_sched_group tg s)
          else let (ok, s) = alloc_wrr_sched_group tg (Some parent) s in
          if ok = 0 then (Inl (- ENOMEM), free_sched_group tg s)
          else
            let s = s\<lparr>globals := (globals s)\<lparr>task_group_list := tg # task_group_list (globals s)\<rparr>\<rparr>;
                s = upd_tg tg (\<lambda>g. g\<lparr>tg_parent := Some parent\<rparr>) s;
                s = upd_tg tg (\<lambda>g. g\<lparr>tg_children := []\<rparr>) s;
                s = upd_tg parent (\<lambda>g. g\<lparr>tg_children := tg # tg_children g\<rparr>) s
            in (Inr tg, s))"

definition free_sched_group_rcu :: "tgid \<Rightarrow> kst \<Rightarrow> kst" where
  "free_sched_group_rcu tg s = free_sched_group tg s"

text \<open>
  \<open>list_del_rcu\<close> of an entry that is not linked writes through poisoned pointers. The callback
  \<open>free_sched_group_rcu\<close> runs later; here \<open>call_rcu\<close> is only recorded.
\<close>

definition sched_destroy_group :: "tgid \<Rightarrow> kst \<Rightarrow> kst option" where
  "sched_destroy_group tg s =
     (let s = fold (\<lambda>i. ext (Group_cpu_note ''unregister_fair_sched_group'' tg i)) [0..<nr_cpus s] s in
      if tg \<notin> set (task_group_list (globals s)) then None
      else let s = s\<lparr>globals := (globals s)\<lparr>task_group_list := remove1 tg (task_group_list (globals s))\<rparr>\<rparr> in
      case tg_parent (task_groups s tg) of
        None \<Rightarrow> None
      | Some parent \<Rightarrow>
          if tg \<notin> set (tg_children (task_groups s parent)) then None
          else let s = upd_tg parent (\<lambda>g. g\<lparr>tg_children := remove1 tg (tg_children g)\<rparr>) s
               in Some (ext (Group_note ''call_rcu'' tg) s))"

definition sched_move_task :: "genv \<Rightarrow> tid \<Rightarrow> kst \<Rightarrow> kst option" where
  "sched_move_task G tsk s =
     (let K = kcore G; c = task_cpu s tsk;
          running = task_current s c tsk; queued = on_rq (tasks s tsk) in
      do {
        s \<leftarrow> (if queued then dequeue_task K c tsk 0 s else Some s);
        s \<leftarrow> (if running then op_put_prev_task (class_of K s tsk) c tsk s else Some s);
        let tg = autogroup_task_group G tsk (task_css_tg G s tsk);
        let s = upd_task tsk (\<lambda>t. t\<lparr>sched_task_group := tg\<rparr>) s;
        s \<leftarrow> (case op_task_move_group G (task_class (tasks s tsk)) of
               Some f \<Rightarrow> f tsk queued s
             | None \<Rightarrow> Some (set_task_rq tsk (task_cpu s tsk) s));
        s \<leftarrow> (if running then op_set_curr_task (class_of K s tsk) c s else Some s);
        if queued then enqueue_task K c tsk 0 s else Some s
      })"

section \<open>The admission test of RT bandwidth\<close>

definition NSEC_PER_USEC :: u64 where "NSEC_PER_USEC = 1000"

text \<open>The ratio is returned as an \<open>unsigned long\<close>; a zero period divides by zero.\<close>

definition to_ratio :: "u64 \<Rightarrow> u64 \<Rightarrow> ulong option" where
  "to_ratio period runtime =
     (if runtime = RUNTIME_INF then Some (push_bit 20 1)
      else if period = 0 then None
      else Some (ucast (push_bit 20 runtime div period)))"

definition global_rt_period :: "kst \<Rightarrow> u64" where
  "global_rt_period s = ucast (sysctl_sched_rt_period (globals s)) * NSEC_PER_USEC"

definition global_rt_runtime :: "kst \<Rightarrow> u64" where
  "global_rt_runtime s =
     (if sysctl_sched_rt_runtime (globals s) < 0 then RUNTIME_INF
      else word_of_int (sysctl_sched_rt_runtime (globals s)) * NSEC_PER_USEC)"

definition tg_has_rt_tasks :: "genv \<Rightarrow> kst \<Rightarrow> tgid \<Rightarrow> bool" where
  "tg_has_rt_tasks G s tg \<longleftrightarrow>
     list_ex (\<lambda>p. rt_task s p \<and> rt_tg (rt_rqs s (Rq_of_cpu (task_cpu s p))) = Some tg) (all_threads G)"

record rt_schedulable_data =
  rsd_tg :: "tgid option"
  rsd_period :: u64
  rsd_runtime :: u64

text \<open>The bandwidth a group has once the change under test is made.\<close>

definition rt_bw_of :: "kst \<Rightarrow> rt_schedulable_data \<Rightarrow> tgid \<Rightarrow> u64 \<times> u64" where
  "rt_bw_of s d tg =
     (if Some tg = rsd_tg d then (rsd_period d, rsd_runtime d)
      else (tg_rt_period (task_groups s tg), tg_rt_runtime (task_groups s tg)))"

fun rt_children_sum :: "kst \<Rightarrow> rt_schedulable_data \<Rightarrow> tgid list \<Rightarrow> ulong \<Rightarrow> ulong option" where
  "rt_children_sum s d [] acc = Some acc"
| "rt_children_sum s d (child # cs) acc =
     (let (period, runtime) = rt_bw_of s d child in do {
        r \<leftarrow> to_ratio period runtime;
        rt_children_sum s d cs (acc + r)
      })"

definition tg_rt_schedulable ::
  "genv \<Rightarrow> kst \<Rightarrow> tgid \<Rightarrow> rt_schedulable_data \<Rightarrow> (int \<times> rt_schedulable_data) option" where
  "tg_rt_schedulable G s tg d =
     (let (period, runtime) = rt_bw_of s d tg in
      if period < runtime \<and> runtime \<noteq> RUNTIME_INF then Some (- EINVAL, d)
      else if rt_bandwidth_enabled s \<and> runtime = 0 \<and> tg_has_rt_tasks G s tg then Some (- EBUSY, d)
      else do {
        total \<leftarrow> to_ratio period runtime;
        limit \<leftarrow> to_ratio (global_rt_period s) (global_rt_runtime s);
        if limit < total then Some (- EINVAL, d)
        else do {
          sum \<leftarrow> rt_children_sum s d (tg_children (task_groups s tg)) 0;
          if total < sum then Some (- EINVAL, d) else Some (0, d)
        }
      })"

definition rt_schedulable :: "genv \<Rightarrow> kst \<Rightarrow> tgid option \<Rightarrow> u64 \<Rightarrow> u64 \<Rightarrow> int option" where
  "rt_schedulable G s tg period runtime =
     map_option fst (walk_tg_tree s (tg_rt_schedulable G s) tg_nop
       \<lparr>rsd_tg = tg, rsd_period = period, rsd_runtime = runtime\<rparr>)"

section \<open>Setting RT bandwidth\<close>

fun set_rt_runtimes :: "tgid \<Rightarrow> u64 \<Rightarrow> cpu list \<Rightarrow> kst \<Rightarrow> kst option" where
  "set_rt_runtimes tg runtime [] s = Some s"
| "set_rt_runtimes tg runtime (i # is) s = do {
     q \<leftarrow> tg_rt_rq (task_groups s tg) i;
     set_rt_runtimes tg runtime is (upd_rt_rq q (\<lambda>r. r\<lparr>rt_runtime := runtime\<rparr>) s)
   }"

definition tg_set_rt_bandwidth :: "genv \<Rightarrow> tgid \<Rightarrow> u64 \<Rightarrow> u64 \<Rightarrow> kst \<Rightarrow> (int \<times> kst) option" where
  "tg_set_rt_bandwidth G tg period runtime s = do {
     err \<leftarrow> rt_schedulable G s (Some tg) period runtime;
     if err \<noteq> 0 then Some (err, s)
     else do {
       let s = upd_tg tg (\<lambda>g. g\<lparr>tg_rt_period := period\<rparr>) s;
       let s = upd_tg tg (\<lambda>g. g\<lparr>tg_rt_runtime := runtime\<rparr>) s;
       s \<leftarrow> set_rt_runtimes tg runtime [0..<nr_cpus s] s;
       Some (err, s)
     }
   }"

definition sched_group_set_rt_runtime :: "genv \<Rightarrow> tgid \<Rightarrow> ulong \<Rightarrow> kst \<Rightarrow> (int \<times> kst) option" where
  "sched_group_set_rt_runtime G tg rt_runtime_us s =
     (let period = tg_rt_period (task_groups s tg);
          runtime = scast rt_runtime_us * NSEC_PER_USEC;
          runtime = (if rt_runtime_us <s 0 then RUNTIME_INF else runtime)
      in tg_set_rt_bandwidth G tg period runtime s)"

definition sched_group_rt_runtime :: "kst \<Rightarrow> tgid \<Rightarrow> ulong" where
  "sched_group_rt_runtime s tg =
     (if tg_rt_runtime (task_groups s tg) = RUNTIME_INF then - 1
      else ucast (tg_rt_runtime (task_groups s tg) div NSEC_PER_USEC))"

definition sched_group_set_rt_period :: "genv \<Rightarrow> tgid \<Rightarrow> ulong \<Rightarrow> kst \<Rightarrow> (int \<times> kst) option" where
  "sched_group_set_rt_period G tg rt_period_us s =
     (let period = scast rt_period_us * NSEC_PER_USEC;
          runtime = tg_rt_runtime (task_groups s tg) in
      if period = 0 then Some (- EINVAL, s)
      else tg_set_rt_bandwidth G tg period runtime s)"

definition sched_group_rt_period :: "kst \<Rightarrow> tgid \<Rightarrow> ulong" where
  "sched_group_rt_period s tg = ucast (tg_rt_period (task_groups s tg) div NSEC_PER_USEC)"

definition sched_rt_global_constraints :: "genv \<Rightarrow> kst \<Rightarrow> int option" where
  "sched_rt_global_constraints G s =
     (if sysctl_sched_rt_period (globals s) = 0 then Some (- EINVAL)
      else let runtime = global_rt_runtime s; period = global_rt_period s in
      if period < runtime \<and> runtime \<noteq> RUNTIME_INF then Some (- EINVAL)
      else rt_schedulable G s None 0 0)"

definition sched_rt_can_attach :: "kst \<Rightarrow> tgid \<Rightarrow> tid \<Rightarrow> bool" where
  "sched_rt_can_attach s tg tsk \<longleftrightarrow>
     \<not> (rt_task s tsk \<and> tg_rt_runtime (task_groups s tg) = 0)"

definition sched_rt_handler :: "genv \<Rightarrow> bool \<Rightarrow> kst \<Rightarrow> (int \<times> kst) option" where
  "sched_rt_handler G write s =
     (let old_period = sysctl_sched_rt_period (globals s);
          old_runtime = sysctl_sched_rt_runtime (globals s);
          (ret, s) = proc_dointvec G write s in
      if ret = 0 \<and> write then do {
        ret \<leftarrow> sched_rt_global_constraints G s;
        if ret \<noteq> 0 then
          Some (ret, s\<lparr>globals := (globals s)\<lparr>sysctl_sched_rt_period := old_period,
                                             sysctl_sched_rt_runtime := old_runtime\<rparr>\<rparr>)
        else
          Some (ret, s\<lparr>globals := (globals s)\<lparr>def_rt_runtime := global_rt_runtime s,
                                             def_rt_period := global_rt_period s\<rparr>\<rparr>)
      }
      else Some (ret, s))"

section \<open>The callbacks of the cpu cgroup\<close>

text \<open>A cgroup's task set is given as the list of its tasks.\<close>

definition cpu_cgroup_create :: "genv \<Rightarrow> nat \<Rightarrow> kst \<Rightarrow> (int + tgid) \<times> kst" where
  "cpu_cgroup_create G cgrp s =
     (case cgroup_parent G cgrp of
        None \<Rightarrow> (Inr root_task_group, s)
      | Some pc \<Rightarrow>
          let parent = cgroup_tg G pc; (tg, s) = sched_create_group G parent s
          in (case tg of Inl _ \<Rightarrow> (Inl (- ENOMEM), s) | Inr tg \<Rightarrow> (Inr tg, s)))"

definition cpu_cgroup_destroy :: "genv \<Rightarrow> nat \<Rightarrow> kst \<Rightarrow> kst option" where
  "cpu_cgroup_destroy G cgrp s = sched_destroy_group (cgroup_tg G cgrp) s"

fun cpu_cgroup_allow_attach :: "genv \<Rightarrow> kst \<Rightarrow> tid list \<Rightarrow> int" where
  "cpu_cgroup_allow_attach G s [] = 0"
| "cpu_cgroup_allow_attach G s (task # ts) =
     (if current s \<noteq> task \<and> \<not> capable_nice (kcore G) \<and>
         cred_euid (kcore G) (current s) \<noteq> cred_uid (kcore G) task \<and>
         cred_euid (kcore G) (current s) \<noteq> cred_suid G task then - EACCES
      else cpu_cgroup_allow_attach G s ts)"

fun cpu_cgroup_can_attach :: "genv \<Rightarrow> kst \<Rightarrow> nat \<Rightarrow> tid list \<Rightarrow> int" where
  "cpu_cgroup_can_attach G s cgrp [] = 0"
| "cpu_cgroup_can_attach G s cgrp (task # ts) =
     (if \<not> sched_rt_can_attach s (cgroup_tg G cgrp) task then - EINVAL
      else cpu_cgroup_can_attach G s cgrp ts)"

fun cpu_cgroup_attach :: "genv \<Rightarrow> tid list \<Rightarrow> kst \<Rightarrow> kst option" where
  "cpu_cgroup_attach G [] s = Some s"
| "cpu_cgroup_attach G (task # ts) s = do {
     s \<leftarrow> sched_move_task G task s;
     cpu_cgroup_attach G ts s
   }"

definition cpu_cgroup_exit :: "genv \<Rightarrow> tid \<Rightarrow> kst \<Rightarrow> kst option" where
  "cpu_cgroup_exit G task s =
     (if tflags (tasks s task) AND PF_EXITING = 0 then Some s else sched_move_task G task s)"

definition cpu_rt_runtime_write :: "genv \<Rightarrow> nat \<Rightarrow> u64 \<Rightarrow> kst \<Rightarrow> (int \<times> kst) option" where
  "cpu_rt_runtime_write G cgrp val s = sched_group_set_rt_runtime G (cgroup_tg G cgrp) (ucast val) s"

definition cpu_rt_runtime_read :: "genv \<Rightarrow> nat \<Rightarrow> kst \<Rightarrow> u64" where
  "cpu_rt_runtime_read G cgrp s = scast (sched_group_rt_runtime s (cgroup_tg G cgrp))"

definition cpu_rt_period_write_uint :: "genv \<Rightarrow> nat \<Rightarrow> u64 \<Rightarrow> kst \<Rightarrow> (int \<times> kst) option" where
  "cpu_rt_period_write_uint G cgrp rt_period_us s =
     sched_group_set_rt_period G (cgroup_tg G cgrp) (ucast rt_period_us) s"

definition cpu_rt_period_read_uint :: "genv \<Rightarrow> nat \<Rightarrow> kst \<Rightarrow> u64" where
  "cpu_rt_period_read_uint G cgrp s = scast (sched_group_rt_period s (cgroup_tg G cgrp))"

section \<open>The quota of the fair class\<close>

definition max_cfs_quota_period :: u64 where "max_cfs_quota_period = 1000000000"
definition min_cfs_quota_period :: u64 where "min_cfs_quota_period = 1000000"

abbreviation upd_cfs :: "tgid \<Rightarrow> (cfs_bandwidth \<Rightarrow> cfs_bandwidth) \<Rightarrow> kst \<Rightarrow> kst" where
  "upd_cfs tg f s \<equiv> upd_tg tg (\<lambda>g. g\<lparr>tg_cfs := f (tg_cfs g)\<rparr>) s"

definition cpu_shares_write_u64 :: "genv \<Rightarrow> nat \<Rightarrow> u64 \<Rightarrow> kst \<Rightarrow> int \<times> kst" where
  "cpu_shares_write_u64 G cgrp shareval s = sched_group_set_shares G (cgroup_tg G cgrp) (ucast shareval) s"

definition cpu_shares_read_u64 :: "genv \<Rightarrow> nat \<Rightarrow> kst \<Rightarrow> u64" where
  "cpu_shares_read_u64 G cgrp s = ucast (tg_shares (task_groups s (cgroup_tg G cgrp)))"

record cfs_schedulable_data =
  csd_tg :: "tgid option"
  csd_period :: u64
  csd_quota :: u64

definition tg_get_cfs_quota :: "kst \<Rightarrow> tgid \<Rightarrow> ulong" where
  "tg_get_cfs_quota s tg =
     (let quota = cfs_quota (tg_cfs (task_groups s tg)) in
      if quota = RUNTIME_INF then - 1 else ucast (quota div NSEC_PER_USEC))"

definition tg_get_cfs_period :: "kst \<Rightarrow> tgid \<Rightarrow> ulong" where
  "tg_get_cfs_period s tg = ucast (cfs_period (tg_cfs (task_groups s tg)) div NSEC_PER_USEC)"

text \<open>The results of the two getters are \<open>long\<close>s, and \<open>to_ratio\<close>'s an \<open>unsigned long\<close>.\<close>

definition normalize_cfs_quota :: "kst \<Rightarrow> tgid \<Rightarrow> cfs_schedulable_data \<Rightarrow> u64 option" where
  "normalize_cfs_quota s tg d =
     (let (period, quota) =
        (if Some tg = csd_tg d then (csd_period d, csd_quota d)
         else (scast (tg_get_cfs_period s tg), scast (tg_get_cfs_quota s tg))) in
      if quota = RUNTIME_INF \<or> quota = - 1 then Some RUNTIME_INF
      else map_option ucast (to_ratio period quota))"

definition tg_cfs_schedulable_down ::
  "cfs_schedulable_data \<Rightarrow> tgid \<Rightarrow> kst \<Rightarrow> (int \<times> kst) option" where
  "tg_cfs_schedulable_down d tg s =
     (case tg_parent (task_groups s tg) of
        None \<Rightarrow> Some (0, upd_cfs tg (\<lambda>b. b\<lparr>hierarchal_quota := RUNTIME_INF\<rparr>) s)
      | Some parent \<Rightarrow> do {
          quota \<leftarrow> normalize_cfs_quota s tg d;
          let parent_quota = hierarchal_quota (tg_cfs (task_groups s parent));
          if quota = RUNTIME_INF then
            Some (0, upd_cfs tg (\<lambda>b. b\<lparr>hierarchal_quota := parent_quota\<rparr>) s)
          else if parent_quota \<noteq> RUNTIME_INF \<and> parent_quota <s quota then Some (- EINVAL, s)
          else Some (0, upd_cfs tg (\<lambda>b. b\<lparr>hierarchal_quota := quota\<rparr>) s)
        })"

text \<open>The walk follows the tree of the state it starts in: the visitor changes quotas only.\<close>

definition cfs_schedulable :: "tgid \<Rightarrow> u64 \<Rightarrow> u64 \<Rightarrow> kst \<Rightarrow> (int \<times> kst) option" where
  "cfs_schedulable tg period quota s =
     (let d = (if quota \<noteq> RUNTIME_INF
               then \<lparr>csd_tg = Some tg, csd_period = period div NSEC_PER_USEC,
                     csd_quota = quota div NSEC_PER_USEC\<rparr>
               else \<lparr>csd_tg = Some tg, csd_period = period, csd_quota = quota\<rparr>)
      in walk_tg_tree s (tg_cfs_schedulable_down d) tg_nop s)"

definition set_cfs_rq_runtime :: "genv \<Rightarrow> tgid \<Rightarrow> bool \<Rightarrow> cpu \<Rightarrow> kst \<Rightarrow> kst" where
  "set_cfs_rq_runtime G tg enabled i s =
     (let s = s\<lparr>cfs_rqs := (cfs_rqs s)(tg := (cfs_rqs s tg)(i :=
                (cfs_rqs s tg i)\<lparr>runtime_enabled := enabled, runtime_remaining := 0\<rparr>))\<rparr>
      in if cfs_throttled (cfs_rqs s tg i) then unthrottle_cfs_rq G tg i s else s)"

definition tg_set_cfs_bandwidth :: "genv \<Rightarrow> tgid \<Rightarrow> u64 \<Rightarrow> u64 \<Rightarrow> kst \<Rightarrow> (int \<times> kst) option" where
  "tg_set_cfs_bandwidth G tg period quota s =
     (if tg = root_task_group then Some (- EINVAL, s)
      else if quota < min_cfs_quota_period \<or> period < min_cfs_quota_period then Some (- EINVAL, s)
      else if max_cfs_quota_period < period then Some (- EINVAL, s)
      else do {
        (ret, s) \<leftarrow> cfs_schedulable tg period quota s;
        if ret \<noteq> 0 then Some (ret, s)
        else
          let enabled = (quota \<noteq> RUNTIME_INF);
              was_enabled = (cfs_quota (tg_cfs (task_groups s tg)) \<noteq> RUNTIME_INF);
              s = account_cfs_bandwidth_used G enabled was_enabled s;
              s = upd_cfs tg (\<lambda>b. b\<lparr>cfs_period := period, cfs_quota := quota\<rparr>) s;
              s = refill_cfs_bandwidth_runtime G tg s;
              s = (if enabled \<and> cfs_timer_active (tg_cfs (task_groups s tg))
                   then start_cfs_bandwidth G tg (upd_cfs tg (\<lambda>b. b\<lparr>cfs_timer_active := False\<rparr>) s)
                   else s)
          in Some (ret, fold (set_cfs_rq_runtime G tg enabled) [0..<nr_cpus s] s)
      })"

definition tg_set_cfs_quota :: "genv \<Rightarrow> tgid \<Rightarrow> ulong \<Rightarrow> kst \<Rightarrow> (int \<times> kst) option" where
  "tg_set_cfs_quota G tg cfs_quota_us s =
     (let period = cfs_period (tg_cfs (task_groups s tg));
          quota = (if cfs_quota_us <s 0 then RUNTIME_INF else scast cfs_quota_us * NSEC_PER_USEC)
      in tg_set_cfs_bandwidth G tg period quota s)"

definition tg_set_cfs_period :: "genv \<Rightarrow> tgid \<Rightarrow> ulong \<Rightarrow> kst \<Rightarrow> (int \<times> kst) option" where
  "tg_set_cfs_period G tg cfs_period_us s =
     (let period = scast cfs_period_us * NSEC_PER_USEC;
          quota = cfs_quota (tg_cfs (task_groups s tg))
      in tg_set_cfs_bandwidth G tg period quota s)"

definition cpu_cfs_quota_read_s64 :: "genv \<Rightarrow> nat \<Rightarrow> kst \<Rightarrow> u64" where
  "cpu_cfs_quota_read_s64 G cgrp s = scast (tg_get_cfs_quota s (cgroup_tg G cgrp))"

definition cpu_cfs_quota_write_s64 :: "genv \<Rightarrow> nat \<Rightarrow> u64 \<Rightarrow> kst \<Rightarrow> (int \<times> kst) option" where
  "cpu_cfs_quota_write_s64 G cgrp cfs_quota_us s = tg_set_cfs_quota G (cgroup_tg G cgrp) (ucast cfs_quota_us) s"

definition cpu_cfs_period_read_u64 :: "genv \<Rightarrow> nat \<Rightarrow> kst \<Rightarrow> u64" where
  "cpu_cfs_period_read_u64 G cgrp s = scast (tg_get_cfs_period s (cgroup_tg G cgrp))"

definition cpu_cfs_period_write_u64 :: "genv \<Rightarrow> nat \<Rightarrow> u64 \<Rightarrow> kst \<Rightarrow> (int \<times> kst) option" where
  "cpu_cfs_period_write_u64 G cgrp cfs_period_us s = tg_set_cfs_period G (cgroup_tg G cgrp) (ucast cfs_period_us) s"

text \<open>What \<open>cpu_stats_show\<close> hands to its callback.\<close>

definition cpu_stats_show :: "genv \<Rightarrow> nat \<Rightarrow> kst \<Rightarrow> (string \<times> int) list" where
  "cpu_stats_show G cgrp s =
     (let b = tg_cfs (task_groups s (cgroup_tg G cgrp)) in
      [(''nr_periods'', cfs_nr_periods b), (''nr_throttled'', cfs_nr_throttled b),
       (''throttled_time'', uint (cfs_throttled_time b))])"

end
