(* ===== verification/Core_Group_Spec.thy ===== *)
theory Core_Group_Spec
  imports Core_Group Core_Sched_Spec "HOL-Library.Multiset"
begin

text \<open>
  Task groups: the jumping walk over the tree is the recursive traversal, creating and destroying
  groups keeps the tree, and the admission test of RT bandwidth decides an exact condition on the
  shares of all groups.
\<close>

section \<open>The tree of groups\<close>

text \<open>The tree the parent and children pointers of a state describe.\<close>

datatype tgtree = TG (tg_root: tgid) (subtrees: "tgtree list")

fun nodes :: "tgtree \<Rightarrow> tgid list" where
  "nodes (TG x ts) = x # concat (map nodes ts)"

fun tg_tree :: "kst \<Rightarrow> tgtree \<Rightarrow> bool" where
  "tg_tree s (TG x ts) \<longleftrightarrow>
     tg_children (task_groups s x) = map tg_root ts \<and>
     (\<forall>t \<in> set ts. tg_parent (task_groups s (tg_root t)) = Some x \<and> tg_tree s t)"

definition group_tree :: "kst \<Rightarrow> tgtree \<Rightarrow> bool" where
  "group_tree s t \<longleftrightarrow> tg_tree s t \<and> distinct (nodes t) \<and> tg_root t = root_task_group \<and>
     mset (task_group_list (globals s)) = mset (nodes t)"

lemma root_in_nodes [simp]: "tg_root t \<in> set (nodes t)"
  by (cases t) auto

lemma distinct_roots:
  assumes "distinct (concat (map nodes ts))"
  shows "distinct (map tg_root ts)"
  using assms
proof (induction ts)
  case (Cons t ts)
  then have disj: "set (nodes t) \<inter> (\<Union>u\<in>set ts. set (nodes u)) = {}" by auto
  have "tg_root t \<noteq> tg_root u" if "u \<in> set ts" for u
    using disj that root_in_nodes [of t] root_in_nodes [of u] by (metis UN_I disjoint_iff)
  with Cons show ?case by auto
qed simp

section \<open>The walk is the recursive traversal\<close>

type_synonym 's visitor = "tgid \<Rightarrow> 's \<Rightarrow> (int \<times> 's) option"

text \<open>Go on with \<open>k\<close> unless a visitor has returned an error.\<close>

definition unless_err :: "(int \<times> 's) option \<Rightarrow> ('s \<Rightarrow> (int \<times> 's) option) \<Rightarrow> (int \<times> 's) option" where
  "unless_err r k = Option.bind r (\<lambda>(ret, d). if ret \<noteq> 0 then Some (ret, d) else k d)"

lemma unless_err_cong [fundef_cong]:
  "r = r' \<Longrightarrow> (\<And>d. r' = Some (0, d) \<Longrightarrow> k d = k' d) \<Longrightarrow> unless_err r k = unless_err r' k'"
  by (cases r') (auto simp: unless_err_def)

lemma unless_err_simps [simp]:
  "unless_err (Some (0, d)) k = k d" "ret \<noteq> 0 \<Longrightarrow> unless_err (Some (ret, d)) k = Some (ret, d)"
  "unless_err None k = None"
  by (simp_all add: unless_err_def)

lemma unless_err_assoc: "unless_err (unless_err r f) g = unless_err r (\<lambda>d. unless_err (f d) g)"
  by (cases r) (auto simp: unless_err_def split: prod.splits)

text \<open>The specification: \<open>down\<close> before the children from left to right, \<open>up\<close> after them.\<close>

fun tree_visit :: "'s visitor \<Rightarrow> 's visitor \<Rightarrow> tgtree \<Rightarrow> 's \<Rightarrow> (int \<times> 's) option"
and forest_visit :: "'s visitor \<Rightarrow> 's visitor \<Rightarrow> tgtree list \<Rightarrow> 's \<Rightarrow> (int \<times> 's) option" where
  "tree_visit down up (TG x ts) d =
     unless_err (down x d) (\<lambda>d. unless_err (forest_visit down up ts d) (up x))"
| "forest_visit down up [] d = Some (0, d)"
| "forest_visit down up (t # ts) d = unless_err (tree_visit down up t d) (forest_visit down up ts)"

text \<open>What the walk does after it has left a group without an error.\<close>

definition walk_next :: "kst \<Rightarrow> 's visitor \<Rightarrow> 's visitor \<Rightarrow> tgid \<Rightarrow> tgid \<Rightarrow> 's \<Rightarrow> (int \<times> 's) option" where
  "walk_next s down up from x d =
     (if x = from then Some (0, d)
      else case tg_parent (task_groups s x) of
             None \<Rightarrow> Some (0, d)
           | Some g \<Rightarrow> Option.bind (siblings_after x (tg_children (task_groups s g))) (\<lambda>rest.
               case rest of [] \<Rightarrow> walk_loop s down up from False g d
                          | child # _ \<Rightarrow> walk_loop s down up from True child d))"

lemma walk_up:
  "walk_loop s down up from False x d = unless_err (up x d) (walk_next s down up from x)"
  by (subst walk_loop.simps) (auto simp: walk_next_def unless_err_def intro!: Option.bind_cong)

lemma walk_down:
  "walk_loop s down up from True x d =
     unless_err (down x d) (\<lambda>d. case tg_children (task_groups s x) of
         [] \<Rightarrow> walk_loop s down up from False x d
       | child # _ \<Rightarrow> walk_loop s down up from True child d)"
  by (subst walk_loop.simps) (auto simp: unless_err_def intro!: Option.bind_cong)

lemma siblings_after_split:
  "distinct (xs @ x # ys) \<Longrightarrow> siblings_after x (xs @ x # ys) = Some ys"
  by (induction xs) auto

lemma walk_tree:
  fixes down up :: "'s visitor"
  shows "\<lbrakk>tg_tree s t; distinct (nodes t); from \<notin> set (concat (map nodes (subtrees t)))\<rbrakk> \<Longrightarrow>
     walk_loop s down up from True (tg_root t) d =
       unless_err (tree_visit down up t d) (walk_next s down up from (tg_root t))"
  and "\<lbrakk>\<forall>t \<in> set ts. tg_parent (task_groups s (tg_root t)) = Some x \<and> tg_tree s t;
        tg_children (task_groups s x) = map tg_root (done @ ts); distinct (map tg_root (done @ ts));
        distinct (concat (map nodes ts)); from \<notin> set (concat (map nodes ts)); ts \<noteq> []\<rbrakk> \<Longrightarrow>
     walk_loop s down up from True (tg_root (hd ts)) d =
       unless_err (forest_visit down up ts d) (walk_loop s down up from False x)"
proof (induction down up t d and down up ts d arbitrary: and x "done"
    rule: tree_visit_forest_visit.induct)
  case (1 down up x ts d)
  have "walk_loop s down up from True x d =
      unless_err (down x d) (\<lambda>d. unless_err (forest_visit down up ts d) (walk_loop s down up from False x))"
  proof (subst walk_down, rule unless_err_cong)
    fix d' assume d': "down x d = Some (0, d')"
    show "(case tg_children (task_groups s x) of
         [] \<Rightarrow> walk_loop s down up from False x d'
       | child # _ \<Rightarrow> walk_loop s down up from True child d') =
       unless_err (forest_visit down up ts d') (walk_loop s down up from False x)"
    proof (cases ts)
      case Nil
      with 1 show ?thesis by simp
    next
      case (Cons u us)
      have "walk_loop s down up from True (tg_root (hd ts)) d' =
          unless_err (forest_visit down up ts d') (walk_loop s down up from False x)"
        using 1 d' Cons distinct_roots [of ts] by (intro "1.IH" [where ?x = x and ?done = "[]"]) auto
      with 1 Cons show ?thesis by simp
    qed
  qed simp
  moreover have "walk_loop s down up from False x = (\<lambda>d. unless_err (up x d) (walk_next s down up from x))"
    by (rule ext) (rule walk_up)
  ultimately show ?case by (simp add: unless_err_assoc)
next
  case (2 down up d)
  then show ?case by simp
next
  case (3 down up t ts d)
  have sib: "siblings_after (tg_root t) (tg_children (task_groups s x)) = Some (map tg_root ts)"
    using 3 siblings_after_split [of "map tg_root done" "tg_root t" "map tg_root ts"] by simp
  have "from \<noteq> tg_root t" using 3(7) root_in_nodes [of t] by auto
  then have nxt: "walk_next s down up from (tg_root t) d' =
      (case ts of [] \<Rightarrow> walk_loop s down up from False x d' | u # _ \<Rightarrow> walk_loop s down up from True (tg_root u) d')"
    for d' using 3(3) sib by (cases ts) (auto simp: walk_next_def)
  have "walk_loop s down up from True (tg_root t) d =
      unless_err (tree_visit down up t d) (walk_next s down up from (tg_root t))"
    using 3 by (intro "3.IH"(1)) (auto, cases t, auto)
  also have "\<dots> = unless_err (tree_visit down up t d)
      (\<lambda>d. unless_err (forest_visit down up ts d) (walk_loop s down up from False x))"
  proof (rule unless_err_cong)
    fix d' assume d': "tree_visit down up t d = Some (0, d')"
    show "walk_next s down up from (tg_root t) d' =
        unless_err (forest_visit down up ts d') (walk_loop s down up from False x)"
    proof (cases ts)
      case Nil
      then show ?thesis by (simp add: nxt)
    next
      case (Cons u us)
      have "walk_loop s down up from True (tg_root (hd ts)) d' =
          unless_err (forest_visit down up ts d') (walk_loop s down up from False x)"
        using 3 d' Cons by (intro "3.IH"(2) [where ?x = x and ?done = "done @ [t]"]) auto
      with Cons show ?thesis by (simp add: nxt)
    qed
  qed simp
  finally show ?case by (simp add: unless_err_assoc)
qed

lemma unless_err_return [simp]: "unless_err r (\<lambda>d. Some (0, d)) = r"
  by (cases r) (auto simp: unless_err_def)

lemma walk_from_tree:
  assumes "tg_tree s t" "distinct (nodes t)"
  shows "walk_tg_tree_from s (tg_root t) down up d = tree_visit down up t d"
proof -
  have "tg_root t \<notin> set (concat (map nodes (subtrees t)))" using assms(2) by (cases t) auto
  moreover have "walk_next s down up (tg_root t) (tg_root t) = (\<lambda>d. Some (0, d))"
    by (auto simp: walk_next_def)
  ultimately show ?thesis
    using walk_tree(1) [OF assms, of "tg_root t" down up d] by (simp add: walk_tg_tree_from_def)
qed

text \<open>C5: The walk with its two labels equals the recursive traversal of the tree that the parent
  and children pointers describe, for every pair of visitors, from whatever group it starts:
  down before and up after a group's children, stopping at the first error. It ends whenever
  the visitors return.\<close>

theorem walk_tg_tree_from_visits:
  assumes "tg_tree s t" "distinct (nodes t)"
  shows "walk_tg_tree_from s (tg_root t) down up d = tree_visit down up t d"
  using assms by (rule walk_from_tree)

text \<open>A machine with three groups: 5 and 7 below the root group.\<close>

definition group_sample :: kst where
  "group_sample = (bss 1)
     \<lparr>task_groups := (task_groups (bss 1))
        (0 := zero_task_group\<lparr>tg_children := [5, 7], tg_rt_period := 1000000000, tg_rt_runtime := 950000000\<rparr>,
         5 := zero_task_group\<lparr>tg_parent := Some 0, tg_rt_period := 1000000000, tg_rt_runtime := 400000000,
                             tg_rt_rq := (\<lambda>i. Some (Rq_of_group 5 i))\<rparr>,
         7 := zero_task_group\<lparr>tg_parent := Some 0, tg_rt_period := 1000000000, tg_rt_runtime := 300000000,
                             tg_rt_rq := (\<lambda>i. Some (Rq_of_group 7 i))\<rparr>),
      globals := (globals (bss 1))\<lparr>task_group_list := [7, 5, 0]\<rparr>\<rparr>"

definition sample_tree :: tgtree where
  "sample_tree = TG 0 [TG 5 [], TG 7 []]"

lemma group_sample_tree: "group_tree group_sample sample_tree"
  by (simp add: group_tree_def group_sample_def sample_tree_def root_task_group_def bss_def
      zero_task_group_def)

theorem walk_tg_tree_from_visits_witness:
  "walk_tg_tree_from group_sample 0 (\<lambda>tg d. Some (0, d @ [tg])) (\<lambda>tg d. Some (if tg = 7 then -1 else 0, d @ [tg + 100])) []
     = Some (-1, [0, 5, 105, 7, 107])"
  using walk_tg_tree_from_visits [of group_sample sample_tree
      "\<lambda>tg d. Some (0, d @ [tg])" "\<lambda>tg d. Some (if tg = 7 then -1 else 0, d @ [tg + 100])" "[]"]
    group_sample_tree
  by (simp add: group_tree_def sample_tree_def)

section \<open>Visitors that keep their data\<close>

fun first_err :: "int list \<Rightarrow> int" where
  "first_err [] = 0"
| "first_err (x # xs) = (if x \<noteq> 0 then x else first_err xs)"

lemma first_err_append [simp]:
  "first_err (xs @ ys) = (if first_err xs \<noteq> 0 then first_err xs else first_err ys)"
  by (induction xs) auto

lemma first_err_zero: "first_err xs = 0 \<longleftrightarrow> (\<forall>x \<in> set xs. x = 0)"
  by (induction xs) auto

lemma visit_first_err:
  shows "\<forall>x \<in> set (nodes t). down x d = Some (f x, d) \<Longrightarrow>
     tree_visit down tg_nop t d = Some (first_err (map f (nodes t)), d)"
  and "\<forall>x \<in> set (concat (map nodes ts)). down x d = Some (f x, d) \<Longrightarrow>
     forest_visit down tg_nop ts d = Some (first_err (map f (concat (map nodes ts))), d)"
proof (induction down "tg_nop :: tgid \<Rightarrow> 'a \<Rightarrow> (int \<times> 'a) option" t d and
    down "tg_nop :: tgid \<Rightarrow> 'a \<Rightarrow> (int \<times> 'a) option" ts d rule: tree_visit_forest_visit.induct)
  case (1 down x ts d)
  then show ?case by (auto simp: unless_err_def tg_nop_def)
next
  case (3 down t ts d)
  then show ?case by (auto simp: unless_err_def)
qed simp

section \<open>Exact shares of RT bandwidth\<close>

text \<open>The share of a period in units of a 2 to the 20th, in exact arithmetic.\<close>

definition rt_share :: "u64 \<times> u64 \<Rightarrow> nat" where
  "rt_share bw = (if snd bw = RUNTIME_INF then 2 ^ 20 else unat (snd bw) * 2 ^ 20 div unat (fst bw))"

definition rt_within :: "u64 \<times> u64 \<Rightarrow> bool" where
  "rt_within bw \<longleftrightarrow> snd bw \<le> fst bw \<or> snd bw = RUNTIME_INF"

text \<open>
  The condition on all groups: nobody has more runtime than its period or than the global limit,
  the children's shares fit into the parent's, and no group with RT tasks is without runtime.
\<close>

definition rt_admissible :: "genv \<Rightarrow> kst \<Rightarrow> tgid set \<Rightarrow> bool" where
  "rt_admissible G s X \<longleftrightarrow>
     (let bw = (\<lambda>x. (tg_rt_period (task_groups s x), tg_rt_runtime (task_groups s x))) in
      \<forall>x \<in> X. rt_within (bw x) \<and>
        rt_share (bw x) \<le> rt_share (global_rt_period s, global_rt_runtime s) \<and>
        (\<Sum>c \<leftarrow> tg_children (task_groups s x). rt_share (bw c)) \<le> rt_share (bw x) \<and>
        \<not> (rt_bandwidth_enabled s \<and> snd (bw x) = 0 \<and> tg_has_rt_tasks G s x))"

text \<open>What keeps the C arithmetic exact: no zero period, and runtimes below about five hours.\<close>

definition rt_bw_ok :: "u64 \<times> u64 \<Rightarrow> bool" where
  "rt_bw_ok bw \<longleftrightarrow> fst bw \<noteq> 0 \<and> (snd bw = RUNTIME_INF \<or> snd bw < 2 ^ 44)"

definition rt_globals_ok :: "kst \<Rightarrow> bool" where
  "rt_globals_ok s \<longleftrightarrow> rt_bw_ok (global_rt_period s, global_rt_runtime s) \<and>
     rt_within (global_rt_period s, global_rt_runtime s)"

lemma to_ratio_defined: "fst bw \<noteq> 0 \<Longrightarrow> \<exists>r. to_ratio (fst bw) (snd bw) = Some r"
  by (simp add: to_ratio_def)

lemma rt_share_le:
  assumes "rt_bw_ok bw" "rt_within bw"
  shows "rt_share bw \<le> 2 ^ 20"
proof (cases "snd bw = RUNTIME_INF")
  case False
  then have "unat (snd bw) \<le> unat (fst bw)" using assms(2) by (simp add: rt_within_def word_le_nat_alt)
  then have "unat (snd bw) * 2 ^ 20 div unat (fst bw) \<le> unat (fst bw) * 2 ^ 20 div unat (fst bw)"
    by (intro div_le_mono mult_le_mono1)
  also have "\<dots> \<le> 2 ^ 20" by (cases "unat (fst bw) = 0") auto
  finally show ?thesis using False by (simp add: rt_share_def)
qed (simp add: rt_share_def)

lemma to_ratio_share:
  assumes "rt_bw_ok bw" "rt_within bw" "to_ratio (fst bw) (snd bw) = Some r"
  shows "unat r = rt_share bw"
proof (cases "snd bw = RUNTIME_INF")
  case True
  then show ?thesis using assms by (auto simp: to_ratio_def rt_share_def)
next
  case False
  then have small: "snd bw < 2 ^ 44" and pos: "fst bw \<noteq> 0" using assms(1) by (auto simp: rt_bw_ok_def)
  have "unat (snd bw) < 2 ^ 44" using small by (simp add: word_less_nat_alt)
  then have shift: "unat (push_bit 20 (snd bw)) = unat (snd bw) * 2 ^ 20"
    using unat_mult_lem [of "snd bw" "1048576 :: u64"] by (simp add: push_bit_eq_mult)
  have r: "r = ucast (push_bit 20 (snd bw) div fst bw)"
    using assms(3) False pos by (simp add: to_ratio_def)
  have q: "unat (push_bit 20 (snd bw) div fst bw) = rt_share bw"
    using False by (simp add: unat_div shift rt_share_def)
  also have "\<dots> < 2 ^ 32" using rt_share_le [OF assms(1,2)] by simp
  finally show ?thesis using q r by (simp add: unsigned_ucast_eq take_bit_nat_eq_self)
qed

lemma rt_children_sum_defined:
  "\<forall>c \<in> set cs. fst (rt_bw_of s d c) \<noteq> 0 \<Longrightarrow> \<exists>r. rt_children_sum s d cs acc = Some r"
proof (induction cs arbitrary: acc)
  case (Cons c cs)
  with to_ratio_defined [of "rt_bw_of s d c"] show ?case by (auto split: prod.splits)
qed simp

lemma rt_children_sum_exact:
  assumes "\<forall>c \<in> set cs. rt_bw_ok (rt_bw_of s d c) \<and> rt_within (rt_bw_of s d c)"
    and "unat acc + length cs * 2 ^ 20 < 2 ^ 32" "rt_children_sum s d cs acc = Some r"
  shows "unat r = unat acc + (\<Sum>c \<leftarrow> cs. rt_share (rt_bw_of s d c))"
  using assms
proof (induction cs arbitrary: acc)
  case (Cons c cs)
  obtain x where x: "to_ratio (fst (rt_bw_of s d c)) (snd (rt_bw_of s d c)) = Some x"
    "rt_children_sum s d cs (acc + x) = Some r"
    using Cons.prems(3) by (auto split: prod.splits elim: bindE)
  have ok: "rt_bw_ok (rt_bw_of s d c)" "rt_within (rt_bw_of s d c)" using Cons.prems(1) by auto
  have ux: "unat x = rt_share (rt_bw_of s d c)" "unat x \<le> 2 ^ 20"
    using to_ratio_share [OF ok x(1)] rt_share_le [OF ok] by auto
  have add: "unat (acc + x) = unat acc + unat x"
    using Cons.prems(2) ux(2) by (intro unat_add_lem [THEN iffD1]) simp
  have "unat r = unat (acc + x) + (\<Sum>c \<leftarrow> cs. rt_share (rt_bw_of s d c))"
    using Cons.prems(1,2) x(2) ux(2) add by (intro Cons.IH) auto
  then show ?case by (simp add: add ux(1))
qed simp

section \<open>The admission test decides admissibility\<close>

text \<open>The state with the bandwidth under test in place; a test without a group changes nothing.\<close>

definition with_rt_bw :: "rt_schedulable_data \<Rightarrow> kst \<Rightarrow> kst" where
  "with_rt_bw d s =
     (case rsd_tg d of None \<Rightarrow> s
      | Some tg \<Rightarrow> upd_tg tg (\<lambda>g. g\<lparr>tg_rt_period := rsd_period d, tg_rt_runtime := rsd_runtime d\<rparr>) s)"

lemma with_rt_bw_simps [simp]:
  "globals (with_rt_bw d s) = globals s" "tasks (with_rt_bw d s) = tasks s"
  "rt_rqs (with_rt_bw d s) = rt_rqs s"
  "tg_children (task_groups (with_rt_bw d s) x) = tg_children (task_groups s x)"
  "tg_parent (task_groups (with_rt_bw d s) x) = tg_parent (task_groups s x)"
  "(tg_rt_period (task_groups (with_rt_bw d s) x), tg_rt_runtime (task_groups (with_rt_bw d s) x)) = rt_bw_of s d x"
  by (auto simp: with_rt_bw_def rt_bw_of_def split: option.splits)

lemma rt_globals_with_bw [simp]:
  "global_rt_period (with_rt_bw d s) = global_rt_period s"
  "global_rt_runtime (with_rt_bw d s) = global_rt_runtime s"
  "rt_bandwidth_enabled (with_rt_bw d s) = rt_bandwidth_enabled s"
  by (simp_all add: global_rt_period_def global_rt_runtime_def rt_bandwidth_enabled_def)

definition rt_bws_ok :: "kst \<Rightarrow> rt_schedulable_data \<Rightarrow> tgid set \<Rightarrow> bool" where
  "rt_bws_ok s d X \<longleftrightarrow> rt_globals_ok s \<and>
     (\<forall>x \<in> X. rt_bw_ok (rt_bw_of s d x) \<and> set (tg_children (task_groups s x)) \<subseteq> X \<and>
        length (tg_children (task_groups s x)) < 4096)"

lemma tg_rt_schedulable_eq:
  assumes "to_ratio (fst (rt_bw_of s d x)) (snd (rt_bw_of s d x)) = Some tot"
    and "to_ratio (global_rt_period s) (global_rt_runtime s) = Some limit"
    and "rt_children_sum s d (tg_children (task_groups s x)) 0 = Some csum"
  shows "tg_rt_schedulable G s x d = Some
     (if \<not> rt_within (rt_bw_of s d x) then - EINVAL
      else if rt_bandwidth_enabled s \<and> snd (rt_bw_of s d x) = 0 \<and> tg_has_rt_tasks G s x then - EBUSY
      else if limit < tot \<or> tot < csum then - EINVAL else 0, d)"
proof (cases "rt_bw_of s d x")
  case (Pair p r)
  have "(p < r \<and> r \<noteq> RUNTIME_INF) = (\<not> rt_within (p, r))" by (auto simp: rt_within_def)
  then show ?thesis using assms unfolding tg_rt_schedulable_def Pair by simp
qed

lemma rt_ratios_defined:
  assumes "rt_bws_ok s d X" "x \<in> X"
  obtains tot limit csum where
    "to_ratio (fst (rt_bw_of s d x)) (snd (rt_bw_of s d x)) = Some tot"
    "to_ratio (global_rt_period s) (global_rt_runtime s) = Some limit"
    "rt_children_sum s d (tg_children (task_groups s x)) 0 = Some csum"
proof -
  have nz: "\<forall>c \<in> X. fst (rt_bw_of s d c) \<noteq> 0" and sub: "set (tg_children (task_groups s x)) \<subseteq> X"
    and gl: "global_rt_period s \<noteq> 0"
    using assms by (auto simp: rt_bws_ok_def rt_bw_ok_def rt_globals_ok_def)
  obtain tot where 1: "to_ratio (fst (rt_bw_of s d x)) (snd (rt_bw_of s d x)) = Some tot"
    using nz assms(2) to_ratio_defined by blast
  obtain limit where 2: "to_ratio (global_rt_period s) (global_rt_runtime s) = Some limit"
    using gl to_ratio_defined [of "(global_rt_period s, global_rt_runtime s)"] by auto
  obtain csum where 3: "rt_children_sum s d (tg_children (task_groups s x)) 0 = Some csum"
    using nz sub rt_children_sum_defined by (metis subsetD)
  show thesis using 1 2 3 by (rule that)
qed

lemma tg_rt_schedulable_zero:
  assumes ok: "rt_bws_ok s d X" "x \<in> X" and within: "\<forall>c \<in> X. rt_within (rt_bw_of s d c)"
    and run: "tg_rt_schedulable G s x d = Some (ret, d)"
  shows "ret = 0 \<longleftrightarrow>
     rt_share (rt_bw_of s d x) \<le> rt_share (global_rt_period s, global_rt_runtime s) \<and>
     (\<Sum>c \<leftarrow> tg_children (task_groups s x). rt_share (rt_bw_of s d c)) \<le> rt_share (rt_bw_of s d x) \<and>
     \<not> (rt_bandwidth_enabled s \<and> snd (rt_bw_of s d x) = 0 \<and> tg_has_rt_tasks G s x)"
proof -
  obtain tot limit csum where r:
    "to_ratio (fst (rt_bw_of s d x)) (snd (rt_bw_of s d x)) = Some tot"
    "to_ratio (global_rt_period s) (global_rt_runtime s) = Some limit"
    "rt_children_sum s d (tg_children (task_groups s x)) 0 = Some csum"
    using rt_ratios_defined [OF ok] .
  have bw: "\<forall>c \<in> X. rt_bw_ok (rt_bw_of s d c)" "set (tg_children (task_groups s x)) \<subseteq> X"
    and gl: "rt_bw_ok (global_rt_period s, global_rt_runtime s)"
      "rt_within (global_rt_period s, global_rt_runtime s)"
    and len: "length (tg_children (task_groups s x)) < 4096"
    using ok by (auto simp: rt_bws_ok_def rt_globals_ok_def)
  have okx: "rt_bw_ok (rt_bw_of s d x)" "rt_within (rt_bw_of s d x)" using bw(1) within ok(2) by auto
  have ch: "\<forall>c \<in> set (tg_children (task_groups s x)). rt_bw_ok (rt_bw_of s d c) \<and> rt_within (rt_bw_of s d c)"
    using bw within by blast
  have ut: "unat tot = rt_share (rt_bw_of s d x)" using to_ratio_share okx r(1) by blast
  have ul: "unat limit = rt_share (global_rt_period s, global_rt_runtime s)"
    using to_ratio_share [OF gl] r(2) by simp
  have us: "unat csum = (\<Sum>c \<leftarrow> tg_children (task_groups s x). rt_share (rt_bw_of s d c))"
    using rt_children_sum_exact [OF ch _ r(3)] len by simp
  have "ret = (if rt_bandwidth_enabled s \<and> snd (rt_bw_of s d x) = 0 \<and> tg_has_rt_tasks G s x then - EBUSY
      else if limit < tot \<or> tot < csum then - EINVAL else 0)"
    using run okx(2) by (simp add: tg_rt_schedulable_eq [OF r])
  then show ?thesis
    by (simp add: EINVAL_def EBUSY_def word_less_nat_alt not_less ut ul us split: if_splits)
qed

lemma tg_has_rt_tasks_with_bw [simp]: "tg_has_rt_tasks G (with_rt_bw d s) = tg_has_rt_tasks G s"
  by (rule ext) (simp add: tg_has_rt_tasks_def rt_task_def task_cpu_def)

lemma rt_admissible_with_bw:
  "rt_admissible G (with_rt_bw d s) X \<longleftrightarrow>
     (\<forall>x \<in> X. rt_within (rt_bw_of s d x) \<and>
        rt_share (rt_bw_of s d x) \<le> rt_share (global_rt_period s, global_rt_runtime s) \<and>
        (\<Sum>c \<leftarrow> tg_children (task_groups s x). rt_share (rt_bw_of s d c)) \<le> rt_share (rt_bw_of s d x) \<and>
        \<not> (rt_bandwidth_enabled s \<and> snd (rt_bw_of s d x) = 0 \<and> tg_has_rt_tasks G s x))"
  by (simp add: rt_admissible_def Let_def)

lemma rt_schedulable_decides:
  assumes tree: "tg_tree s t" "distinct (nodes t)" "tg_root t = root_task_group"
    and ok: "rt_bws_ok s \<lparr>rsd_tg = tg, rsd_period = period, rsd_runtime = runtime\<rparr> (set (nodes t))"
  shows "\<exists>ret. rt_schedulable G s tg period runtime = Some ret \<and>
     (ret = 0 \<longleftrightarrow> rt_admissible G (with_rt_bw \<lparr>rsd_tg = tg, rsd_period = period, rsd_runtime = runtime\<rparr> s)
                    (set (nodes t)))"
proof -
  define d where "d = \<lparr>rsd_tg = tg, rsd_period = period, rsd_runtime = runtime\<rparr>"
  note ok = ok [folded d_def]
  define f where "f x = fst (the (tg_rt_schedulable G s x d))" for x
  have eq: "tg_rt_schedulable G s x d = Some
     (if \<not> rt_within (rt_bw_of s d x) then - EINVAL else f x, d)" if x: "x \<in> set (nodes t)" for x
  proof -
    obtain tot limit csum where r:
      "to_ratio (fst (rt_bw_of s d x)) (snd (rt_bw_of s d x)) = Some tot"
      "to_ratio (global_rt_period s) (global_rt_runtime s) = Some limit"
      "rt_children_sum s d (tg_children (task_groups s x)) 0 = Some csum"
      using rt_ratios_defined [OF ok x] .
    show ?thesis by (simp add: f_def tg_rt_schedulable_eq [OF r])
  qed
  then have def: "tg_rt_schedulable G s x d = Some (f x, d)" if "x \<in> set (nodes t)" for x
    using that by (simp add: f_def)
  have sched: "rt_schedulable G s tg period runtime = Some (first_err (map f (nodes t)))"
    using visit_first_err(1) [of t "tg_rt_schedulable G s" d f] def walk_from_tree [OF tree(1,2), of "tg_rt_schedulable G s" tg_nop d] tree(3)
    by (simp add: rt_schedulable_def walk_tg_tree_def d_def [symmetric])
  have "(\<forall>x \<in> set (nodes t). f x = 0) \<longleftrightarrow> rt_admissible G (with_rt_bw d s) (set (nodes t))"
  proof (cases "\<forall>c \<in> set (nodes t). rt_within (rt_bw_of s d c)")
    case True
    with tg_rt_schedulable_zero [OF ok _ True def] show ?thesis
      by (auto simp: rt_admissible_with_bw)
  next
    case False
    then obtain c where c: "c \<in> set (nodes t)" "\<not> rt_within (rt_bw_of s d c)" by blast
    then have "f c \<noteq> 0" using eq [OF c(1)] def [OF c(1)] by (simp add: EINVAL_def)
    with c show ?thesis by (auto simp: rt_admissible_with_bw)
  qed
  then show ?thesis using sched by (simp add: first_err_zero d_def)
qed

section \<open>Setting RT bandwidth keeps admissibility\<close>

lemma set_rt_runtimes_eq:
  assumes "\<forall>i \<in> set is. tg_rt_rq (task_groups s tg) i \<noteq> None"
  shows "set_rt_runtimes tg runtime is s = Some (s\<lparr>rt_rqs := (\<lambda>q.
     if Some q \<in> tg_rt_rq (task_groups s tg) ` set is then (rt_rqs s q)\<lparr>rt_runtime := runtime\<rparr> else rt_rqs s q)\<rparr>)"
  using assms
proof (induction "is" arbitrary: s)
  case (Cons i "is")
  then show ?case by (auto simp: fun_eq_iff intro!: kst.fold_congs)
qed simp

lemma with_rt_bw_tg:
  "with_rt_bw \<lparr>rsd_tg = Some tg, rsd_period = p, rsd_runtime = r\<rparr> s =
     upd_tg tg (\<lambda>g. g\<lparr>tg_rt_period := p, tg_rt_runtime := r\<rparr>) s"
  by (simp add: with_rt_bw_def)

lemma rt_admissible_rt_rqs:
  assumes "\<forall>q. rt_tg (f q) = rt_tg (rt_rqs s q)"
  shows "rt_admissible G (s\<lparr>rt_rqs := f\<rparr>) X = rt_admissible G s X"
  using assms
  by (simp add: rt_admissible_def tg_has_rt_tasks_def rt_task_def task_cpu_def global_rt_period_def
      global_rt_runtime_def rt_bandwidth_enabled_def)

lemma tg_set_rt_bandwidth_spec:
  assumes tree: "tg_tree s t" "distinct (nodes t)" "tg_root t = root_task_group"
    and ok: "rt_bws_ok s \<lparr>rsd_tg = Some tg, rsd_period = period, rsd_runtime = runtime\<rparr> (set (nodes t))"
    and rqs: "\<forall>i < nr_cpus s. tg_rt_rq (task_groups s tg) i \<noteq> None"
  shows "\<exists>err s'. tg_set_rt_bandwidth G tg period runtime s = Some (err, s') \<and>
     (if rt_admissible G (upd_tg tg (\<lambda>g. g\<lparr>tg_rt_period := period, tg_rt_runtime := runtime\<rparr>) s) (set (nodes t))
      then err = 0 \<and> rt_admissible G s' (set (nodes t)) \<and>
           tg_rt_period (task_groups s' tg) = period \<and> tg_rt_runtime (task_groups s' tg) = runtime \<and>
           (\<forall>i < nr_cpus s. \<forall>q. tg_rt_rq (task_groups s tg) i = Some q \<longrightarrow> rt_runtime (rt_rqs s' q) = runtime)
      else err \<noteq> 0 \<and> s' = s)"
proof -
  define s1 where "s1 = upd_tg tg (\<lambda>g. g\<lparr>tg_rt_period := period, tg_rt_runtime := runtime\<rparr>) s"
  obtain err where err: "rt_schedulable G s (Some tg) period runtime = Some err"
    "err = 0 \<longleftrightarrow> rt_admissible G s1 (set (nodes t))"
    using rt_schedulable_decides [OF tree ok] by (auto simp: with_rt_bw_tg s1_def)
  show ?thesis
  proof (cases "err = 0")
    case True
    define s2 where "s2 = s1\<lparr>rt_rqs := (\<lambda>q. if Some q \<in> tg_rt_rq (task_groups s1 tg) ` set [0..<nr_cpus s]
       then (rt_rqs s1 q)\<lparr>rt_runtime := runtime\<rparr> else rt_rqs s1 q)\<rparr>"
    have "set_rt_runtimes tg runtime [0..<nr_cpus s] s1 = Some s2"
      unfolding s2_def using rqs by (intro set_rt_runtimes_eq) (auto simp: s1_def)
    then have "tg_set_rt_bandwidth G tg period runtime s = Some (0, s2)"
      using err(1) True by (simp add: tg_set_rt_bandwidth_def s1_def)
    moreover have "rt_admissible G s2 (set (nodes t))"
      using err(2) True unfolding s2_def by (subst rt_admissible_rt_rqs) auto
    moreover have "tg_rt_period (task_groups s2 tg) = period" "tg_rt_runtime (task_groups s2 tg) = runtime"
      "\<forall>i < nr_cpus s. \<forall>q. tg_rt_rq (task_groups s tg) i = Some q \<longrightarrow> rt_runtime (rt_rqs s2 q) = runtime"
      by (auto simp: s2_def s1_def image_iff) (metis atLeastLessThan_iff le0)
    ultimately show ?thesis using err(2) True by (simp add: s1_def)
  next
    case False
    then have "tg_set_rt_bandwidth G tg period runtime s = Some (err, s)"
      using err(1) by (simp add: tg_set_rt_bandwidth_def)
    then show ?thesis using err(2) False by (simp add: s1_def)
  qed
qed

text \<open>C6: Setting a group's RT bandwidth, on any tree of groups whose periods are not zero, whose
  runtimes are unlimited or below 2 to the 44th nanoseconds and whose groups have fewer than 4096
  children: it returns, and it decides exactly (no rounding by wrap-around) whether all groups are
  admissible with the new values. If they are, it stores them in the group and in its run-queue on
  every CPU and the groups are admissible afterwards; if not, it returns an error and changes
  nothing.\<close>

theorem tg_set_rt_bandwidth_correct:
  assumes "tg_tree s t" "distinct (nodes t)" "tg_root t = root_task_group"
    and "rt_bws_ok s \<lparr>rsd_tg = Some tg, rsd_period = period, rsd_runtime = runtime\<rparr> (set (nodes t))"
    and "\<forall>i < nr_cpus s. tg_rt_rq (task_groups s tg) i \<noteq> None"
  shows "\<exists>err s'. tg_set_rt_bandwidth G tg period runtime s = Some (err, s') \<and>
     (if rt_admissible G (upd_tg tg (\<lambda>g. g\<lparr>tg_rt_period := period, tg_rt_runtime := runtime\<rparr>) s) (set (nodes t))
      then err = 0 \<and> rt_admissible G s' (set (nodes t)) \<and>
           tg_rt_period (task_groups s' tg) = period \<and> tg_rt_runtime (task_groups s' tg) = runtime \<and>
           (\<forall>i < nr_cpus s. \<forall>q. tg_rt_rq (task_groups s tg) i = Some q \<longrightarrow> rt_runtime (rt_rqs s' q) = runtime)
      else err \<noteq> 0 \<and> s' = s)"
  using assms by (rule tg_set_rt_bandwidth_spec)

definition sample_genv :: genv where
  "sample_genv =
     \<lparr>kcore = sample_kenv, kzalloc_tg = (\<lambda>_. Some 9), rt_alloc_ok = (\<lambda>_. True),
      alloc_fair_sched_group = (\<lambda>_ _ s. (True, s)), task_css_tg = (\<lambda>_ _. 5),
      autogroup_task_group = (\<lambda>_ tg. tg), op_task_move_group = (\<lambda>_. None), all_threads = [2, 3],
      proc_dointvec = (\<lambda>_ s. (0, s)), cgroup_tg = (\<lambda>c. c), cgroup_parent = (\<lambda>_. Some 0),
      cred_suid = (\<lambda>_. 1000), account_cfs_bandwidth_used = (\<lambda>_ _ s. s),
      refill_cfs_bandwidth_runtime = (\<lambda>_ s. s), start_cfs_bandwidth = (\<lambda>_ s. s),
      unthrottle_cfs_rq = (\<lambda>_ _ s. s), sched_group_set_shares = (\<lambda>_ _ s. (0, s))\<rparr>"

lemma group_sample_bws:
  "runtime < 2 ^ 44 \<Longrightarrow> rt_bws_ok group_sample \<lparr>rsd_tg = Some 5, rsd_period = 1000000000, rsd_runtime = runtime\<rparr>
     (set (nodes sample_tree))"
  by (simp add: rt_bws_ok_def rt_globals_ok_def rt_bw_ok_def rt_within_def rt_bw_of_def
      global_rt_period_def global_rt_runtime_def NSEC_PER_USEC_def group_sample_def bss_def
      sample_tree_def zero_task_group_def)

text \<open>Group 5 may have 600 of every 1000 milliseconds but not 700: group 7 has 300, the root 950.\<close>

lemma group_sample_admissible:
  "rt_admissible sample_genv
     (upd_tg 5 (\<lambda>g. g\<lparr>tg_rt_period := 1000000000, tg_rt_runtime := runtime\<rparr>) group_sample) {0, 5, 7}
   \<longleftrightarrow> runtime = 600000000" if "runtime \<in> {600000000, 700000000}"
  using that
  by (auto simp: rt_admissible_def rt_within_def rt_share_def RUNTIME_INF_def group_sample_def bss_def
      zero_task_group_def global_rt_period_def global_rt_runtime_def NSEC_PER_USEC_def sample_genv_def
      tg_has_rt_tasks_def rt_task_def rt_prio_def zero_task_def)

theorem tg_set_rt_bandwidth_correct_witness:
  "(\<exists>s'. tg_set_rt_bandwidth sample_genv 5 1000000000 600000000 group_sample = Some (0, s') \<and>
      tg_rt_runtime (task_groups s' 5) = 600000000 \<and> rt_runtime (rt_rqs s' (Rq_of_group 5 0)) = 600000000) \<and>
   (\<exists>err. tg_set_rt_bandwidth sample_genv 5 1000000000 700000000 group_sample = Some (err, group_sample) \<and> err \<noteq> 0)"
proof -
  note tree = group_sample_tree [unfolded group_tree_def]
  have set: "set (nodes sample_tree) = {0, 5, 7}" by (auto simp: sample_tree_def)
  have rqs: "\<forall>i < nr_cpus group_sample. tg_rt_rq (task_groups group_sample 5) i \<noteq> None"
    "tg_rt_rq (task_groups group_sample 5) 0 = Some (Rq_of_group 5 0)" "nr_cpus group_sample = 1"
    by (simp_all add: group_sample_def bss_def)
  from tree have t: "tg_tree group_sample sample_tree" "distinct (nodes sample_tree)"
    "tg_root sample_tree = root_task_group" by auto
  note ok = tg_set_rt_bandwidth_correct [OF t group_sample_bws rqs(1), of _ sample_genv, unfolded set]
  show ?thesis
    using ok [of 600000000] ok [of 700000000] rqs(2,3) by (auto simp: group_sample_admissible)
qed

section \<open>A gap in the admission test\<close>

text \<open>
  \<open>tg_has_rt_tasks\<close> compares a group with the group of the run-queue embedded in the task's \<open>rq\<close>,
  which is always the root group (\<open>sched_init\<close> sets it so). For every other group it therefore
  finds no RT task, and taking away the runtime of a group with RT tasks is not refused.
\<close>

lemma tg_has_rt_tasks_misses:
  assumes "\<forall>c. rt_tg (rt_rqs s (Rq_of_cpu c)) = Some root_task_group" "tg \<noteq> root_task_group"
  shows "\<not> tg_has_rt_tasks G s tg"
  using assms by (auto simp: tg_has_rt_tasks_def list_ex_iff)

text \<open>
  The write callbacks take 64-bit microseconds but hand them on as a 32-bit \<open>long\<close>: the upper half
  is lost without an error, so that a value of 2 to the 32nd sets a runtime of zero.
\<close>

lemma ucast_shift: "(ucast (4294967296 + v :: u64) :: ulong) = ucast v"
proof -
  have "uint (ucast (4294967296 + v :: u64) :: ulong) = uint (ucast v :: ulong)"
    by (simp add: unsigned_ucast_eq take_bit_eq_mod uint_word_ariths mod_mod_cancel)
  then show ?thesis by (simp only: word_uint_eq_iff)
qed

lemma cpu_writes_truncate:
  "cpu_rt_runtime_write G cgrp (4294967296 + v) s = cpu_rt_runtime_write G cgrp v s"
  "cpu_rt_period_write_uint G cgrp (4294967296 + v) s = cpu_rt_period_write_uint G cgrp v s"
  "cpu_cfs_quota_write_s64 G cgrp (4294967296 + v) s = cpu_cfs_quota_write_s64 G cgrp v s"
  "cpu_cfs_period_write_u64 G cgrp (4294967296 + v) s = cpu_cfs_period_write_u64 G cgrp v s"
proof -
  have "(ucast (4294967296 + v :: u64) :: ulong) = ucast v"
    by (rule ucast_shift)
  then show
    "cpu_rt_runtime_write G cgrp (4294967296 + v) s = cpu_rt_runtime_write G cgrp v s"
    "cpu_rt_period_write_uint G cgrp (4294967296 + v) s = cpu_rt_period_write_uint G cgrp v s"
    "cpu_cfs_quota_write_s64 G cgrp (4294967296 + v) s = cpu_cfs_quota_write_s64 G cgrp v s"
    "cpu_cfs_period_write_u64 G cgrp (4294967296 + v) s = cpu_cfs_period_write_u64 G cgrp v s"
    by (simp_all add: cpu_rt_runtime_write_def cpu_rt_period_write_uint_def cpu_cfs_quota_write_s64_def
        cpu_cfs_period_write_u64_def)
qed

end
