(* ===== verification/Core_Group_Tree.thy ===== *)
theory Core_Group_Tree
  imports Core_Group_Spec Safe_Run
begin

text \<open>
  The life of task groups: creating a group below another and destroying a group without
  children keep the parent and children pointers a tree over the list of groups.
\<close>

section \<open>Adding and removing a node\<close>

fun tree_add :: "tgid \<Rightarrow> tgid \<Rightarrow> tgtree \<Rightarrow> tgtree" where
  "tree_add p n (TG x ts) = TG x ((if x = p then [TG n []] else []) @ map (tree_add p n) ts)"

fun tree_del :: "tgid \<Rightarrow> tgtree \<Rightarrow> tgtree" where
  "tree_del n (TG x ts) = TG x (map (tree_del n) (filter (\<lambda>t. tg_root t \<noteq> n) ts))"

lemma tree_op_root [simp]: "tg_root (tree_add p n t) = tg_root t" "tg_root (tree_del n t) = tg_root t"
  by (cases t; simp)+

lemma tree_del_add: "n \<notin> set (nodes t) \<Longrightarrow> tree_del n (tree_add p n t) = t"
proof (induction t)
  case (TG x ts)
  then have "tg_root u \<noteq> n" if "u \<in> set ts" for u using that root_in_nodes [of u] by auto
  then have "filter (\<lambda>t. tg_root t \<noteq> n) (map (tree_add p n) ts) = map (tree_add p n) ts"
    by (auto intro!: filter_True)
  moreover have "map (tree_del n) (map (tree_add p n) ts) = ts"
    using TG by (auto intro!: map_idI)
  ultimately show ?case by simp
qed

lemma nodes_tree_add:
  "mset (nodes (tree_add p n t)) = mset (nodes t) + replicate_mset (count (mset (nodes t)) p) n"
proof (induction t)
  case (TG x ts)
  have "mset (concat (map nodes (map (tree_add p n) ts))) =
      mset (concat (map nodes ts)) + replicate_mset (count (mset (concat (map nodes ts))) p) n"
    using TG
  proof (induction ts)
    case (Cons t ts)
    then show ?case by (auto intro!: multiset_eqI)
  qed simp
  then show ?case by simp
qed

lemma tg_tree_add:
  assumes "tg_tree s t" "n \<notin> set (nodes t)" "n \<noteq> p"
    and "\<forall>x. tg_parent (task_groups s' x) = (if x = n then Some p else tg_parent (task_groups s x))"
    and "\<forall>x. tg_children (task_groups s' x) =
       (if x = n then [] else if x = p then n # tg_children (task_groups s p) else tg_children (task_groups s x))"
  shows "tg_tree s' (tree_add p n t)"
  using assms(1,2)
proof (induction t)
  case (TG x ts)
  have "tg_root u \<noteq> n" if "u \<in> set ts" for u using that root_in_nodes [of u] TG.prems(2) by auto
  then show ?case using TG assms(3-5) by (auto simp: comp_def)
qed

lemma tg_tree_del:
  assumes "tg_tree s t" "distinct (nodes t)" "tg_parent (task_groups s n) = Some p"
    and "\<forall>x. tg_parent (task_groups s' x) = tg_parent (task_groups s x)"
    and "\<forall>x. tg_children (task_groups s' x) =
       (if x = p then remove1 n (tg_children (task_groups s p)) else tg_children (task_groups s x))"
  shows "tg_tree s' (tree_del n t)"
  using assms(1,2)
proof (induction t)
  case (TG x ts)
  have dist: "distinct (map tg_root ts)" using TG.prems(2) distinct_roots by simp
  have roots: "map tg_root (filter (\<lambda>t. tg_root t \<noteq> n) ts) = remove1 n (map tg_root ts)"
    using dist by (simp add: distinct_remove1_removeAll removeAll_filter_not_eq filter_map comp_def eq_commute)
  have "filter (\<lambda>t. tg_root t \<noteq> n) ts = ts" if "x \<noteq> p"
    using TG.prems(1) assms(3) that by (auto intro!: filter_True)
  then have "tg_children (task_groups s' x) = map tg_root (filter (\<lambda>t. tg_root t \<noteq> n) ts)"
    using TG.prems(1) assms(5) roots by auto
  moreover have "tg_tree s' (tree_del n u)" if "u \<in> set ts" for u
    using that TG.prems by (intro TG.IH) (auto simp: distinct_concat_iff)
  ultimately show ?case using TG.prems(1) assms(4) by (auto simp: comp_def)
qed

lemma nodes_tree_del:
  assumes "tg_tree s t" "tg_children (task_groups s n) = []" "tg_root t \<noteq> n"
  shows "mset (nodes (tree_del n t)) = filter_mset (\<lambda>x. x \<noteq> n) (mset (nodes t))"
  using assms(1,3)
proof (induction t)
  case (TG x ts)
  have one: "filter_mset (\<lambda>x. x \<noteq> n) (mset (nodes u)) = {#}" if "u \<in> set ts" "tg_root u = n" for u
  proof (cases u)
    case (TG y us)
    moreover have "tg_tree s u" using that(1) TG.prems(1) by auto
    ultimately show ?thesis using that(2) assms(2) by simp
  qed
  have "mset (concat (map nodes (map (tree_del n) (filter (\<lambda>t. tg_root t \<noteq> n) us)))) =
      filter_mset (\<lambda>x. x \<noteq> n) (mset (concat (map nodes us)))" if "set us \<subseteq> set ts" for us
    using that
  proof (induction us)
    case (Cons u us)
    have "tg_root u \<noteq> n \<Longrightarrow> mset (nodes (tree_del n u)) = filter_mset (\<lambda>x. x \<noteq> n) (mset (nodes u))"
      using Cons.prems TG.prems(1) by (intro TG.IH) auto
    then show ?case using Cons one [of u] by auto
  qed simp
  from this [of ts] have "mset (concat (map nodes (map (tree_del n) (filter (\<lambda>t. tg_root t \<noteq> n) ts)))) =
      filter_mset (\<lambda>x. x \<noteq> n) (mset (concat (map nodes ts)))" by simp
  then show ?case using TG.prems(2) by simp
qed

section \<open>What the operations do to the pointers\<close>

text \<open>Everything but the new group's own part leaves pointers and the list of groups alone.\<close>

definition same_groups :: "kst \<Rightarrow> kst \<Rightarrow> bool" where
  "same_groups s s' \<longleftrightarrow>
     (\<forall>x. tg_parent (task_groups s' x) = tg_parent (task_groups s x) \<and>
          tg_children (task_groups s' x) = tg_children (task_groups s x)) \<and>
     task_group_list (globals s') = task_group_list (globals s) \<and> nr_cpus s' = nr_cpus s"

lemma same_groups_refl [simp]: "same_groups s s"
  by (simp add: same_groups_def)

lemma same_groups_trans [trans]: "same_groups s s' \<Longrightarrow> same_groups s' s'' \<Longrightarrow> same_groups s s''"
  by (simp add: same_groups_def)

lemma same_groups_updates [simp]:
  "same_groups s0 (s\<lparr>tasks := v1\<rparr>) = same_groups s0 s"
  "same_groups s0 (s\<lparr>rt_rqs := v2\<rparr>) = same_groups s0 s"
  "same_groups s0 (s\<lparr>rt_gses := v3\<rparr>) = same_groups s0 s"
  "same_groups s0 (s\<lparr>rt_list := v4\<rparr>) = same_groups s0 s"
  "same_groups s0 (s\<lparr>trace := v5\<rparr>) = same_groups s0 s"
  by (simp_all add: same_groups_def)

lemma same_groups_upd_tg [simp]:
  "task_groups s1 = task_groups s \<Longrightarrow> tg_parent g = tg_parent (task_groups s tg) \<Longrightarrow>
   tg_children g = tg_children (task_groups s tg) \<Longrightarrow>
   same_groups s0 (s\<lparr>task_groups := (task_groups s1)(tg := g)\<rparr>) = same_groups s0 s"
  by (auto simp: same_groups_def)

lemma tg_tree_cong:
  assumes "\<forall>x \<in> set (nodes t). tg_parent (task_groups s' x) = tg_parent (task_groups s x) \<and>
     tg_children (task_groups s' x) = tg_children (task_groups s x)"
  shows "tg_tree s' t = tg_tree s t"
  using assms
proof (induction t)
  case (TG x ts)
  have "tg_tree s' u = tg_tree s u" if "u \<in> set ts" for u using that TG by auto
  moreover have "tg_parent (task_groups s' (tg_root u)) = tg_parent (task_groups s (tg_root u))"
    if "u \<in> set ts" for u using that TG.prems root_in_nodes [of u] by auto
  ultimately show ?case using TG.prems by simp
qed

lemma same_groups_tree: "same_groups s s' \<Longrightarrow> group_tree s' t = group_tree s t"
  using tg_tree_cong [of t s' s] by (auto simp: same_groups_def group_tree_def)

lemma same_groups_ext [simp]: "same_groups s0 (ext e s) = same_groups s0 s"
  by (simp add: ext_def)

lemma same_groups_upd_rt_se [simp]: "same_groups s0 (upd_rt_se e f s) = same_groups s0 s"
  by (cases e) (simp_all add: upd_rt_se_def)

lemma same_groups_free: "same_groups s0 (free_sched_group tg s) = same_groups s0 s"
  by (simp add: free_sched_group_def free_rt_sched_group_def free_wrr_sched_group_def Let_def)

lemma same_groups_fold:
  "(\<And>x s. same_groups s0 (f x s) = same_groups s0 s) \<Longrightarrow> same_groups s0 (fold f xs s) = same_groups s0 s"
  by (induction xs arbitrary: s) auto

lemma same_groups_init_rt_rq [simp]: "same_groups s0 (init_rt_rq q s) = same_groups s0 s"
  by (simp add: init_rt_rq_def Let_def same_groups_fold)

lemma same_groups_init_tg_rt [simp]:
  "same_groups s0 (init_tg_rt_entry tg q e i pe s) = same_groups s0 s"
  by (cases e) (simp_all add: init_tg_rt_entry_def Let_def)

lemma same_groups_alloc_rt_loop:
  "same_groups s0 s \<Longrightarrow> same_groups s0 (snd (alloc_rt_loop ok tg parent is n s))"
  by (induction ok tg parent "is" n s rule: alloc_rt_loop.induct) (simp_all add: Let_def)

lemma same_groups_alloc_rt: "same_groups s0 s \<Longrightarrow> same_groups s0 (snd (alloc_rt_sched_group ok tg parent s))"
  by (simp add: alloc_rt_sched_group_def Let_def init_rt_bandwidth_def same_groups_alloc_rt_loop)

section \<open>Creating and destroying\<close>

lemma group_tree_nodes: "group_tree s t \<Longrightarrow> set (nodes t) = set (task_group_list (globals s))"
  unfolding group_tree_def by (metis set_mset_mset)

lemma node_parent:
  "tg_tree s t \<Longrightarrow> n \<in> set (nodes t) \<Longrightarrow> n \<noteq> tg_root t \<Longrightarrow>
     \<exists>p \<in> set (nodes t). tg_parent (task_groups s n) = Some p \<and> n \<in> set (tg_children (task_groups s p))"
proof (induction t)
  case (TG x ts)
  then obtain u where u: "u \<in> set ts" "n \<in> set (nodes u)" by auto
  show ?case
  proof (cases "n = tg_root u")
    case True
    then show ?thesis using u TG.prems(1) by auto
  next
    case False
    then show ?thesis using TG.IH [of u] u TG.prems(1) by auto
  qed
qed

text \<open>What the code relies on: \<open>kzalloc\<close> does not return a live group, and the fair class keeps to its
  own part.\<close>

definition alloc_laws :: "genv \<Rightarrow> bool" where
  "alloc_laws G \<longleftrightarrow>
     (\<forall>s tg. kzalloc_tg G s = Some tg \<longrightarrow> tg \<notin> set (task_group_list (globals s))) \<and>
     (\<forall>s tg p. same_groups s (snd (alloc_fair_sched_group G tg p s)))"

lemma create_keeps_tree:
  assumes tree: "group_tree s t" and laws: "alloc_laws G" and p: "parent \<in> set (nodes t)"
  shows "case sched_create_group G parent s of
     (Inl e, s') \<Rightarrow> e = - ENOMEM \<and> group_tree s' t
   | (Inr n, s') \<Rightarrow> n \<notin> set (nodes t) \<and> group_tree s' (tree_add parent n t) \<and>
       tg_children (task_groups s' n) = [] \<and> task_group_list (globals s') = n # task_group_list (globals s)"
proof (cases "kzalloc_tg G s")
  case None
  then show ?thesis using tree by (simp add: sched_create_group_def)
next
  case (Some n)
  then have fresh: "n \<notin> set (nodes t)"
    using laws group_tree_nodes [OF tree] by (auto simp: alloc_laws_def)
  define s1 where "s1 = upd_tg n (\<lambda>_. zero_task_group) s"
  have t1: "group_tree s1 t"
    using tree fresh tg_tree_cong [of t s1 s] by (auto simp: group_tree_def s1_def)
  obtain ok2 s2 where s2: "alloc_fair_sched_group G n parent s1 = (ok2, s2)" by (rule prod.exhaust)
  obtain ok3 s3 where s3: "alloc_rt_sched_group (rt_alloc_ok G) n parent s2 = (ok3, s3)" by (rule prod.exhaust)
  have same2: "same_groups s1 s2" using laws s2 by (metis alloc_laws_def snd_conv)
  have same3: "same_groups s1 s3" using same_groups_alloc_rt [OF same2] s3 by (metis snd_conv)
  have t3: "group_tree s3 t" using same3 t1 same_groups_tree by blast
  have "same_groups s1 (free_sched_group n s2)" "same_groups s1 (free_sched_group n s3)"
    using same2 same3 by (simp_all add: same_groups_free)
  then have free: "group_tree (free_sched_group n s2) t" "group_tree (free_sched_group n s3) t"
    using same_groups_tree t1 by blast+
  define s4 where "s4 = upd_tg parent (\<lambda>g. g\<lparr>tg_children := n # tg_children g\<rparr>)
     (upd_tg n (\<lambda>g. g\<lparr>tg_parent := Some parent, tg_children := []\<rparr>)
       (s3\<lparr>globals := (globals s3)\<lparr>task_group_list := n # task_group_list (globals s3)\<rparr>\<rparr>))"
  have "parent \<noteq> n" using p fresh by auto
  then have "tg_tree s4 (tree_add parent n t)"
    using t3 fresh by (intro tg_tree_add [of s3]) (auto simp: group_tree_def s4_def)
  moreover have ms: "mset (nodes (tree_add parent n t)) = mset (n # nodes t)"
    using p t3 count_mset_0_iff [of "nodes t" parent]
    by (simp add: nodes_tree_add group_tree_def distinct_count_atmost_1)
  moreover have "distinct (nodes (tree_add parent n t))"
    using mset_eq_imp_distinct_iff [OF ms] fresh t3 by (simp add: group_tree_def)
  ultimately have "group_tree s4 (tree_add parent n t)"
    using t3 by (simp add: group_tree_def s4_def)
  moreover have "tg_children (task_groups s4 n) = []" "task_group_list (globals s4) = n # task_group_list (globals s)"
    using same3 \<open>parent \<noteq> n\<close> by (simp_all add: s4_def same_groups_def s1_def)
  ultimately show ?thesis
    using Some free fresh s2 s3 \<open>parent \<noteq> n\<close>
    by (auto simp: sched_create_group_def s1_def [symmetric] s4_def alloc_wrr_sched_group_def Let_def
        fun_upd_twist)
qed

lemma destroy_keeps_tree:
  assumes tree: "group_tree s t" and n: "n \<in> set (nodes t)" "n \<noteq> root_task_group"
    and leaf: "tg_children (task_groups s n) = []"
  shows "\<exists>s'. sched_destroy_group n s = Some s' \<and> group_tree s' (tree_del n t)"
proof -
  obtain p where p: "tg_parent (task_groups s n) = Some p" "n \<in> set (tg_children (task_groups s p))"
    using node_parent [of s t n] tree n by (auto simp: group_tree_def)
  define s1 where "s1 = fold (\<lambda>i. ext (Group_cpu_note ''unregister_fair_sched_group'' n i)) [0..<nr_cpus s] s"
  have "same_groups s s1" unfolding s1_def by (subst same_groups_fold) auto
  then have s1: "task_group_list (globals s1) = task_group_list (globals s)"
    "\<forall>x. tg_parent (task_groups s1 x) = tg_parent (task_groups s x)"
    "\<forall>x. tg_children (task_groups s1 x) = tg_children (task_groups s x)"
    by (simp_all add: same_groups_def)
  define s2 where "s2 = ext (Group_note ''call_rcu'' n)
     (upd_tg p (\<lambda>g. g\<lparr>tg_children := remove1 n (tg_children g)\<rparr>)
       (s1\<lparr>globals := (globals s1)\<lparr>task_group_list := remove1 n (task_group_list (globals s1))\<rparr>\<rparr>))"
  have run: "sched_destroy_group n s = Some s2"
    using p n group_tree_nodes [OF tree] s1
    by (simp add: sched_destroy_group_def s1_def [symmetric] s2_def)
  have "tg_tree s2 (tree_del n t)"
    using tree p(1) s1 by (intro tg_tree_del [of s _ _ p]) (auto simp: group_tree_def s2_def ext_def)
  moreover have del: "mset (nodes (tree_del n t)) = filter_mset (\<lambda>x. x \<noteq> n) (mset (nodes t))"
    using tree n(2) leaf by (intro nodes_tree_del [of s]) (auto simp: group_tree_def)
  moreover have "distinct (nodes (tree_del n t))"
    using tree del by (metis distinct_filter group_tree_def mset_eq_imp_distinct_iff mset_filter)
  moreover have "mset (remove1 n (task_group_list (globals s))) = mset (nodes (tree_del n t))"
  proof -
    have "distinct (task_group_list (globals s))"
      using tree mset_eq_imp_distinct_iff unfolding group_tree_def by blast
    then have "remove1 n (task_group_list (globals s)) = filter (\<lambda>x. x \<noteq> n) (task_group_list (globals s))"
      by (simp add: distinct_remove1_removeAll removeAll_filter_not_eq eq_commute)
    then show ?thesis using tree del by (simp add: group_tree_def)
  qed
  ultimately have "group_tree s2 (tree_del n t)"
    using tree s1 by (simp add: group_tree_def s2_def ext_def)
  with run show ?thesis by blast
qed

text \<open>Destroying a group just created gives back the tree there was.\<close>

lemma create_destroy_tree:
  assumes "group_tree s t" "alloc_laws G" "parent \<in> set (nodes t)"
    and "sched_create_group G parent s = (Inr n, s')" "n \<noteq> root_task_group"
  shows "\<exists>s''. sched_destroy_group n s' = Some s'' \<and> group_tree s'' t"
proof -
  have n: "n \<notin> set (nodes t)" "group_tree s' (tree_add parent n t)" "tg_children (task_groups s' n) = []"
    using create_keeps_tree [OF assms(1-3)] assms(4) by auto
  have "n \<in># mset (nodes (tree_add parent n t))"
    using assms(3) by (simp add: nodes_tree_add del: set_mset_mset)
  then show ?thesis
    using destroy_keeps_tree [OF n(2), of n] n assms(5) tree_del_add [of n t parent] by simp
qed

section \<open>Runs\<close>

datatype group_event = Create_group tgid | Destroy_group tgid | Rcu_free tgid

text \<open>
  The cgroup core creates groups below live ones and removes only groups without children; what
  was destroyed is freed later.
\<close>

fun group_enabled :: "group_event \<Rightarrow> kst \<Rightarrow> bool" where
  "group_enabled (Create_group p) s \<longleftrightarrow> p \<in> set (task_group_list (globals s))"
| "group_enabled (Destroy_group n) s \<longleftrightarrow> n \<in> set (task_group_list (globals s)) \<and> n \<noteq> root_task_group \<and>
     tg_children (task_groups s n) = []"
| "group_enabled (Rcu_free n) s \<longleftrightarrow> n \<notin> set (task_group_list (globals s))"

fun group_exec :: "genv \<Rightarrow> group_event \<Rightarrow> kst \<Rightarrow> kst option" where
  "group_exec G (Create_group p) s = Some (snd (sched_create_group G p s))"
| "group_exec G (Destroy_group n) s = sched_destroy_group n s"
| "group_exec G (Rcu_free n) s = Some (free_sched_group_rcu n s)"

lemma group_event_law:
  assumes "alloc_laws G \<and> (\<exists>t. group_tree s t)" "group_enabled ev s"
  shows "\<exists>s'. group_exec G ev s = Some s' \<and> alloc_laws G \<and> (\<exists>t. group_tree s' t)"
proof -
  obtain t where t: "group_tree s t" using assms(1) by blast
  note nodes = group_tree_nodes [OF t]
  show ?thesis
  proof (cases ev)
    case (Create_group p)
    then have "p \<in> set (nodes t)" using assms(2) nodes by simp
    then have "\<exists>t'. group_tree (snd (sched_create_group G p s)) t'"
      using create_keeps_tree [OF t] assms(1) by (fastforce split: prod.splits sum.splits)
    then show ?thesis using Create_group assms(1) by simp
  next
    case (Destroy_group n)
    then show ?thesis using destroy_keeps_tree [OF t, of n] assms nodes by auto
  next
    case (Rcu_free n)
    have "same_groups s (free_sched_group n s)" by (simp add: same_groups_free)
    then have "group_tree (free_sched_group_rcu n s) t"
      using t same_groups_tree by (simp add: free_sched_group_rcu_def)
    then show ?thesis using Rcu_free assms(1) by auto
  qed
qed

interpretation group_events: safe_events "\<lambda>s. alloc_laws G \<and> (\<exists>t. group_tree s t)" group_enabled "group_exec G" for G
  by unfold_locales (rule group_event_law)

text \<open>C7: Whatever groups are created and destroyed, in whatever order and whether or not the
  allocations succeed, the parent and children pointers stay a tree rooted in the root group,
  over exactly the groups on the list of groups; and no such operation deletes an entry that is
  not linked. It relies on kzalloc not returning a live group.\<close>

theorem groups_stay_a_tree:
  assumes "(event_step group_enabled (group_exec G))\<^sup>*\<^sup>* s0 s" "group_tree s0 t0" "alloc_laws G"
  shows "(\<exists>t. group_tree s t) \<and> (\<forall>ev. group_enabled ev s \<longrightarrow> group_exec G ev s \<noteq> None)"
  using group_events.run_safe [of G s0 s] assms by blast

text \<open>An allocator that returns the number above all live groups.\<close>

definition tree_genv :: genv where
  "tree_genv = sample_genv\<lparr>kzalloc_tg := (\<lambda>s. Some (Suc (fold max (task_group_list (globals s)) 0)))\<rparr>"

lemma alloc_rt_ok: "(\<And>n. ok n) \<Longrightarrow> fst (alloc_rt_sched_group ok tg p s) = 1"
proof -
  assume ok: "\<And>n. ok n"
  have "fst (alloc_rt_loop ok tg p is n s) = 1" for "is" n s
    by (induction "is" arbitrary: n s) (simp_all add: ok Let_def)
  then show ?thesis by (simp add: alloc_rt_sched_group_def ok Let_def)
qed

lemma create_succeeds:
  assumes "kzalloc_tg G s = Some n" "\<And>tg p s. fst (alloc_fair_sched_group G tg p s)" "\<And>n. rt_alloc_ok G n"
  shows "\<exists>s'. sched_create_group G p s = (Inr n, s')"
proof -
  define s1 where "s1 = upd_tg n (\<lambda>_. zero_task_group) s"
  obtain s2 where s2: "alloc_fair_sched_group G n p s1 = (True, s2)"
    using assms(2) [of n p s1] by (cases "alloc_fair_sched_group G n p s1") simp
  obtain s3 where s3: "alloc_rt_sched_group (rt_alloc_ok G) n p s2 = (1, s3)"
    using alloc_rt_ok [of "rt_alloc_ok G" n p s2] assms(3)
    by (cases "alloc_rt_sched_group (rt_alloc_ok G) n p s2") simp
  show ?thesis
    by (simp add: sched_create_group_def assms(1) s1_def [symmetric] s2 s3 alloc_wrr_sched_group_def Let_def)
qed

lemma fold_max_bound: "x \<in> set xs \<or> x \<le> a \<Longrightarrow> (x :: nat) \<le> fold max xs a"
  by (induction xs arbitrary: a) (auto simp: le_max_iff_disj)

lemma tree_genv_laws: "alloc_laws tree_genv"
  using fold_max_bound by (fastforce simp: alloc_laws_def tree_genv_def sample_genv_def)

theorem groups_stay_a_tree_witness:
  "\<exists>s. group_exec tree_genv (Create_group 5) group_sample = Some s \<and> task_group_list (globals s) = [8, 7, 5, 0] \<and>
     (\<exists>t. group_tree s t) \<and> group_exec tree_genv (Destroy_group 8) s \<noteq> None"
proof -
  define s where "s = snd (sched_create_group tree_genv 5 group_sample)"
  obtain s' where "sched_create_group tree_genv 5 group_sample = (Inr 8, s')"
    using create_succeeds [of tree_genv group_sample 8 5]
    by (auto simp: tree_genv_def sample_genv_def group_sample_def)
  then have list: "task_group_list (globals s) = [8, 7, 5, 0]" and leaf: "tg_children (task_groups s 8) = []"
    using create_keeps_tree [OF group_sample_tree tree_genv_laws, of 5]
    by (simp_all add: s_def sample_tree_def group_sample_def)
  have "event_step group_enabled (group_exec tree_genv) group_sample s"
    unfolding s_def by (rule event_stepI [of _ "Create_group 5"]) (simp_all add: group_sample_def)
  then have run: "(event_step group_enabled (group_exec tree_genv))\<^sup>*\<^sup>* group_sample s" by blast
  have en: "group_enabled (Destroy_group 8) s" using list leaf by (simp add: root_task_group_def)
  have "(\<exists>t. group_tree s t) \<and> group_exec tree_genv (Destroy_group 8) s \<noteq> None"
    using groups_stay_a_tree [OF run group_sample_tree tree_genv_laws] en by blast
  moreover have "group_exec tree_genv (Create_group 5) group_sample = Some s" by (simp add: s_def)
  ultimately show ?thesis using list by blast
qed

end
