(* ===== verification/Core_Wait.thy ===== *)
theory Core_Wait
  imports Core_Schedule
begin

text \<open>
  Wait queues and completions (kernel/core.c), and the spinning on a mutex owner. A wait queue is
  the list of its entries; an entry on a sleeper's stack is known by its contents (the wake
  function, the sleeping task and whether it waits exclusively). Sleeping drops the queue's lock:
  what everyone else does to the queue and to the kernel meanwhile is the environment's.
\<close>

section \<open>Wait queues\<close>

datatype wake_fun = default_wake | other_wake nat

record waiter =
  wq_exclusive :: bool
  wq_private :: tid
  wq_func :: wake_fun

record completion =
  cdone :: u32
  cwait :: "waiter list"

text \<open>
  \<open>other_wake_function n w mode flags key s\<close> is a wake function of another file (the first component
  is its result, the second whether it has taken the entry off the queue). \<open>schedule_timeout\<close> and
  \<open>sleep_timeout\<close> are the call of \<open>schedule_timeout\<close> between unlocking and locking a completion
  or a queue.
\<close>

record wenv =
  wcore :: kenv
  other_wake_function :: "nat \<Rightarrow> waiter \<Rightarrow> u32 \<Rightarrow> u32 \<Rightarrow> nat option \<Rightarrow> kst \<Rightarrow> (bool \<times> bool \<times> kst) option"
  schedule_timeout :: "int \<Rightarrow> completion \<Rightarrow> kst \<Rightarrow> (int \<times> completion \<times> kst) option"
  sleep_timeout :: "int \<Rightarrow> waiter list \<Rightarrow> kst \<Rightarrow> (int \<times> waiter list \<times> kst) option"
  owner_spin_feat :: bool
  arch_mutex_cpu_relax :: "tid option \<Rightarrow> kst \<Rightarrow> tid option \<times> kst"

definition MAX_SCHEDULE_TIMEOUT :: int where "MAX_SCHEDULE_TIMEOUT = 2 ^ 31 - 1"

definition default_wake_function :: "wenv \<Rightarrow> waiter \<Rightarrow> u32 \<Rightarrow> u32 \<Rightarrow> kst \<Rightarrow> (bool \<times> kst) option" where
  "default_wake_function W w mode wake_flags s = try_to_wake_up (wcore W) (wq_private w) mode wake_flags s"

text \<open>The call \<open>curr->func(curr, mode, wake_flags, key)\<close>.\<close>

definition call_wake_func :: "wenv \<Rightarrow> waiter \<Rightarrow> u32 \<Rightarrow> u32 \<Rightarrow> nat option \<Rightarrow> kst \<Rightarrow> (bool \<times> bool \<times> kst) option" where
  "call_wake_func W w mode wake_flags key s =
     (case wq_func w of
        default_wake \<Rightarrow> do { (ret, s) \<leftarrow> default_wake_function W w mode wake_flags s; Some (ret, False, s) }
      | other_wake n \<Rightarrow> other_wake_function W n w mode wake_flags key s)"

text \<open>
  The result is the queue that is left and the new state. \<open>nr_exclusive\<close> counts down even from 0,
  so that 0 means everyone.
\<close>

fun wake_up_common :: "wenv \<Rightarrow> u32 \<Rightarrow> u32 \<Rightarrow> nat option \<Rightarrow> waiter list \<Rightarrow> int \<Rightarrow> kst \<Rightarrow> (waiter list \<times> kst) option" where
  "wake_up_common W mode wake_flags key [] nr s = Some ([], s)"
| "wake_up_common W mode wake_flags key (w # ws) nr s = do {
     (ret, gone, s) \<leftarrow> call_wake_func W w mode wake_flags key s;
     let nr' = (if ret \<and> wq_exclusive w then nr - 1 else nr);
     if ret \<and> wq_exclusive w \<and> nr' = 0 then Some ((if gone then [] else [w]) @ ws, s)
     else do {
       (left, s) \<leftarrow> wake_up_common W mode wake_flags key ws nr' s;
       Some ((if gone then [] else [w]) @ left, s)
     }
   }"

definition wake_up0 :: "wenv \<Rightarrow> u32 \<Rightarrow> int \<Rightarrow> nat option \<Rightarrow> waiter list \<Rightarrow> kst \<Rightarrow> (waiter list \<times> kst) option" where
  "wake_up0 W mode nr_exclusive key q s = wake_up_common W mode 0 key q nr_exclusive s"

definition wake_up_locked :: "wenv \<Rightarrow> u32 \<Rightarrow> int \<Rightarrow> waiter list \<Rightarrow> kst \<Rightarrow> (waiter list \<times> kst) option" where
  "wake_up_locked W mode nr q s = wake_up_common W mode 0 None q nr s"

definition wake_up_locked_key :: "wenv \<Rightarrow> u32 \<Rightarrow> nat option \<Rightarrow> waiter list \<Rightarrow> kst \<Rightarrow> (waiter list \<times> kst) option" where
  "wake_up_locked_key W mode key q s = wake_up_common W mode 0 key q 1 s"

text \<open>\<open>q\<close> is \<open>None\<close> for a NULL pointer.\<close>

definition wake_up_sync_key ::
  "wenv \<Rightarrow> u32 \<Rightarrow> int \<Rightarrow> nat option \<Rightarrow> waiter list option \<Rightarrow> kst \<Rightarrow> (waiter list option \<times> kst) option" where
  "wake_up_sync_key W mode nr_exclusive key q s =
     (case q of
        None \<Rightarrow> Some (None, s)
      | Some q \<Rightarrow> do {
          let wake_flags = (if nr_exclusive = 0 then 0 else WF_SYNC);
          (q, s) \<leftarrow> wake_up_common W mode wake_flags key q nr_exclusive s;
          Some (Some q, s)
        })"

definition wake_up_sync :: "wenv \<Rightarrow> u32 \<Rightarrow> int \<Rightarrow> waiter list option \<Rightarrow> kst \<Rightarrow> (waiter list option \<times> kst) option" where
  "wake_up_sync W mode nr_exclusive q s = wake_up_sync_key W mode nr_exclusive None q s"

section \<open>Completions\<close>

definition complete :: "wenv \<Rightarrow> completion \<Rightarrow> kst \<Rightarrow> (completion \<times> kst) option" where
  "complete W x s = do {
     let x = x\<lparr>cdone := cdone x + 1\<rparr>;
     (q, s) \<leftarrow> wake_up_common W TASK_NORMAL 0 None (cwait x) 1 s;
     Some (x\<lparr>cwait := q\<rparr>, s)
   }"

definition complete_all :: "wenv \<Rightarrow> completion \<Rightarrow> kst \<Rightarrow> (completion \<times> kst) option" where
  "complete_all W x s = do {
     let x = x\<lparr>cdone := cdone x + (- 1) div 2\<rparr>;
     (q, s) \<leftarrow> wake_up_common W TASK_NORMAL 0 None (cwait x) 0 s;
     Some (x\<lparr>cwait := q\<rparr>, s)
   }"

definition set_current_state :: "tid \<Rightarrow> u32 \<Rightarrow> kst \<Rightarrow> kst" where
  "set_current_state me st s = upd_task me (\<lambda>t. t\<lparr>tstate := st\<rparr>) s"

text \<open>\<open>me\<close> is the sleeping task; the loop sleeps at least once unless a signal is pending.\<close>

partial_function (option) wait_loop :: "wenv \<Rightarrow> tid \<Rightarrow> u32 \<Rightarrow> int \<Rightarrow> completion \<Rightarrow> kst \<Rightarrow> (int \<times> completion \<times> kst) option" where
  "wait_loop W me state timeout x s =
     (if signal_pending_state (wcore W) s state me then Some (- ERESTARTSYS, x, s)
      else
        Option.bind (schedule_timeout W timeout x (set_current_state me state s)) (\<lambda>(timeout, x, s).
          if cdone x = 0 \<and> timeout \<noteq> 0 then wait_loop W me state timeout x s
          else Some (timeout, x, s)))"

definition do_wait_for_common :: "wenv \<Rightarrow> completion \<Rightarrow> int \<Rightarrow> u32 \<Rightarrow> kst \<Rightarrow> (int \<times> completion \<times> kst) option" where
  "do_wait_for_common W x timeout state s =
     (let finish = (\<lambda>(timeout, x, s). Some (if timeout = 0 then 1 else timeout, x\<lparr>cdone := cdone x - 1\<rparr>, s)) in
      if cdone x \<noteq> 0 then finish (timeout, x, s)
      else
        let wait = \<lparr>wq_exclusive = True, wq_private = current s, wq_func = default_wake\<rparr>;
            x = x\<lparr>cwait := cwait x @ [wait]\<rparr> in
        do {
          (timeout, x, s) \<leftarrow> wait_loop W (current s) state timeout x s;
          if wait \<notin> set (cwait x) then None
          else let x = x\<lparr>cwait := remove1 wait (cwait x)\<rparr> in
            if cdone x = 0 then Some (timeout, x, s) else finish (timeout, x, s)
        })"

definition wait_for_common :: "wenv \<Rightarrow> completion \<Rightarrow> int \<Rightarrow> u32 \<Rightarrow> kst \<Rightarrow> (int \<times> completion \<times> kst) option" where
  "wait_for_common W x timeout state s = do_wait_for_common W x timeout state s"

definition wait_for_completion :: "wenv \<Rightarrow> completion \<Rightarrow> kst \<Rightarrow> (completion \<times> kst) option" where
  "wait_for_completion W x s =
     map_option snd (wait_for_common W x MAX_SCHEDULE_TIMEOUT TASK_UNINTERRUPTIBLE s)"

definition wait_for_completion_timeout :: "wenv \<Rightarrow> completion \<Rightarrow> ulong \<Rightarrow> kst \<Rightarrow> (ulong \<times> completion \<times> kst) option" where
  "wait_for_completion_timeout W x timeout s =
     map_option (\<lambda>(t, x, s). (word_of_int t, x, s)) (wait_for_common W x (sint timeout) TASK_UNINTERRUPTIBLE s)"

definition wait_for_completion_interruptible :: "wenv \<Rightarrow> completion \<Rightarrow> kst \<Rightarrow> (int \<times> completion \<times> kst) option" where
  "wait_for_completion_interruptible W x s = do {
     (t, x, s) \<leftarrow> wait_for_common W x MAX_SCHEDULE_TIMEOUT TASK_INTERRUPTIBLE s;
     if t = - ERESTARTSYS then Some (t, x, s) else Some (0, x, s)
   }"

definition wait_for_completion_interruptible_timeout ::
  "wenv \<Rightarrow> completion \<Rightarrow> ulong \<Rightarrow> kst \<Rightarrow> (int \<times> completion \<times> kst) option" where
  "wait_for_completion_interruptible_timeout W x timeout s =
     wait_for_common W x (sint timeout) TASK_INTERRUPTIBLE s"

definition wait_for_completion_killable :: "wenv \<Rightarrow> completion \<Rightarrow> kst \<Rightarrow> (int \<times> completion \<times> kst) option" where
  "wait_for_completion_killable W x s = do {
     (t, x, s) \<leftarrow> wait_for_common W x MAX_SCHEDULE_TIMEOUT TASK_KILLABLE s;
     if t = - ERESTARTSYS then Some (t, x, s) else Some (0, x, s)
   }"

definition wait_for_completion_killable_timeout ::
  "wenv \<Rightarrow> completion \<Rightarrow> ulong \<Rightarrow> kst \<Rightarrow> (int \<times> completion \<times> kst) option" where
  "wait_for_completion_killable_timeout W x timeout s =
     wait_for_common W x (sint timeout) TASK_KILLABLE s"

definition try_wait_for_completion :: "completion \<Rightarrow> bool \<times> completion" where
  "try_wait_for_completion x = (if cdone x = 0 then (False, x) else (True, x\<lparr>cdone := cdone x - 1\<rparr>))"

definition completion_done :: "completion \<Rightarrow> bool" where
  "completion_done x \<longleftrightarrow> cdone x \<noteq> 0"

section \<open>Sleeping on a queue\<close>

text \<open>\<open>__add_wait_queue\<close> puts the entry at the head of the queue.\<close>

definition sleep_on_common :: "wenv \<Rightarrow> waiter list \<Rightarrow> u32 \<Rightarrow> int \<Rightarrow> kst \<Rightarrow> (int \<times> waiter list \<times> kst) option" where
  "sleep_on_common W q state timeout s =
     (let wait = \<lparr>wq_exclusive = False, wq_private = current s, wq_func = default_wake\<rparr>;
          s = set_current_state (current s) state s in
      do {
        (timeout, q, s) \<leftarrow> sleep_timeout W timeout (wait # q) s;
        if wait \<notin> set q then None else Some (timeout, remove1 wait q, s)
      })"

definition interruptible_sleep_on :: "wenv \<Rightarrow> waiter list \<Rightarrow> kst \<Rightarrow> (waiter list \<times> kst) option" where
  "interruptible_sleep_on W q s =
     map_option snd (sleep_on_common W q TASK_INTERRUPTIBLE MAX_SCHEDULE_TIMEOUT s)"

definition interruptible_sleep_on_timeout :: "wenv \<Rightarrow> waiter list \<Rightarrow> int \<Rightarrow> kst \<Rightarrow> (int \<times> waiter list \<times> kst) option" where
  "interruptible_sleep_on_timeout W q timeout s = sleep_on_common W q TASK_INTERRUPTIBLE timeout s"

definition sleep_on :: "wenv \<Rightarrow> waiter list \<Rightarrow> kst \<Rightarrow> (waiter list \<times> kst) option" where
  "sleep_on W q s = map_option snd (sleep_on_common W q TASK_UNINTERRUPTIBLE MAX_SCHEDULE_TIMEOUT s)"

definition sleep_on_timeout :: "wenv \<Rightarrow> waiter list \<Rightarrow> int \<Rightarrow> kst \<Rightarrow> (int \<times> waiter list \<times> kst) option" where
  "sleep_on_timeout W q timeout s = sleep_on_common W q TASK_UNINTERRUPTIBLE timeout s"

section \<open>Spinning on the owner of a mutex\<close>

text \<open>The mutex is its owner field; others change it while the spinner relaxes.\<close>

definition owner_running :: "kst \<Rightarrow> tid option \<Rightarrow> tid \<Rightarrow> bool" where
  "owner_running s lock_owner p \<longleftrightarrow> (if lock_owner \<noteq> Some p then False else on_cpu (tasks s p))"

partial_function (option) spin_loop :: "wenv \<Rightarrow> tid \<Rightarrow> tid option \<Rightarrow> kst \<Rightarrow> (tid option \<times> kst) option" where
  "spin_loop W p lock_owner s =
     (if \<not> owner_running s lock_owner p then Some (lock_owner, s)
      else if test_tsk_need_resched s (current s) then Some (lock_owner, s)
      else let (lock_owner, s) = arch_mutex_cpu_relax W lock_owner s in spin_loop W p lock_owner s)"

definition mutex_spin_on_owner :: "wenv \<Rightarrow> tid option \<Rightarrow> tid \<Rightarrow> kst \<Rightarrow> (bool \<times> kst) option" where
  "mutex_spin_on_owner W lock_owner p s =
     (if \<not> owner_spin_feat W then Some (False, s)
      else do { (lock_owner, s) \<leftarrow> spin_loop W p lock_owner s; Some (lock_owner = None, s) })"

definition schedule_preempt_disabled :: "kenv \<Rightarrow> kst \<Rightarrow> kst option" where
  "schedule_preempt_disabled K s = do {
     let s = sub_preempt_count 1 s;
     s \<leftarrow> schedule K s;
     Some (add_preempt_count 1 s)
   }"

end
