(* ===== verification/Core_Wait_Spec.thy ===== *)
theory Core_Wait_Spec
  imports Core_Wait Core_Sched_Spec
begin

text \<open>
  Waking waiters: \<open>complete\<close> wakes exactly the first sleeper in the queue, \<open>complete_all\<close> all of
  them in order, and a waiter consumes one completion exactly when it reports success.
\<close>

section \<open>Waking a queue\<close>

lemma ttwu_true:
  assumes "tstate (tasks s p) AND state \<noteq> 0" "try_to_wake_up K p state fl s = Some (r, s')"
  shows r
  using assms by (auto simp: try_to_wake_up_def ttwu_remote_def elim!: bindE split: if_splits prod.splits)

lemma ttwu_awake: "tstate (tasks s p) AND state = 0 \<Longrightarrow> try_to_wake_up K p state fl s = Some (False, s)"
  by (simp add: try_to_wake_up_def)

definition sleeping :: "kst \<Rightarrow> u32 \<Rightarrow> waiter \<Rightarrow> bool" where
  "sleeping s mode w \<longleftrightarrow> tstate (tasks s (wq_private w)) AND mode \<noteq> 0"

lemma call_default_awake:
  "wq_func w = default_wake \<Longrightarrow> \<not> sleeping s mode w \<Longrightarrow> call_wake_func W w mode fl key s = Some (False, False, s)"
  by (simp add: call_wake_func_def default_wake_function_def ttwu_awake sleeping_def)

text \<open>Waking a task once: the state after it.\<close>

definition wake_task :: "wenv \<Rightarrow> u32 \<Rightarrow> u32 \<Rightarrow> waiter \<Rightarrow> kst \<Rightarrow> kst option" where
  "wake_task W mode fl w s = map_option snd (try_to_wake_up (wcore W) (wq_private w) mode fl s)"

lemma call_default_asleep:
  assumes "wq_func w = default_wake" "sleeping s mode w"
  shows "call_wake_func W w mode fl key s = map_option (\<lambda>s. (True, False, s)) (wake_task W mode fl w s)"
proof (cases "try_to_wake_up (wcore W) (wq_private w) mode fl s")
  case (Some rs)
  with assms have "fst rs" using ttwu_true unfolding sleeping_def by (metis prod.collapse)
  with Some assms show ?thesis
    by (cases rs) (simp add: call_wake_func_def default_wake_function_def wake_task_def)
qed (use assms in \<open>simp add: call_wake_func_def default_wake_function_def wake_task_def\<close>)

lemma pair_bind [simp]:
  "Option.bind (map_option (Pair q) r) (\<lambda>(left, s). Some (w # left, s)) = map_option (Pair (w # q)) r"
  "Option.bind r (\<lambda>s. Some (q, s)) = map_option (Pair q) r"
  by (cases r; simp)+

text \<open>With one exclusive wake-up: the first sleeper, and nobody behind it.\<close>

lemma wake_one:
  assumes "\<forall>w \<in> set q. wq_func w = default_wake \<and> wq_exclusive w"
  shows "wake_up_common W mode fl key q 1 s =
     (case List.find (sleeping s mode) q of
        None \<Rightarrow> Some (q, s)
      | Some w \<Rightarrow> map_option (\<lambda>s'. (q, s')) (wake_task W mode fl w s))"
  using assms
proof (induction q)
  case (Cons w ws)
  then show ?case
    by (cases "sleeping s mode w"; cases "wake_task W mode fl w s")
      (auto simp: call_default_asleep call_default_awake split: option.splits)
qed simp

text \<open>Without a count: every waiter in the order of the queue, each as the ones before left it.\<close>

fun wake_each :: "wenv \<Rightarrow> u32 \<Rightarrow> u32 \<Rightarrow> waiter list \<Rightarrow> kst \<Rightarrow> kst option" where
  "wake_each W mode fl [] s = Some s"
| "wake_each W mode fl (w # ws) s = do {
     s \<leftarrow> (if sleeping s mode w then wake_task W mode fl w s else Some s);
     wake_each W mode fl ws s
   }"

lemma wake_everyone:
  assumes "\<forall>w \<in> set q. wq_func w = default_wake" "nr \<le> 0"
  shows "wake_up_common W mode fl key q nr s = map_option (\<lambda>s'. (q, s')) (wake_each W mode fl q s)"
  using assms
proof (induction q arbitrary: nr s)
  case (Cons w ws)
  have IH: "wake_up_common W mode fl key ws n s = map_option (\<lambda>s'. (ws, s')) (wake_each W mode fl ws s)"
    if "n \<le> 0" for n s using Cons that by simp
  show ?case
  proof (cases "sleeping s mode w")
    case True
    then show ?thesis using Cons.prems
      by (cases "wake_task W mode fl w s")
        (auto simp: call_default_asleep IH Let_def option.map_comp comp_def bind_map_option split: option.splits
          intro: option.map_cong)
  next
    case False
    then show ?thesis using Cons.prems
      by (cases "wake_each W mode fl ws s") (auto simp: call_default_awake IH Let_def)
  qed
qed simp

text \<open>C28: Completing. On the queue of a completion, whose waiters all entered through
  do_wait_for_common, complete counts one completion and wakes exactly one task: the first
  one in the queue that is asleep; it touches nothing when all are awake. complete_all counts
  half the range of the counter and wakes every sleeper in the order in which they queued.
  Neither takes a waiter off the queue.\<close>

theorem complete_wakes_first:
  assumes "\<forall>w \<in> set (cwait x). wq_func w = default_wake \<and> wq_exclusive w"
  shows "complete W x s =
     map_option (\<lambda>s'. (x\<lparr>cdone := cdone x + 1\<rparr>, s'))
       (case List.find (sleeping s TASK_NORMAL) (cwait x) of
          None \<Rightarrow> Some s | Some w \<Rightarrow> wake_task W TASK_NORMAL 0 w s) \<and>
   complete_all W x s =
     map_option (\<lambda>s'. (x\<lparr>cdone := cdone x + 0x7FFFFFFF\<rparr>, s')) (wake_each W TASK_NORMAL 0 (cwait x) s)"
proof -
  have half: "(- 1 :: u32) div 2 = 0x7FFFFFFF" by simp
  have "complete W x s =
     map_option (\<lambda>s'. (x\<lparr>cdone := cdone x + 1\<rparr>, s'))
       (case List.find (sleeping s TASK_NORMAL) (cwait x) of
          None \<Rightarrow> Some s | Some w \<Rightarrow> wake_task W TASK_NORMAL 0 w s)"
  proof (cases "List.find (sleeping s TASK_NORMAL) (cwait x)")
    case None
    then show ?thesis by (simp add: complete_def wake_one assms)
  next
    case (Some w)
    then show ?thesis
      by (cases "wake_task W TASK_NORMAL 0 w s") (simp_all add: complete_def wake_one assms)
  qed
  moreover have "complete_all W x s =
     map_option (\<lambda>s'. (x\<lparr>cdone := cdone x + 0x7FFFFFFF\<rparr>, s')) (wake_each W TASK_NORMAL 0 (cwait x) s)"
    using assms by (cases "wake_each W TASK_NORMAL 0 (cwait x) s")
      (simp_all add: complete_all_def wake_everyone half Let_def)
  ultimately show ?thesis by blast
qed

text \<open>Tasks 2 and 3 wait; 2 is awake, so a completion would wake 3.\<close>

definition sample_waiter :: "tid \<Rightarrow> waiter" where
  "sample_waiter p = \<lparr>wq_exclusive = True, wq_private = p, wq_func = default_wake\<rparr>"

definition sample_wenv :: wenv where
  "sample_wenv =
     \<lparr>wcore = sample_kenv, other_wake_function = (\<lambda>_ _ _ _ _ s. Some (True, False, s)),
      schedule_timeout = (\<lambda>t x s. Some (max 0 (t - 1), x\<lparr>cdone := 1\<rparr>, s)),
      sleep_timeout = (\<lambda>t q s. Some (0, q, s)), owner_spin_feat = True,
      arch_mutex_cpu_relax = (\<lambda>_ s. (None, s))\<rparr>"

definition sample_sleeper :: kst where
  "sample_sleeper = upd_task 3 (\<lambda>t. t\<lparr>tstate := TASK_UNINTERRUPTIBLE\<rparr>) (upd_task 2 (\<lambda>t. t\<lparr>tstate := TASK_RUNNING\<rparr>) sample_core)"

theorem complete_wakes_first_witness:
  "complete sample_wenv \<lparr>cdone = 0, cwait = [sample_waiter 2, sample_waiter 3]\<rparr> sample_sleeper =
     map_option (\<lambda>s'. (\<lparr>cdone = 1, cwait = [sample_waiter 2, sample_waiter 3]\<rparr>, s'))
       (wake_task sample_wenv TASK_NORMAL 0 (sample_waiter 3) sample_sleeper)"
  using complete_wakes_first [of "\<lparr>cdone = 0, cwait = [sample_waiter 2, sample_waiter 3]\<rparr>" sample_wenv sample_sleeper]
  by (simp add: sample_waiter_def sleeping_def sample_sleeper_def task_state_defs)

section \<open>Waiting for a completion\<close>

text \<open>
  What the environment's sleep does: \<open>schedule_timeout\<close> returns the time that is left; a task that
  sleeps on a completion is woken by its timer, by a completion it finds, or by a signal; and
  nobody else takes a sleeper's entry off the queue.
\<close>

definition sleep_laws :: "wenv \<Rightarrow> tid \<Rightarrow> u32 \<Rightarrow> bool" where
  "sleep_laws W me state \<longleftrightarrow>
     (\<forall>t x s. 0 \<le> t \<longrightarrow> (\<exists>t' x' s'. schedule_timeout W t x s = Some (t', x', s') \<and> 0 \<le> t' \<and> t' \<le> t \<and>
        (t' < t \<or> t' = 0 \<or> cdone x' \<noteq> 0 \<or> signal_pending_state (wcore W) s' state me) \<and>
        set (cwait x) \<subseteq> set (cwait x')))"

text \<open>How the loop ends: a signal, or a sleep after which there is a completion or no time left.\<close>

definition wait_end :: "wenv \<Rightarrow> tid \<Rightarrow> u32 \<Rightarrow> int \<Rightarrow> completion \<Rightarrow> kst \<Rightarrow> bool" where
  "wait_end W me state t x s \<longleftrightarrow>
     (t = - ERESTARTSYS \<and> cdone x = 0 \<and> signal_pending_state (wcore W) s state me) \<or>
     (0 \<le> t \<and> (t = 0 \<or> cdone x \<noteq> 0) \<and>
      (\<exists>t0 x0 s0. schedule_timeout W t0 x0 s0 = Some (t, x, s)))"

lemma wait_loop_ends:
  assumes laws: "sleep_laws W me state"
  shows "0 \<le> t \<Longrightarrow> cdone x = 0 \<Longrightarrow> \<exists>t' x' s'. wait_loop W me state t x s = Some (t', x', s') \<and>
     wait_end W me state t' x' s' \<and> set (cwait x) \<subseteq> set (cwait x')"
proof (induction "nat t" arbitrary: t x s rule: less_induct)
  case less
  show ?case
  proof (cases "signal_pending_state (wcore W) s state me")
    case True
    then show ?thesis using less.prems by (subst wait_loop.simps) (auto simp: wait_end_def)
  next
    case False
    obtain t1 x1 s1 where s1: "schedule_timeout W t x (set_current_state me state s) = Some (t1, x1, s1)"
      "0 \<le> t1" "t1 \<le> t" "t1 < t \<or> t1 = 0 \<or> cdone x1 \<noteq> 0 \<or> signal_pending_state (wcore W) s1 state me"
      "set (cwait x) \<subseteq> set (cwait x1)"
      using laws less.prems(1) unfolding sleep_laws_def by blast
    have step: "wait_loop W me state t x s =
        (if cdone x1 = 0 \<and> t1 \<noteq> 0 then wait_loop W me state t1 x1 s1 else Some (t1, x1, s1))"
      using False s1(1) by (subst wait_loop.simps) simp
    show ?thesis
    proof (cases "cdone x1 = 0 \<and> t1 \<noteq> 0")
      case False
      then show ?thesis using step s1 by (auto simp: wait_end_def)
    next
      case True
      show ?thesis
      proof (cases "t1 < t")
        case lt: True
        then obtain t' x' s' where "wait_loop W me state t1 x1 s1 = Some (t', x', s')"
          "wait_end W me state t' x' s'" "set (cwait x1) \<subseteq> set (cwait x')"
          using less.hyps [of t1 x1 s1] s1(2) True by auto
        then show ?thesis using step True s1(5) by auto
      next
        case False
        then have "signal_pending_state (wcore W) s1 state me" using True s1(4) by blast
        then have "wait_loop W me state t1 x1 s1 = Some (- ERESTARTSYS, x1, s1)"
          by (subst wait_loop.simps) simp
        then show ?thesis
          using step True s1(5) \<open>signal_pending_state (wcore W) s1 state me\<close> by (auto simp: wait_end_def)
      qed
    qed
  qed
qed

text \<open>C13: Waiting for a completion always returns, when sleeps end by timer, completion or signal.
  If there is a completion already, one is consumed without sleeping. Otherwise the result is
  positive exactly when a completion was there after the last sleep, and then one is consumed;
  it is 0 when the time ran out and -ERESTARTSYS when a signal is pending, and then
  none is consumed. The waiter's entry is taken off the queue in each case.\<close>

theorem wait_for_common_outcome:
  assumes "sleep_laws W (current s) state" "0 \<le> timeout"
  shows "\<exists>r x' s'. wait_for_common W x timeout state s = Some (r, x', s') \<and>
     (if cdone x \<noteq> 0 then r = (if timeout = 0 then 1 else timeout) \<and> x' = x\<lparr>cdone := cdone x - 1\<rparr> \<and> s' = s
      else \<exists>t1 x1. wait_end W (current s) state t1 x1 s' \<and>
        cwait x' = remove1 \<lparr>wq_exclusive = True, wq_private = current s, wq_func = default_wake\<rparr> (cwait x1) \<and>
        (if cdone x1 \<noteq> 0 then r = (if t1 = 0 then 1 else t1) \<and> 0 < r \<and> cdone x' = cdone x1 - 1
         else r = t1 \<and> (r = 0 \<or> r = - ERESTARTSYS) \<and> cdone x' = 0))"
proof (cases "cdone x = 0")
  case False
  then show ?thesis by (simp add: wait_for_common_def do_wait_for_common_def Let_def)
next
  case True
  define w where "w = \<lparr>wq_exclusive = True, wq_private = current s, wq_func = default_wake\<rparr>"
  obtain t1 x1 s1 where run: "wait_loop W (current s) state timeout (x\<lparr>cwait := cwait x @ [w]\<rparr>) s = Some (t1, x1, s1)"
    "wait_end W (current s) state t1 x1 s1" "w \<in> set (cwait x1)"
    using wait_loop_ends [OF assms(1,2), of "x\<lparr>cwait := cwait x @ [w]\<rparr>" s] True by auto
  have "cdone x1 \<noteq> 0 \<Longrightarrow> 0 \<le> t1" "cdone x1 = 0 \<Longrightarrow> t1 = 0 \<or> t1 = - ERESTARTSYS"
    using run(2) by (auto simp: wait_end_def)
  moreover have "wait_for_common W x timeout state s = Some
     (if cdone x1 = 0 then (t1, x1\<lparr>cwait := remove1 w (cwait x1)\<rparr>, s1)
      else (if t1 = 0 then 1 else t1, x1\<lparr>cwait := remove1 w (cwait x1), cdone := cdone x1 - 1\<rparr>, s1))"
    using True run(1,3) by (simp add: wait_for_common_def do_wait_for_common_def w_def [symmetric] Let_def)
  ultimately show ?thesis
    using True run(2) unfolding w_def [symmetric]
    by (cases "cdone x1 = 0") (auto intro!: exI [of _ t1] exI [of _ x1])
qed

theorem wait_for_common_outcome_witness:
  "\<exists>r x' s'. wait_for_common sample_wenv \<lparr>cdone = 0, cwait = []\<rparr> 10 TASK_UNINTERRUPTIBLE sample_core = Some (r, x', s') \<and>
     0 < r \<and> cdone x' = 0"
proof -
  have laws: "sleep_laws sample_wenv (current sample_core) TASK_UNINTERRUPTIBLE"
    by (simp add: sleep_laws_def sample_wenv_def)
  have "\<not> signal_pending_state K s TASK_UNINTERRUPTIBLE p" for K s p
    by (simp add: signal_pending_state_def task_state_defs)
  moreover have "cdone x1 = 1" if "schedule_timeout sample_wenv t0 x0 s0 = Some (t1, x1, s1)" for t0 x0 s0 t1 x1 s1
    using that by (auto simp: sample_wenv_def)
  ultimately have "wait_end sample_wenv me TASK_UNINTERRUPTIBLE t1 x1 s1 \<Longrightarrow> cdone x1 = 1" for me t1 x1 s1
    unfolding wait_end_def by blast
  then show ?thesis
    using wait_for_common_outcome [OF laws, of 10 "\<lparr>cdone = 0, cwait = []\<rparr>"] by fastforce
qed

end
