(* ===== verification/Core_Cputime.thy ===== *)
theory Core_Cputime
  imports Core_Schedule
begin

text \<open>
  CPU time (kernel/core.c): the exact run time of a task, the accounting of ticks to tasks, to the
  CPU and to accounting groups, the scaled user and system times, and the files of the cpuacct
  cgroup. CONFIG_VIRT_CPU_ACCOUNTING, CONFIG_IRQ_TIME_ACCOUNTING and CONFIG_PARAVIRT are off.
  An accounting group is a number and 0 is \<open>root_cpuacct\<close>; \<open>cputime_t\<close> is a 32-bit word.
\<close>

section \<open>The environment of accounting\<close>

text \<open>
  Conversions between units of time, the state of interrupt handling, and the accounting of whole
  processes, which other files keep.
\<close>

record aenv =
  acore :: kenv
  cputime_to_scaled :: "ulong \<Rightarrow> ulong"
  cputime_one_jiffy :: ulong
  jiffies_to_cputime :: "ulong \<Rightarrow> ulong"
  nsecs_to_cputime :: "u64 \<Rightarrow> ulong"
  cputime64_to_clock_t :: "u64 \<Rightarrow> u64"
  irq_count :: "kst \<Rightarrow> int"
  hardirq_count :: "kst \<Rightarrow> int"
  in_serving_softirq :: "kst \<Rightarrow> bool"
  HARDIRQ_OFFSET :: int
  account_group_user_time :: "tid \<Rightarrow> ulong \<Rightarrow> kst \<Rightarrow> kst"
  account_group_system_time :: "tid \<Rightarrow> ulong \<Rightarrow> kst \<Rightarrow> kst"
  acct_update_integrals :: "tid \<Rightarrow> kst \<Rightarrow> kst"
  task_signal :: "tid \<Rightarrow> nat"
  thread_group_cputime :: "kst \<Rightarrow> tid \<Rightarrow> ulong \<times> ulong \<times> u64"
  cpu_present :: "cpu list"
  cpuacct_alloc :: "kst \<Rightarrow> nat option \<times> bool \<times> bool"
  cgroup_ca :: "nat \<Rightarrow> nat"
  ca_cgroup_parent :: "nat \<Rightarrow> nat option"

definition root_cpuacct :: nat where "root_cpuacct = 0"

abbreviation upd_times :: "tid \<Rightarrow> (task_cputimes \<Rightarrow> task_cputimes) \<Rightarrow> kst \<Rightarrow> kst" where
  "upd_times p f s \<equiv> upd_task p (\<lambda>t. t\<lparr>cputimes := f (cputimes t)\<rparr>) s"

section \<open>Run time not yet accounted\<close>

definition do_task_delta_exec :: "aenv \<Rightarrow> tid \<Rightarrow> cpu \<Rightarrow> kst \<Rightarrow> u64 \<times> kst" where
  "do_task_delta_exec A p c s =
     (if task_current s c p then
        let s = update_rq_clock (acore A) c s;
            ns = clock_task (rqs s c) - exec_start (se (tasks s p))
        in (if ns <s 0 then 0 else ns, s)
      else (0, s))"

definition task_delta_exec :: "aenv \<Rightarrow> tid \<Rightarrow> kst \<Rightarrow> u64 \<times> kst" where
  "task_delta_exec A p s = do_task_delta_exec A p (task_cpu s p) s"

definition task_sched_runtime :: "aenv \<Rightarrow> tid \<Rightarrow> kst \<Rightarrow> u64 \<times> kst" where
  "task_sched_runtime A p s =
     (let (ns, s) = do_task_delta_exec A p (task_cpu s p) s in (sum_exec_runtime (se (tasks s p)) + ns, s))"

section \<open>Accounting ticks\<close>

definition add_cpustat :: "cpu \<Rightarrow> cpu_usage_stat \<Rightarrow> u64 \<Rightarrow> kst \<Rightarrow> kst" where
  "add_cpustat c i tmp s = s\<lparr>kcpustat := (kcpustat s)(c := (kcpustat s c)(i := kcpustat s c i + tmp))\<rparr>"

definition add_ca_cpustat :: "cpu_usage_stat \<Rightarrow> u64 \<Rightarrow> nat \<Rightarrow> kst \<Rightarrow> kst" where
  "add_ca_cpustat i tmp ca s =
     s\<lparr>ca_cpustat := (ca_cpustat s)(ca := (ca_cpustat s ca)(this_cpu s :=
         (ca_cpustat s ca (this_cpu s))(i := ca_cpustat s ca (this_cpu s) i + tmp)))\<rparr>"

text \<open>\<open>ca_path\<close> is the chain of \<open>parent_ca\<close> pointers from the task's group; the root is passed over.\<close>

definition task_group_account_field :: "aenv \<Rightarrow> tid \<Rightarrow> cpu_usage_stat \<Rightarrow> u64 \<Rightarrow> kst \<Rightarrow> kst" where
  "task_group_account_field A p i tmp s =
     (let s = add_cpustat (this_cpu s) i tmp s in
      if \<not> cpuacct_active (base (acore A)) then s
      else fold (add_ca_cpustat i tmp) (takeWhile (\<lambda>ca. ca \<noteq> root_cpuacct) (ca_path (base (acore A)) p)) s)"

definition account_user_time :: "aenv \<Rightarrow> tid \<Rightarrow> ulong \<Rightarrow> ulong \<Rightarrow> kst \<Rightarrow> kst" where
  "account_user_time A p cputime cputime_scaled s =
     (let s = upd_times p (\<lambda>t. t\<lparr>utime := utime t + cputime\<rparr>) s;
          s = upd_times p (\<lambda>t. t\<lparr>utimescaled := utimescaled t + cputime_scaled\<rparr>) s;
          s = account_group_user_time A p cputime s;
          i = (if PRIO_TO_NICE (static_prio (tasks s p)) > 0 then CPUTIME_NICE else CPUTIME_USER);
          s = task_group_account_field A p i (ucast cputime) s
      in acct_update_integrals A p s)"

definition account_guest_time :: "aenv \<Rightarrow> tid \<Rightarrow> ulong \<Rightarrow> ulong \<Rightarrow> kst \<Rightarrow> kst" where
  "account_guest_time A p cputime cputime_scaled s =
     (let c = this_cpu s;
          s = upd_times p (\<lambda>t. t\<lparr>utime := utime t + cputime\<rparr>) s;
          s = upd_times p (\<lambda>t. t\<lparr>utimescaled := utimescaled t + cputime_scaled\<rparr>) s;
          s = account_group_user_time A p cputime s;
          s = upd_times p (\<lambda>t. t\<lparr>gtime := gtime t + cputime\<rparr>) s
      in if PRIO_TO_NICE (static_prio (tasks s p)) > 0
         then add_cpustat c CPUTIME_GUEST_NICE (ucast cputime) (add_cpustat c CPUTIME_NICE (ucast cputime) s)
         else add_cpustat c CPUTIME_GUEST (ucast cputime) (add_cpustat c CPUTIME_USER (ucast cputime) s))"

definition account_system_time0 :: "aenv \<Rightarrow> tid \<Rightarrow> ulong \<Rightarrow> ulong \<Rightarrow> cpu_usage_stat \<Rightarrow> kst \<Rightarrow> kst" where
  "account_system_time0 A p cputime cputime_scaled i s =
     (let s = upd_times p (\<lambda>t. t\<lparr>stime := stime t + cputime\<rparr>) s;
          s = upd_times p (\<lambda>t. t\<lparr>stimescaled := stimescaled t + cputime_scaled\<rparr>) s;
          s = account_group_system_time A p cputime s;
          s = task_group_account_field A p i (ucast cputime) s
      in acct_update_integrals A p s)"

definition account_system_time :: "aenv \<Rightarrow> tid \<Rightarrow> int \<Rightarrow> ulong \<Rightarrow> ulong \<Rightarrow> kst \<Rightarrow> kst" where
  "account_system_time A p hardirq_offset cputime cputime_scaled s =
     (if tflags (tasks s p) AND PF_VCPU \<noteq> 0 \<and> irq_count A s - hardirq_offset = 0
      then account_guest_time A p cputime cputime_scaled s
      else
        let i = (if hardirq_count A s - hardirq_offset \<noteq> 0 then CPUTIME_IRQ
                 else if in_serving_softirq A s then CPUTIME_SOFTIRQ else CPUTIME_SYSTEM)
        in account_system_time0 A p cputime cputime_scaled i s)"

definition account_steal_time :: "ulong \<Rightarrow> kst \<Rightarrow> kst" where
  "account_steal_time cputime s = add_cpustat (this_cpu s) CPUTIME_STEAL (ucast cputime) s"

definition account_idle_time :: "ulong \<Rightarrow> kst \<Rightarrow> kst" where
  "account_idle_time cputime s =
     add_cpustat (this_cpu s) (if nr_iowait (rqs s (this_cpu s)) > 0 then CPUTIME_IOWAIT else CPUTIME_IDLE)
       (ucast cputime) s"

definition account_process_tick :: "aenv \<Rightarrow> tid \<Rightarrow> bool \<Rightarrow> kst \<Rightarrow> kst" where
  "account_process_tick A p user_tick s =
     (let one_jiffy_scaled = cputime_to_scaled A (cputime_one_jiffy A) in
      if user_tick then account_user_time A p (cputime_one_jiffy A) one_jiffy_scaled s
      else if p \<noteq> idle (rqs s (this_cpu s)) \<or> irq_count A s \<noteq> HARDIRQ_OFFSET A
      then account_system_time A p (HARDIRQ_OFFSET A) (cputime_one_jiffy A) one_jiffy_scaled s
      else account_idle_time (cputime_one_jiffy A) s)"

definition account_steal_ticks :: "aenv \<Rightarrow> ulong \<Rightarrow> kst \<Rightarrow> kst" where
  "account_steal_ticks A ticks s = account_steal_time (jiffies_to_cputime A ticks) s"

definition account_idle_ticks :: "aenv \<Rightarrow> ulong \<Rightarrow> kst \<Rightarrow> kst" where
  "account_idle_ticks A ticks s = account_idle_time (jiffies_to_cputime A ticks) s"

section \<open>Scaled times\<close>

text \<open>\<open>div_u64\<close> by zero does not return; the callers test for it.\<close>

definition scale_utime :: "ulong \<Rightarrow> ulong \<Rightarrow> ulong \<Rightarrow> ulong option" where
  "scale_utime ut rtime tot =
     (if tot = 0 then None
      else let temp = (ucast rtime :: u64) * ucast ut in Some (ucast (temp div ucast tot)))"

text \<open>The common part of \<open>task_times\<close> and \<open>thread_group_times\<close>: the new previous values.\<close>

definition scaled_times :: "ulong \<Rightarrow> ulong \<Rightarrow> ulong \<Rightarrow> ulong \<Rightarrow> ulong \<Rightarrow> (ulong \<times> ulong) option" where
  "scaled_times ut st rtime prev_ut prev_st = do {
     let tot = ut + st;
     ut \<leftarrow> (if tot \<noteq> 0 then scale_utime ut rtime tot else Some rtime);
     let prev_ut = max prev_ut ut;
     Some (prev_ut, max prev_st (rtime - prev_ut))
   }"

definition task_times :: "aenv \<Rightarrow> tid \<Rightarrow> kst \<Rightarrow> (ulong \<times> ulong \<times> kst) option" where
  "task_times A p s = do {
     let t = cputimes (tasks s p);
     let rtime = nsecs_to_cputime A (sum_exec_runtime (se (tasks s p)));
     (ut, st) \<leftarrow> scaled_times (utime t) (stime t) rtime (prev_utime t) (prev_stime t);
     Some (ut, st, upd_times p (\<lambda>t. t\<lparr>prev_utime := ut, prev_stime := st\<rparr>) s)
   }"

definition thread_group_times :: "aenv \<Rightarrow> tid \<Rightarrow> kst \<Rightarrow> (ulong \<times> ulong \<times> kst) option" where
  "thread_group_times A p s = do {
     let sig = task_signal A p;
     let (ut, st, rt) = thread_group_cputime A s p;
     (ut, st) \<leftarrow> scaled_times ut st (nsecs_to_cputime A rt) (fst (sig_prev s sig)) (snd (sig_prev s sig));
     Some (ut, st, s\<lparr>sig_prev := (sig_prev s)(sig := (ut, st))\<rparr>)
   }"

section \<open>The cpuacct cgroup\<close>

text \<open>
  \<open>cpuacct_alloc\<close> says which group \<open>kzalloc\<close> returns, if any, and whether the two per-CPU
  allocations succeed; new memory is zero.
\<close>

definition cpuacct_create :: "aenv \<Rightarrow> nat \<Rightarrow> kst \<Rightarrow> (int + nat) \<times> kst" where
  "cpuacct_create A cgrp s =
     (if ca_cgroup_parent A cgrp = None then (Inr root_cpuacct, s)
      else case cpuacct_alloc A s of
             (None, _) \<Rightarrow> (Inl (- ENOMEM), s)
           | (Some ca, usage_ok, stat_ok) \<Rightarrow>
               if \<not> usage_ok then (Inl (- ENOMEM), s)
               else let s = s\<lparr>ca_usage := (ca_usage s)(ca := (\<lambda>_. 0))\<rparr> in
               if \<not> stat_ok then (Inl (- ENOMEM), s)
               else (Inr ca, s\<lparr>ca_cpustat := (ca_cpustat s)(ca := (\<lambda>_ _. 0))\<rparr>))"

text \<open>Freeing the group's memory has no further effect.\<close>

definition cpuacct_destroy :: "aenv \<Rightarrow> nat \<Rightarrow> kst \<Rightarrow> kst" where
  "cpuacct_destroy A cgrp s = ext (Cpu_note ''kfree cpuacct'' (cgroup_ca A cgrp)) s"

definition cpuacct_cpuusage_read :: "kst \<Rightarrow> nat \<Rightarrow> cpu \<Rightarrow> u64" where
  "cpuacct_cpuusage_read s ca c = ca_usage s ca c"

definition cpuacct_cpuusage_write :: "nat \<Rightarrow> cpu \<Rightarrow> u64 \<Rightarrow> kst \<Rightarrow> kst" where
  "cpuacct_cpuusage_write ca c val s = s\<lparr>ca_usage := (ca_usage s)(ca := (ca_usage s ca)(c := val))\<rparr>"

definition cpuusage_read :: "aenv \<Rightarrow> nat \<Rightarrow> kst \<Rightarrow> u64" where
  "cpuusage_read A cgrp s =
     fold (\<lambda>i acc. acc + cpuacct_cpuusage_read s (cgroup_ca A cgrp) i) (cpu_present A) 0"

definition cpuusage_write :: "aenv \<Rightarrow> nat \<Rightarrow> u64 \<Rightarrow> kst \<Rightarrow> int \<times> kst" where
  "cpuusage_write A cgrp reset s =
     (if reset \<noteq> 0 then (- EINVAL, s)
      else (0, fold (\<lambda>i. cpuacct_cpuusage_write (cgroup_ca A cgrp) i 0) (cpu_present A) s))"

text \<open>The numbers \<open>seq_printf\<close> prints, in order.\<close>

definition cpuacct_percpu_seq_read :: "aenv \<Rightarrow> nat \<Rightarrow> kst \<Rightarrow> u64 list" where
  "cpuacct_percpu_seq_read A cgrp s = map (cpuacct_cpuusage_read s (cgroup_ca A cgrp)) (cpu_present A)"

definition online_cpus :: "kst \<Rightarrow> cpu list" where
  "online_cpus s = filter (\<lambda>c. c \<in> cpu_online s) [0..<nr_cpus s]"

definition cpuacct_stats_show :: "aenv \<Rightarrow> nat \<Rightarrow> kst \<Rightarrow> (string \<times> u64) list" where
  "cpuacct_stats_show A cgrp s =
     (let st = ca_cpustat s (cgroup_ca A cgrp);
          user = fold (\<lambda>c val. val + st c CPUTIME_USER + st c CPUTIME_NICE) (online_cpus s) 0;
          system = fold (\<lambda>c val. val + st c CPUTIME_SYSTEM + st c CPUTIME_IRQ + st c CPUTIME_SOFTIRQ) (online_cpus s) 0
      in [(''user'', cputime64_to_clock_t A user), (''system'', cputime64_to_clock_t A system)])"

end
