(* ===== verification/Core_Cputime_Spec.thy ===== *)
theory Core_Cputime_Spec
  imports Core_Cputime Core_Sched_Spec
begin

text \<open>
  CPU time: the scaled times never go back and add up to the exact run time, and every tick is
  accounted exactly once.
\<close>

section \<open>Scaled times\<close>

lemma unat32: "unat (x :: ulong) < 4294967296"
proof -
  have "unat x < 2 ^ LENGTH(32)" by (rule unsigned_less)
  then show ?thesis by simp
qed

lemma unat_ucast64: "unat (ucast (x :: ulong) :: u64) = unat x"
proof -
  have "unat x < 2 ^ 64" using unat32 [of x] by simp
  then show ?thesis by (simp add: unsigned_ucast_eq take_bit_nat_eq_self)
qed

lemma scale_utime_exact:
  assumes "tot \<noteq> 0" "ut \<le> tot"
  shows "\<exists>r. scale_utime ut rtime tot = Some r \<and> unat r = unat rtime * unat ut div unat tot \<and> r \<le> rtime"
proof -
  have "unat rtime * unat ut < 2 ^ 64"
    using unat32 [of rtime] unat32 [of ut] mult_strict_mono' [of "unat rtime" "2 ^ 32" "unat ut" "2 ^ 32"]
    by simp
  then have prod: "unat ((ucast rtime :: u64) * ucast ut) = unat rtime * unat ut"
    using unat_mult_lem [of "ucast rtime :: u64" "ucast ut"] by (simp add: unat_ucast64)
  have le: "unat rtime * unat ut div unat tot \<le> unat rtime"
  proof -
    have "unat rtime * unat ut div unat tot \<le> unat rtime * unat tot div unat tot"
      using assms(2) by (intro div_le_mono mult_le_mono2) (simp add: word_le_nat_alt)
    also have "\<dots> = unat rtime" using assms(1) by (simp add: unat_eq_0)
    finally show ?thesis .
  qed
  define q where "q = ((ucast rtime :: u64) * ucast ut) div ucast tot"
  have uq: "unat q = unat rtime * unat ut div unat tot"
    by (simp add: q_def unat_div prod unat_ucast64)
  have "unat (ucast q :: ulong) = unat q"
    using le uq unat32 [of rtime] by (simp add: unsigned_ucast_eq take_bit_nat_eq_self)
  then show ?thesis
    using assms(1) uq le by (simp add: scale_utime_def q_def word_le_nat_alt)
qed

lemma scaled_times_spec:
  assumes "unat ut + unat st < 2 ^ 32" "prev_ut \<le> rtime" "prev_st \<le> rtime"
  shows "\<exists>nut nst. scaled_times ut st rtime prev_ut prev_st = Some (nut, nst) \<and>
     unat nut = max (unat prev_ut)
       (if unat ut + unat st = 0 then unat rtime else unat rtime * unat ut div (unat ut + unat st)) \<and>
     nst = max prev_st (rtime - nut) \<and> nut \<le> rtime \<and> nst \<le> rtime \<and> unat rtime \<le> unat nut + unat nst"
proof -
  have tot: "unat (ut + st) = unat ut + unat st"
    using assms(1) unat_add_lem [of ut st] by simp
  then have zero: "ut + st = 0 \<longleftrightarrow> unat ut + unat st = 0" by (metis unat_0 unat_eq_zero)
  have "ut \<le> ut + st" using tot by (simp add: word_le_nat_alt)
  obtain u where u: "(if ut + st \<noteq> 0 then scale_utime ut rtime (ut + st) else Some rtime) = Some u" "u \<le> rtime"
    "unat u = (if unat ut + unat st = 0 then unat rtime else unat rtime * unat ut div (unat ut + unat st))"
  proof (cases "ut + st = 0")
    case True
    then show thesis using that [of rtime] zero by simp
  next
    case False
    then show thesis
      using scale_utime_exact [OF False \<open>ut \<le> ut + st\<close>, of rtime] that zero tot by auto
  qed
  define nut where "nut = max prev_ut u"
  have nut: "nut \<le> rtime" using u(2) assms(2) by (simp add: nut_def)
  then have sub: "unat (rtime - nut) = unat rtime - unat nut" "rtime - nut \<le> rtime"
    by (simp_all add: word_le_nat_alt unat_sub)
  have max_unat: "unat (max a b) = max (unat a) (unat b)" for a b :: ulong
    by (auto simp: max_def word_le_nat_alt)
  have "scaled_times ut st rtime prev_ut prev_st = Some (nut, max prev_st (rtime - nut))"
    using u(1) by (auto simp: scaled_times_def Let_def nut_def)
  then show ?thesis
    using nut sub assms(3) u(3) by (auto simp: max_unat nut_def)
qed

text \<open>C29: User and system time of a task. While the tick counters of the task do not overflow and
  the values reported before do not exceed the exact run time, task_times returns: the user time
  is the exact run time scaled by the share of user ticks, computed without overflow, but never
  less than what was reported before; neither time goes back; neither exceeds the exact run time;
  together they account for all of it; and what is returned is stored, so that the
  next call starts from the same condition.\<close>

theorem task_times_correct:
  assumes "t = cputimes (tasks s p)" "rtime = nsecs_to_cputime A (sum_exec_runtime (se (tasks s p)))"
    and "unat (utime t) + unat (stime t) < 2 ^ 32" "prev_utime t \<le> rtime" "prev_stime t \<le> rtime"
  shows "\<exists>ut st s'. task_times A p s = Some (ut, st, s') \<and>
     unat ut = max (unat (prev_utime t))
       (if unat (utime t) + unat (stime t) = 0 then unat rtime
        else unat rtime * unat (utime t) div (unat (utime t) + unat (stime t))) \<and>
     prev_utime t \<le> ut \<and> prev_stime t \<le> st \<and> ut \<le> rtime \<and> st \<le> rtime \<and> unat rtime \<le> unat ut + unat st \<and>
     prev_utime (cputimes (tasks s' p)) = ut \<and> prev_stime (cputimes (tasks s' p)) = st"
proof -
  obtain ut st where r: "scaled_times (utime t) (stime t) rtime (prev_utime t) (prev_stime t) = Some (ut, st)"
    "unat ut = max (unat (prev_utime t))
       (if unat (utime t) + unat (stime t) = 0 then unat rtime
        else unat rtime * unat (utime t) div (unat (utime t) + unat (stime t)))"
    "st = max (prev_stime t) (rtime - ut)" "ut \<le> rtime" "st \<le> rtime" "unat rtime \<le> unat ut + unat st"
    using scaled_times_spec [OF assms(3-5)] by blast
  have "task_times A p s = Some (ut, st, upd_times p (\<lambda>t. t\<lparr>prev_utime := ut, prev_stime := st\<rparr>) s)"
    using r(1) by (simp add: task_times_def assms(1,2) Let_def)
  moreover have "prev_utime t \<le> ut" "prev_stime t \<le> st" using r(2,3) by (simp_all add: word_le_nat_alt [of "prev_utime t"])
  ultimately show ?thesis using r(2,4-6) by simp
qed

section \<open>Ticks\<close>

definition sample_aenv :: aenv where
  "sample_aenv =
     \<lparr>acore = sample_kenv, cputime_to_scaled = (\<lambda>t. t), cputime_one_jiffy = 1,
      jiffies_to_cputime = (\<lambda>t. t), nsecs_to_cputime = (\<lambda>ns. ucast (ns div 10000000)),
      cputime64_to_clock_t = (\<lambda>t. t), irq_count = (\<lambda>_. 0x10000), hardirq_count = (\<lambda>_. 0x10000),
      in_serving_softirq = (\<lambda>_. False), HARDIRQ_OFFSET = 0x10000,
      account_group_user_time = (\<lambda>_ _ s. s), account_group_system_time = (\<lambda>_ _ s. s),
      acct_update_integrals = (\<lambda>_ s. s), task_signal = (\<lambda>p. p), thread_group_cputime = (\<lambda>_ _. (0, 0, 0)),
      cpu_present = [0], cpuacct_alloc = (\<lambda>_. (Some 1, True, True)), cgroup_ca = (\<lambda>c. c),
      ca_cgroup_parent = (\<lambda>_. Some 0)\<rparr>"

theorem task_times_correct_witness:
  "\<exists>st s'. task_times sample_aenv 2
      (upd_task 2 (\<lambda>t. t\<lparr>se := (se t)\<lparr>sum_exec_runtime := 1000000000\<rparr>,
         cputimes := (cputimes zero_task)\<lparr>utime := 30, stime := 50, prev_utime := 20\<rparr>\<rparr>) (bss 1)) = Some (37, st, s') \<and>
     100 \<le> 37 + unat st"
proof -
  define s where "s = upd_task 2 (\<lambda>t. t\<lparr>se := (se t)\<lparr>sum_exec_runtime := 1000000000\<rparr>,
         cputimes := (cputimes zero_task)\<lparr>utime := 30, stime := 50, prev_utime := 20\<rparr>\<rparr>) (bss 1)"
  have t: "cputimes (tasks s 2) = (cputimes zero_task)\<lparr>utime := 30, stime := 50, prev_utime := 20\<rparr>"
    and r: "nsecs_to_cputime sample_aenv (sum_exec_runtime (se (tasks s 2))) = 100"
    by (simp_all add: s_def sample_aenv_def)
  obtain ut st s' where o: "task_times sample_aenv 2 s = Some (ut, st, s')" "unat ut = 37" "100 \<le> unat ut + unat st"
    using task_times_correct [OF t [symmetric] r [symmetric]] by (auto simp: zero_task_def)
  then have "ut = 37" by (simp add: word_unat_eq_iff)
  then show ?thesis using o unfolding s_def by auto
qed

text \<open>
  The accounting of other files (process totals, integrals) leaves tasks, run-queues and the
  statistics of the CPUs alone.
\<close>

definition leaves_stats :: "(kst \<Rightarrow> kst) \<Rightarrow> bool" where
  "leaves_stats f \<longleftrightarrow>
     (\<forall>s. tasks (f s) = tasks s \<and> this_cpu (f s) = this_cpu s \<and> kcpustat (f s) = kcpustat s)"

definition acct_laws :: "aenv \<Rightarrow> bool" where
  "acct_laws A \<longleftrightarrow> (\<forall>p n. leaves_stats (account_group_user_time A p n) \<and>
     leaves_stats (account_group_system_time A p n) \<and> leaves_stats (acct_update_integrals A p))"

lemma acct_laws_simps:
  assumes "acct_laws A"
  shows "tasks (account_group_user_time A p n s) = tasks s" "this_cpu (account_group_user_time A p n s) = this_cpu s"
    "kcpustat (account_group_user_time A p n s) = kcpustat s"
    "tasks (account_group_system_time A p n s) = tasks s" "this_cpu (account_group_system_time A p n s) = this_cpu s"
    "kcpustat (account_group_system_time A p n s) = kcpustat s"
    "tasks (acct_update_integrals A p s) = tasks s" "this_cpu (acct_update_integrals A p s) = this_cpu s"
    "kcpustat (acct_update_integrals A p s) = kcpustat s"
  using assms by (simp_all add: acct_laws_def leaves_stats_def)

lemma add_ca_cpustat_simps [simp]:
  "kcpustat (fold (add_ca_cpustat i tmp) cas s) = kcpustat s"
  "tasks (fold (add_ca_cpustat i tmp) cas s) = tasks s"
  by (induction cas arbitrary: s) (simp_all add: add_ca_cpustat_def)

lemma add_cpustat_simps [simp]:
  "kcpustat (add_cpustat c i n s) c' k = kcpustat s c' k + (if c' = c \<and> k = i then n else 0)"
  "tasks (add_cpustat c i n s) = tasks s"
  by (auto simp: add_cpustat_def)

lemma task_group_account_simps [simp]:
  "kcpustat (task_group_account_field A p i n s) c k = kcpustat s c k + (if c = this_cpu s \<and> k = i then n else 0)"
  "tasks (task_group_account_field A p i n s) = tasks s"
  by (simp_all add: task_group_account_field_def Let_def)

text \<open>What a tick counts as, and whether it is guest time as well.\<close>

definition tick_is_guest :: "aenv \<Rightarrow> tid \<Rightarrow> bool \<Rightarrow> kst \<Rightarrow> bool" where
  "tick_is_guest A p user s \<longleftrightarrow> \<not> user \<and> irq_count A s = HARDIRQ_OFFSET A \<and>
     p \<noteq> idle (rqs s (this_cpu s)) \<and> tflags (tasks s p) AND PF_VCPU \<noteq> 0"

definition tick_is_idle :: "aenv \<Rightarrow> tid \<Rightarrow> bool \<Rightarrow> kst \<Rightarrow> bool" where
  "tick_is_idle A p user s \<longleftrightarrow> \<not> user \<and> irq_count A s = HARDIRQ_OFFSET A \<and> p = idle (rqs s (this_cpu s))"

definition tick_kind :: "aenv \<Rightarrow> tid \<Rightarrow> bool \<Rightarrow> kst \<Rightarrow> cpu_usage_stat" where
  "tick_kind A p user s =
     (if user \<or> tick_is_guest A p user s then
        (if task_nice s p > 0 then CPUTIME_NICE else CPUTIME_USER)
      else if tick_is_idle A p user s then
        (if nr_iowait (rqs s (this_cpu s)) > 0 then CPUTIME_IOWAIT else CPUTIME_IDLE)
      else if hardirq_count A s \<noteq> HARDIRQ_OFFSET A then CPUTIME_IRQ
      else if in_serving_softirq A s then CPUTIME_SOFTIRQ
      else CPUTIME_SYSTEM)"

definition tick_to_user :: "aenv \<Rightarrow> tid \<Rightarrow> bool \<Rightarrow> kst \<Rightarrow> bool" where
  "tick_to_user A p user s \<longleftrightarrow> user \<or> tick_is_guest A p user s"

text \<open>The effect of the four ways to account a tick.\<close>

lemma account_user_effect:
  assumes "acct_laws A"
  shows "kcpustat (account_user_time A p n m s) c k = kcpustat s c k +
      (if c = this_cpu s \<and> k = (if task_nice s p > 0 then CPUTIME_NICE else CPUTIME_USER) then ucast n else 0)"
    "cputimes (tasks (account_user_time A p n m s) q) =
      (if q = p then (cputimes (tasks s p))\<lparr>utime := utime (cputimes (tasks s p)) + n,
                        utimescaled := utimescaled (cputimes (tasks s p)) + m\<rparr> else cputimes (tasks s q))"
  by (simp_all add: account_user_time_def acct_laws_simps [OF assms] Let_def task_nice_def)

lemma account_guest_effect:
  assumes "acct_laws A"
  shows "kcpustat (account_guest_time A p n m s) c k = kcpustat s c k +
      (if c = this_cpu s \<and> k = (if task_nice s p > 0 then CPUTIME_NICE else CPUTIME_USER) then ucast n else 0) +
      (if c = this_cpu s \<and> k = (if task_nice s p > 0 then CPUTIME_GUEST_NICE else CPUTIME_GUEST) then ucast n else 0)"
    "utime (cputimes (tasks (account_guest_time A p n m s) q)) =
      utime (cputimes (tasks s q)) + (if q = p then n else 0)"
    "stime (cputimes (tasks (account_guest_time A p n m s) q)) = stime (cputimes (tasks s q))"
  by (simp_all add: account_guest_time_def acct_laws_simps [OF assms] Let_def task_nice_def)

lemma account_system0_effect:
  assumes "acct_laws A"
  shows "kcpustat (account_system_time0 A p n m i s) c k = kcpustat s c k +
      (if c = this_cpu s \<and> k = i then ucast n else 0)"
    "cputimes (tasks (account_system_time0 A p n m i s) q) =
      (if q = p then (cputimes (tasks s p))\<lparr>stime := stime (cputimes (tasks s p)) + n,
                        stimescaled := stimescaled (cputimes (tasks s p)) + m\<rparr> else cputimes (tasks s q))"
  by (simp_all add: account_system_time0_def acct_laws_simps [OF assms] Let_def)

lemma account_idle_effect:
  "kcpustat (account_idle_time n s) c k = kcpustat s c k +
     (if c = this_cpu s \<and> k = (if nr_iowait (rqs s (this_cpu s)) > 0 then CPUTIME_IOWAIT else CPUTIME_IDLE)
      then ucast n else 0)"
  "tasks (account_idle_time n s) = tasks s"
  by (simp_all add: account_idle_time_def)

lemma account_process_tick_cases:
  "account_process_tick A p user s =
     (let n = cputime_one_jiffy A; m = cputime_to_scaled A n in
      if tick_to_user A p user s then
        (if user then account_user_time A p n m s else account_guest_time A p n m s)
      else if tick_is_idle A p user s then account_idle_time n s
      else account_system_time0 A p n m (tick_kind A p user s) s)"
  by (auto simp: account_process_tick_def account_system_time_def tick_to_user_def tick_is_guest_def
      tick_is_idle_def tick_kind_def Let_def)

lemma account_tick_stats:
  assumes "acct_laws A"
  shows "kcpustat (account_process_tick A p user s) c k = kcpustat s c k +
       (if c = this_cpu s \<and> k = tick_kind A p user s then ucast (cputime_one_jiffy A) else 0) +
       (if c = this_cpu s \<and> tick_is_guest A p user s \<and>
           k = (if task_nice s p > 0 then CPUTIME_GUEST_NICE else CPUTIME_GUEST)
        then ucast (cputime_one_jiffy A) else 0)"
proof -
  have "tick_is_idle A p user s \<Longrightarrow> \<not> user \<and> \<not> tick_is_guest A p user s"
    by (simp add: tick_is_idle_def tick_is_guest_def)
  moreover have "user \<Longrightarrow> \<not> tick_is_guest A p user s" by (simp add: tick_is_guest_def)
  ultimately show ?thesis
    by (auto simp: account_process_tick_cases Let_def account_user_effect [OF assms] account_guest_effect [OF assms]
        account_system0_effect [OF assms] account_idle_effect tick_kind_def tick_to_user_def)
qed

lemma account_tick_times:
  assumes "acct_laws A"
  shows "utime (cputimes (tasks (account_process_tick A p user s) q)) = utime (cputimes (tasks s q)) +
            (if q = p \<and> tick_to_user A p user s then cputime_one_jiffy A else 0) \<and>
         stime (cputimes (tasks (account_process_tick A p user s) q)) = stime (cputimes (tasks s q)) +
            (if q = p \<and> \<not> tick_to_user A p user s \<and> \<not> tick_is_idle A p user s then cputime_one_jiffy A else 0)"
  by (auto simp: account_process_tick_cases Let_def account_user_effect [OF assms] account_guest_effect [OF assms]
      account_system0_effect [OF assms] account_idle_effect)

text \<open>C30: Every tick is accounted exactly once. account_process_tick adds one jiffy to exactly one
  kind of time of this CPU (user or nice for a user tick and for guest time, by the task's nice value;
  otherwise idle or iowait, interrupt, soft interrupt or system) and, for a guest, once more to
  the matching guest column; no other statistic of any CPU changes. Every tick but an idle one
  also adds one jiffy to the user time (user and guest ticks) or else to the system time of the
  task, and to no other task.\<close>

theorem account_process_tick_once:
  assumes "acct_laws A"
  shows "(\<forall>c k. kcpustat (account_process_tick A p user s) c k = kcpustat s c k +
       (if c = this_cpu s \<and> k = tick_kind A p user s then ucast (cputime_one_jiffy A) else 0) +
       (if c = this_cpu s \<and> tick_is_guest A p user s \<and>
           k = (if task_nice s p > 0 then CPUTIME_GUEST_NICE else CPUTIME_GUEST)
        then ucast (cputime_one_jiffy A) else 0)) \<and>
     (\<forall>q. utime (cputimes (tasks (account_process_tick A p user s) q)) = utime (cputimes (tasks s q)) +
            (if q = p \<and> tick_to_user A p user s then cputime_one_jiffy A else 0) \<and>
          stime (cputimes (tasks (account_process_tick A p user s) q)) = stime (cputimes (tasks s q)) +
            (if q = p \<and> \<not> tick_to_user A p user s \<and> \<not> tick_is_idle A p user s then cputime_one_jiffy A else 0))"
  using account_tick_stats [OF assms] account_tick_times [OF assms] by blast

theorem account_process_tick_once_witness:
  "(let s = upd_task 2 (\<lambda>t. t\<lparr>static_prio := 130\<rparr>) (bss 1); s' = account_process_tick sample_aenv 2 True s in
    kcpustat s' 0 CPUTIME_NICE = 1 \<and> kcpustat s' 0 CPUTIME_USER = 0 \<and> utime (cputimes (tasks s' 2)) = 1)"
proof -
  have "acct_laws sample_aenv" by (simp add: acct_laws_def leaves_stats_def sample_aenv_def)
  from account_process_tick_once [OF this, of 2 True "upd_task 2 (\<lambda>t. t\<lparr>static_prio := 130\<rparr>) (bss 1)"]
  show ?thesis
    by (simp add: Let_def tick_kind_def tick_is_guest_def tick_to_user_def task_nice_def PRIO_TO_NICE_def
        MAX_RT_PRIO_def MAX_USER_RT_PRIO_def bss_def zero_task_def sample_aenv_def)
qed

end
