(* ===== verification/Core_Hotplug.thy ===== *)
theory Core_Hotplug
  imports Core_Migrate
begin

text \<open>
  CPUs that come and go (kernel/core.c): root domains and the CPUs attached to them, the
  notifiers of CPU hotplug, and what one CPU does to another from outside: rescheduling it,
  waking it from idle, waiting for a task to leave it.
\<close>

section \<open>A run-queue goes online or offline\<close>

text \<open>\<open>for_each_class\<close> with an optional member of the class table.\<close>

fun each_class :: "(class_ops \<Rightarrow> (cpu \<Rightarrow> kst \<Rightarrow> kst option) option) \<Rightarrow> kenv \<Rightarrow> cpu \<Rightarrow> sched_class list \<Rightarrow> kst \<Rightarrow> kst option" where
  "each_class sel K c [] s = Some s"
| "each_class sel K c (k # ks) s = do {
     s \<leftarrow> opt_call (sel (ops K k)) c s;
     each_class sel K c ks s
   }"

definition set_rq_online :: "kenv \<Rightarrow> cpu \<Rightarrow> kst \<Rightarrow> kst option" where
  "set_rq_online K c s =
     (if online (rqs s c) then Some s
      else
        let s = upd_rd (rd (rqs s c)) (\<lambda>d. d\<lparr>rd_online := insert c (rd_online d)\<rparr>) s;
            s = upd_rq c (\<lambda>r. r\<lparr>online := True\<rparr>) s
        in each_class op_rq_online K c all_classes s)"

definition set_rq_offline :: "kenv \<Rightarrow> cpu \<Rightarrow> kst \<Rightarrow> kst option" where
  "set_rq_offline K c s =
     (if \<not> online (rqs s c) then Some s
      else do {
        s \<leftarrow> each_class op_rq_offline K c all_classes s;
        let s = upd_rd (rd (rqs s c)) (\<lambda>d. d\<lparr>rd_online := rd_online d - {c}\<rparr>) s;
        Some (upd_rq c (\<lambda>r. r\<lparr>online := False\<rparr>) s)
      })"

section \<open>Root domains\<close>

text \<open>
  \<open>alloc_ok n\<close> says whether the \<open>n\<close>-th of the three allocations of masks succeeds, \<open>cpupri_ok\<close>
  whether \<open>cpupri_init\<close> does. The result is 0 or an error.
\<close>

definition init_rootdomain :: "(nat \<Rightarrow> bool) \<Rightarrow> bool \<Rightarrow> nat \<Rightarrow> kst \<Rightarrow> int \<times> kst" where
  "init_rootdomain alloc_ok cpupri_ok d s =
     (let s = upd_rd d (\<lambda>_. \<lparr>rd_refcount = 0, rto_count = 0, rd_span = {}, rd_online = {}, rto_mask = {}\<rparr>) s in
      if \<not> alloc_ok 0 then (- ENOMEM, s)
      else if \<not> alloc_ok 1 then (- ENOMEM, s)
      else if \<not> alloc_ok 2 then (- ENOMEM, s)
      else if \<not> cpupri_ok then (- ENOMEM, s)
      else (0, s))"

definition def_root_domain :: nat where "def_root_domain = 0"

definition init_defrootdomain :: "(nat \<Rightarrow> bool) \<Rightarrow> bool \<Rightarrow> kst \<Rightarrow> kst" where
  "init_defrootdomain alloc_ok cpupri_ok s =
     (let (_, s) = init_rootdomain alloc_ok cpupri_ok def_root_domain s
      in upd_rd def_root_domain (\<lambda>d. d\<lparr>rd_refcount := 1\<rparr>) s)"

text \<open>\<open>mem\<close> is what \<open>kmalloc\<close> returns.\<close>

definition alloc_rootdomain :: "nat option \<Rightarrow> (nat \<Rightarrow> bool) \<Rightarrow> bool \<Rightarrow> kst \<Rightarrow> nat option \<times> kst" where
  "alloc_rootdomain mem alloc_ok cpupri_ok s =
     (case mem of
        None \<Rightarrow> (None, s)
      | Some d \<Rightarrow>
          let (ret, s) = init_rootdomain alloc_ok cpupri_ok d s
          in if ret \<noteq> 0 then (None, s) else (Some d, s))"

definition free_rootdomain :: "nat \<Rightarrow> kst \<Rightarrow> kst" where
  "free_rootdomain d s = ext (Cpu_note ''free_rootdomain'' d) s"

text \<open>The domain a CPU leaves is freed after a grace period when nobody refers to it any more.\<close>

definition rq_attach_root :: "kenv \<Rightarrow> cpu \<Rightarrow> nat \<Rightarrow> kst \<Rightarrow> kst option" where
  "rq_attach_root K c d s = do {
     (old_rd, s) \<leftarrow>
       (if rd_set (rqs s c) then do {
          let old = rd (rqs s c);
          s \<leftarrow> (if c \<in> rd_online (root_domains s old) then set_rq_offline K c s else Some s);
          let s = upd_rd old (\<lambda>d. d\<lparr>rd_span := rd_span d - {c}\<rparr>) s;
          let s = upd_rd old (\<lambda>d. d\<lparr>rd_refcount := rd_refcount d - 1\<rparr>) s;
          Some (if rd_refcount (root_domains s old) \<noteq> 0 then None else Some old, s)
        }
        else Some (None, s));
     let s = upd_rd d (\<lambda>d. d\<lparr>rd_refcount := rd_refcount d + 1\<rparr>) s;
     let s = upd_rq c (\<lambda>r. r\<lparr>rd := d, rd_set := True\<rparr>) s;
     let s = upd_rd d (\<lambda>d. d\<lparr>rd_span := insert c (rd_span d)\<rparr>) s;
     s \<leftarrow> (if c \<in> cpu_active s then set_rq_online K c s else Some s);
     Some (case old_rd of None \<Rightarrow> s | Some old \<Rightarrow> ext (Cpu_note ''call_rcu_sched free_rootdomain'' old) s)
   }"

section \<open>Hotplug notifiers\<close>

text \<open>The actions of the notifier chain; the frozen variants count as the plain ones.\<close>

datatype cpu_action = CPU_UP_PREPARE | CPU_STARTING | CPU_ONLINE | CPU_DOWN_PREPARE | CPU_DOWN_FAILED
  | CPU_DYING | CPU_other_action

datatype notify_ret = NOTIFY_OK | NOTIFY_DONE

definition migration_call :: "kenv \<Rightarrow> cpu_action \<Rightarrow> cpu \<Rightarrow> kst \<Rightarrow> (notify_ret \<times> kst) option" where
  "migration_call K action c s = do {
     s \<leftarrow> (case action of
            CPU_UP_PREPARE \<Rightarrow> Some (upd_rq c (\<lambda>r. r\<lparr>calc_load_update := g_calc_load_update (gload s)\<rparr>) s)
          | CPU_ONLINE \<Rightarrow>
              if rd_set (rqs s c) then do {
                _ \<leftarrow> BUG_ON (c \<notin> rd_span (root_domains s (rd (rqs s c))));
                set_rq_online K c s
              } else Some s
          | CPU_DYING \<Rightarrow> do {
              s \<leftarrow> sched_ttwu_pending K s;
              s \<leftarrow> (if rd_set (rqs s c) then do {
                     _ \<leftarrow> BUG_ON (c \<notin> rd_span (root_domains s (rd (rqs s c))));
                     set_rq_offline K c s
                   } else Some s);
              s \<leftarrow> migrate_tasks K c s;
              _ \<leftarrow> BUG_ON (nr_running (rqs s c) \<noteq> 1);
              s \<leftarrow> migrate_nr_uninterruptible c s;
              Some (calc_global_load_remove c s)
            }
          | _ \<Rightarrow> Some s);
     Some (NOTIFY_OK, ext (Cpu_note ''update_max_interval'' c) s)
   }"

definition sched_cpu_active :: "cpu_action \<Rightarrow> cpu \<Rightarrow> kst \<Rightarrow> notify_ret \<times> kst" where
  "sched_cpu_active action c s =
     (case action of
        CPU_STARTING \<Rightarrow> (NOTIFY_OK, s\<lparr>cpu_active := insert c (cpu_active s)\<rparr>)
      | CPU_DOWN_FAILED \<Rightarrow> (NOTIFY_OK, s\<lparr>cpu_active := insert c (cpu_active s)\<rparr>)
      | _ \<Rightarrow> (NOTIFY_DONE, s))"

definition sched_cpu_inactive :: "cpu_action \<Rightarrow> cpu \<Rightarrow> kst \<Rightarrow> notify_ret \<times> kst" where
  "sched_cpu_inactive action c s =
     (case action of
        CPU_DOWN_PREPARE \<Rightarrow> (NOTIFY_OK, s\<lparr>cpu_active := cpu_active s - {c}\<rparr>)
      | _ \<Rightarrow> (NOTIFY_DONE, s))"

text \<open>\<open>err\<close> is never \<open>NOTIFY_BAD\<close>; registering the notifiers is left to the notifier chain.\<close>

definition migration_init :: "kenv \<Rightarrow> kst \<Rightarrow> (int \<times> kst) option" where
  "migration_init K s = do {
     let c = this_cpu s;
     (_, s) \<leftarrow> migration_call K CPU_UP_PREPARE c s;
     (_, s) \<leftarrow> migration_call K CPU_ONLINE c s;
     Some (0, s)
   }"

section \<open>Other CPUs\<close>

text \<open>\<open>trylock\<close> says whether the run-queue's lock was free.\<close>

definition resched_cpu :: "env \<Rightarrow> bool \<Rightarrow> cpu \<Rightarrow> kst \<Rightarrow> kst" where
  "resched_cpu E trylock c s = (if \<not> trylock then s else resched_task E (curr (rqs s c)) s)"

text \<open>The domains are those of the calling CPU, from the smallest up.\<close>

definition get_nohz_timer_target :: "kenv \<Rightarrow> kst \<Rightarrow> cpu" where
  "get_nohz_timer_target K s =
     (case List.find (\<lambda>i. \<not> idle_cpu s i)
             (concat (map (\<lambda>(_, span). mask_cpus s span) (sched_domains K (this_cpu s)))) of
        None \<Rightarrow> this_cpu s | Some i \<Rightarrow> i)"

definition wake_up_idle_cpu :: "env \<Rightarrow> cpu \<Rightarrow> kst \<Rightarrow> kst" where
  "wake_up_idle_cpu E c s =
     (if c = this_cpu s then s
      else if curr (rqs s c) \<noteq> idle (rqs s c) then s
      else
        let s = set_tsk_need_resched (idle (rqs s c)) s
        in if \<not> tsk_is_polling E (idle (rqs s c)) then ext (Smp_send_reschedule c) s else s)"

section \<open>Waiting for a task to be off its CPU\<close>

text \<open>
  \<open>cpu_relax\<close> and \<open>sleep_a_tick\<close> are what other CPUs do during \<open>cpu_relax()\<close> and while the caller
  sleeps for a tick in \<open>schedule_hrtimeout\<close>. The result 0 says that the task is in another state
  than expected.
\<close>

definition LONG_MIN :: ulong where "LONG_MIN = 0x80000000"

partial_function (option) spin_while_running ::
  "(kst \<Rightarrow> kst) \<Rightarrow> tid \<Rightarrow> u32 \<Rightarrow> kst \<Rightarrow> (bool \<times> kst) option" where
  "spin_while_running cpu_relax p match_state s =
     (if \<not> task_running s (task_cpu s p) p then Some (True, s)
      else if match_state \<noteq> 0 \<and> tstate (tasks s p) \<noteq> match_state then Some (False, s)
      else spin_while_running cpu_relax p match_state (cpu_relax s))"

partial_function (option) wait_task_inactive ::
  "(kst \<Rightarrow> kst) \<Rightarrow> (kst \<Rightarrow> kst) \<Rightarrow> tid \<Rightarrow> u32 \<Rightarrow> kst \<Rightarrow> (ulong \<times> kst) option" where
  "wait_task_inactive cpu_relax sleep_a_tick p match_state s =
     Option.bind (spin_while_running cpu_relax p match_state s) (\<lambda>(go_on, s).
       if \<not> go_on then Some (0, s)
       else
         let running = task_running s (task_cpu s p) p;
             queued = on_rq (tasks s p);
             ncsw = (if match_state = 0 \<or> tstate (tasks s p) = match_state
                     then nvcsw (tasks s p) OR LONG_MIN else 0) in
         if ncsw = 0 then Some (ncsw, s)
         else if running then wait_task_inactive cpu_relax sleep_a_tick p match_state (cpu_relax s)
         else if queued then
           wait_task_inactive cpu_relax sleep_a_tick p match_state
             (sleep_a_tick (upd_task (current s) (\<lambda>t. t\<lparr>tstate := TASK_UNINTERRUPTIBLE\<rparr>) s))
         else Some (ncsw, s))"

section \<open>A forked task's first steps, and blocking\<close>

definition schedule_tail :: "kenv \<Rightarrow> tid \<Rightarrow> kst \<Rightarrow> kst option" where
  "schedule_tail K prev s = post_schedule K (this_cpu s) (finish_task_switch prev s)"

definition idle_task_exit :: "kst \<Rightarrow> kst option" where
  "idle_task_exit s = do {
     _ \<leftarrow> BUG_ON (this_cpu s \<in> cpu_online s);
     Some (ext (Task_note ''switch_mm init_mm'' (current s)) s)
   }"

text \<open>\<open>needbreak\<close> is \<open>spin_needbreak\<close>; the lock is dropped around the reschedule.\<close>

definition cond_resched_lock :: "kenv \<Rightarrow> bool \<Rightarrow> kst \<Rightarrow> (bool \<times> kst) option" where
  "cond_resched_lock K needbreak s =
     (let resched = should_resched K s in
      if needbreak \<or> resched then do {
        s \<leftarrow> (if resched then cond_resched0 K s else Some s);
        Some (True, s)
      } else Some (False, s))"

definition cond_resched_softirq :: "kenv \<Rightarrow> bool \<Rightarrow> kst \<Rightarrow> (bool \<times> kst) option" where
  "cond_resched_softirq K in_softirq s = do {
     _ \<leftarrow> BUG_ON (\<not> in_softirq);
     if should_resched K s then do { s \<leftarrow> cond_resched0 K s; Some (True, s) }
     else Some (False, s)
   }"

text \<open>\<open>sleep\<close> is \<open>schedule_timeout\<close>.\<close>

definition io_schedule_timeout :: "(int \<Rightarrow> kst \<Rightarrow> (int \<times> kst) option) \<Rightarrow> int \<Rightarrow> kst \<Rightarrow> (int \<times> kst) option" where
  "io_schedule_timeout sleep timeout s = do {
     let c = this_cpu s;
     let s = upd_rq c (\<lambda>r. r\<lparr>nr_iowait := nr_iowait r + 1\<rparr>) s;
     let s = ext (Task_note ''blk_flush_plug'' (current s)) s;
     (ret, s) \<leftarrow> sleep timeout s;
     Some (ret, upd_rq c (\<lambda>r. r\<lparr>nr_iowait := nr_iowait r - 1\<rparr>) s)
   }"

end
