(* ===== verification/Core_Init.thy ===== *)
theory Core_Init
  imports Core_Hotplug Core_Group
begin

text \<open>
  The scheduler's boot (kernel/core.c), \<open>sched_init\<close>, with CONFIG_SMP, CONFIG_FAIR_GROUP_SCHED,
  CONFIG_RT_GROUP_SCHED and CONFIG_CGROUP_CPUACCT. Task 0 is \<open>init_task\<close>, the boot task; its class
  pointer is NULL in the code, which acts like a class without callbacks. The allocation of the
  root group's arrays, whose result the code does not check, is taken to succeed; fields of \<open>rq\<close>
  that only the fair class reads are not part of the model.
\<close>

text \<open>
  \<open>init_cfs_rq\<close>, \<open>init_cfs_bandwidth\<close> and \<open>init_tg_cfs_entry\<close> belong to the fair class;
  \<open>percpu_ok\<close> says whether \<open>alloc_percpu\<close> succeeds, \<open>masks_ok\<close> and \<open>cpupri_ok\<close> whether the parts of
  the default root domain can be allocated.
\<close>

record ienv =
  icore :: kenv
  init_cfs_rq :: "cpu \<Rightarrow> kst \<Rightarrow> kst"
  init_cfs_bandwidth :: "tgid \<Rightarrow> kst \<Rightarrow> kst"
  init_tg_cfs_entry :: "tgid \<Rightarrow> cpu \<Rightarrow> kst \<Rightarrow> kst"
  init_sched_fair_class :: "kst \<Rightarrow> kst"
  percpu_ok :: bool
  masks_ok :: "nat \<Rightarrow> bool"
  cpupri_ok :: bool

definition init_task :: tid where "init_task = 0"

definition ROOT_TASK_GROUP_LOAD :: ulong where "ROOT_TASK_GROUP_LOAD = 1024"

text \<open>The body of the loop over the possible CPUs.\<close>

definition sched_init_cpu :: "ienv \<Rightarrow> cpu \<Rightarrow> kst \<Rightarrow> kst option" where
  "sched_init_cpu I i s =
     (let K = icore I;
          s = upd_rq i (\<lambda>r. r\<lparr>nr_running := 0, calc_load_active := 0,
                             calc_load_update := jiffies s + LOAD_FREQ (base K)\<rparr>) s;
          s = init_cfs_rq I i s;
          s = init_rt_rq (Rq_of_cpu i) s;
          s = init_wrr_rq (Rq_of_cpu i) s;
          s = upd_tg root_task_group (\<lambda>g. g\<lparr>tg_shares := ROOT_TASK_GROUP_LOAD\<rparr>) s;
          s = init_cfs_bandwidth I root_task_group s;
          s = init_tg_cfs_entry I root_task_group i s;
          s = upd_rt_rq (Rq_of_cpu i) (\<lambda>r. r\<lparr>rt_runtime := def_rt_runtime (globals s)\<rparr>) s;
          s = s\<lparr>leaf_rt := init_head i (leaf_rt s)\<rparr>;
          s = init_tg_rt_entry root_task_group (Rq_of_cpu i) None i None s;
          s = s\<lparr>leaf_wrr := init_head i (leaf_wrr s)\<rparr>;
          s = init_tg_wrr_entry root_task_group (Rq_of_cpu i) None i None s;
          s = fold (\<lambda>j. upd_rq i (\<lambda>r. r\<lparr>cpu_load := (cpu_load r)(j := 0)\<rparr>)) [0..<CPU_LOAD_IDX_MAX] s;
          s = upd_rq i (\<lambda>r. r\<lparr>last_load_update_tick := jiffies s\<rparr>) s;
          s = upd_rq i (\<lambda>r. r\<lparr>rd_set := False, post_schedule_flag := False, online := False, idle_stamp := 0,
                             avg_idle := 2 * migration_cost K\<rparr>) s
      in do {
        s \<leftarrow> rq_attach_root K i def_root_domain s;
        Some (upd_rq i (\<lambda>r. r\<lparr>nr_iowait := 0\<rparr>) s)
      })"

fun sched_init_cpus :: "ienv \<Rightarrow> cpu list \<Rightarrow> kst \<Rightarrow> kst option" where
  "sched_init_cpus I [] s = Some s"
| "sched_init_cpus I (i # is) s = Option.bind (sched_init_cpu I i s) (sched_init_cpus I is)"

definition sched_init :: "ienv \<Rightarrow> kst \<Rightarrow> kst option" where
  "sched_init I s =
     (let K = icore I;
          s = upd_tg root_task_group (\<lambda>g. g\<lparr>tg_rt_se := (\<lambda>_. None), tg_rt_rq := (\<lambda>_. None),
                                           tg_wrr_se := (\<lambda>_. None), tg_wrr_rq := (\<lambda>_. None)\<rparr>) s;
          s = init_defrootdomain (masks_ok I) (cpupri_ok I) s;
          s = s\<lparr>globals := (globals s)\<lparr>def_rt_period := global_rt_period s,
                                       def_rt_runtime := global_rt_runtime s\<rparr>\<rparr>;
          s = init_rt_bandwidth root_task_group (global_rt_period s) (global_rt_runtime s) s;
          s = s\<lparr>globals := (globals s)\<lparr>task_group_list := root_task_group # task_group_list (globals s)\<rparr>\<rparr>;
          s = upd_tg root_task_group (\<lambda>g. g\<lparr>tg_children := []\<rparr>) s;
          s = ext (Task_note ''autogroup_init'' init_task) s
      in do {
        _ \<leftarrow> BUG_ON (\<not> percpu_ok I);
        s \<leftarrow> sched_init_cpus I [0..<nr_cpus s] s;
        s \<leftarrow> set_load_weight init_task s;
        let me = current s;
        s \<leftarrow> init_idle K me (this_cpu s) s;
        let s = s\<lparr>gload := (gload s)\<lparr>g_calc_load_update := jiffies s + LOAD_FREQ (base K)\<rparr>\<rparr>;
        let s = upd_task me (\<lambda>t. t\<lparr>task_class := fair_sched_class\<rparr>) s;
        let s = init_sched_fair_class I s;
        Some (s\<lparr>globals := (globals s)\<lparr>scheduler_running := True\<rparr>\<rparr>)
      })"

end
