(* ===== verification/Core_Init_Spec.thy ===== *)
theory Core_Init_Spec
  imports Core_Init Rt_Class Rt_Bandwidth_Spec Core_Group_Tree Wrr_Basic_Spec
begin

text \<open>
  Booting establishes the invariants: after \<open>sched_init\<close> the WRR run-queues satisfy the class's
  invariant, every CPU has the whole RT budget of the root group, the root group is the only
  group, and every CPU is attached to the default root domain, online exactly when it is active.
\<close>

section \<open>The fair class's part\<close>

text \<open>What the fair class may change at boot, as far as the model has it.\<close>

definition fair_part :: "kst \<Rightarrow> kst \<Rightarrow> bool" where
  "fair_part s s' \<longleftrightarrow> (\<exists>b q t. s' = s\<lparr>task_groups := (\<lambda>x. (task_groups s x)\<lparr>tg_cfs := b x\<rparr>), cfs_rqs := q, trace := t\<rparr>)"

lemma fair_part_refl [simp]: "fair_part s s"
  unfolding fair_part_def
  by (rule exI [where x = "\<lambda>x. tg_cfs (task_groups s x)"], rule exI [where x = "cfs_rqs s"],
      rule exI [where x = "trace s"]) simp

lemma fair_part_ext [simp]: "fair_part s (ext e s)"
  unfolding fair_part_def ext_def
  by (rule exI [where x = "\<lambda>x. tg_cfs (task_groups s x)"], rule exI [where x = "cfs_rqs s"],
      rule exI [where x = "trace s @ [e]"]) simp

lemma fair_part_trans [trans]: "fair_part s s' \<Longrightarrow> fair_part s' s'' \<Longrightarrow> fair_part s s''"
  unfolding fair_part_def by (elim exE) (simp, blast)

lemma fair_partD:
  assumes "fair_part s s'"
  shows "tasks s' = tasks s" "rqs s' = rqs s" "nr_cpus s' = nr_cpus s" "this_cpu s' = this_cpu s"
    "wrr_rqs s' = wrr_rqs s" "wrr_list s' = wrr_list s" "leaf_wrr s' = leaf_wrr s"
    "rt_rqs s' = rt_rqs s" "rt_list s' = rt_list s" "leaf_rt s' = leaf_rt s"
    "root_domains s' = root_domains s" "cpu_active s' = cpu_active s" "globals s' = globals s"
    "tg_parent (task_groups s' x) = tg_parent (task_groups s x)"
    "tg_children (task_groups s' x) = tg_children (task_groups s x)"
    "tg_rt_rq (task_groups s' x) = tg_rt_rq (task_groups s x)"
    "tg_rt_period (task_groups s' x) = tg_rt_period (task_groups s x)"
    "tg_rt_runtime (task_groups s' x) = tg_rt_runtime (task_groups s x)"
  using assms by (auto simp: fair_part_def)

text \<open>The interface to the fair class and to the class tables that booting relies on.\<close>

definition boot_laws :: "ienv \<Rightarrow> bool" where
  "boot_laws I \<longleftrightarrow>
     (\<forall>s i. fair_part s (init_cfs_rq I i s)) \<and> (\<forall>s tg. fair_part s (init_cfs_bandwidth I tg s)) \<and>
     (\<forall>s tg i. fair_part s (init_tg_cfs_entry I tg i s)) \<and> (\<forall>s. fair_part s (init_sched_fair_class I s)) \<and>
     percpu_ok I \<and>
     (\<exists>K. ops (icore I) rt_sched_class = rt_class K) \<and>
     (\<exists>E. ops (icore I) wrr_sched_class = wrr_class E) \<and>
     (\<forall>k \<in> {stop_sched_class, fair_sched_class, idle_sched_class}. \<forall>f c s.
        op_rq_online (ops (icore I) k) = Some f \<longrightarrow> (\<exists>s'. f c s = Some s' \<and> fair_part s s'))"

section \<open>Attaching a CPU\<close>

definition quiet_rt :: "kst \<Rightarrow> bool" where
  "quiet_rt s \<longleftrightarrow> \<not> scheduler_running (globals s) \<and> (\<forall>q. \<not> rt_overloaded_flag (rt_rqs s q))"

lemma quiet_rt_fair: "fair_part s s' \<Longrightarrow> quiet_rt s' = quiet_rt s"
  by (simp add: quiet_rt_def fair_partD)

lemma class_online_boot:
  assumes "boot_laws I" "quiet_rt s"
  shows "\<exists>s'. opt_call (op_rq_online (ops (icore I) k)) c s = Some s' \<and> fair_part s s'"
proof -
  have rt: "rq_online_rt K c s = Some (ext (Cpupri_set (rd (rqs s c)) c (rt_highest_curr (rt_rqs s (Rq_of_cpu c)))) s)" for K
    using assms(2) by (simp add: rq_online_rt_def enable_runtime_def quiet_rt_def)
  show ?thesis
  proof (cases "k \<in> {stop_sched_class, fair_sched_class, idle_sched_class}")
    case True
    then show ?thesis
      using assms(1) by (cases "op_rq_online (ops (icore I) k)") (auto simp: boot_laws_def opt_call_def)
  next
    case False
    then have "k = rt_sched_class \<or> k = wrr_sched_class" by (cases k) auto
    then show ?thesis
      using assms(1) rt by (auto simp: boot_laws_def opt_call_def rt_class_def wrr_class_def wrr_dummy_defs)
  qed
qed

lemma each_class_boot:
  assumes "boot_laws I" "quiet_rt s"
  shows "\<exists>s'. each_class op_rq_online (icore I) c ks s = Some s' \<and> fair_part s s'"
  using assms(2)
proof (induction ks arbitrary: s)
  case (Cons k ks)
  obtain s1 where 1: "opt_call (op_rq_online (ops (icore I) k)) c s = Some s1" "fair_part s s1"
    using class_online_boot [OF assms(1) Cons.prems] by blast
  then obtain s2 where "each_class op_rq_online (icore I) c ks s1 = Some s2" "fair_part s1 s2"
    using Cons.IH [of s1] Cons.prems quiet_rt_fair by blast
  then show ?case using 1 fair_part_trans by auto
qed simp

text \<open>The domain and the run-queue of a CPU after it has been attached.\<close>

definition attached :: "cpu \<Rightarrow> kst \<Rightarrow> kst \<Rightarrow> bool" where
  "attached c s s' \<longleftrightarrow> (\<exists>t. fair_part t s' \<and> t = s\<lparr>rqs := (rqs s)(c := (rqs s c)\<lparr>rd := def_root_domain, rd_set := True, online := c \<in> cpu_active s\<rparr>),
     root_domains := (root_domains s)(def_root_domain := (root_domains s def_root_domain)
       \<lparr>rd_refcount := rd_refcount (root_domains s def_root_domain) + 1,
        rd_span := insert c (rd_span (root_domains s def_root_domain)),
        rd_online := (if c \<in> cpu_active s then insert c else id) (rd_online (root_domains s def_root_domain))\<rparr>)\<rparr>)"

lemma rq_attach_root_boot:
  assumes "boot_laws I" "quiet_rt s" "\<not> rd_set (rqs s c)" "\<not> online (rqs s c)"
  shows "\<exists>s'. rq_attach_root (icore I) c def_root_domain s = Some s' \<and> attached c s s'"
proof -
  define s1 where "s1 = upd_rd def_root_domain (\<lambda>d. d\<lparr>rd_refcount := rd_refcount d + 1\<rparr>) s"
  define s2 where "s2 = upd_rq c (\<lambda>r. r\<lparr>rd := def_root_domain, rd_set := True\<rparr>) s1"
  define s3 where "s3 = upd_rd def_root_domain (\<lambda>d. d\<lparr>rd_span := insert c (rd_span d)\<rparr>) s2"
  have run: "rq_attach_root (icore I) c def_root_domain s =
      (if c \<in> cpu_active s3 then set_rq_online (icore I) c s3 else Some s3)"
    using assms(3) by (simp add: rq_attach_root_def s1_def s2_def s3_def Let_def)
  have f3: "cpu_active s3 = cpu_active s" "quiet_rt s3" "\<not> online (rqs s3 c)" "rd (rqs s3 c) = def_root_domain"
    using assms(2,4) by (simp_all add: s1_def s2_def s3_def quiet_rt_def)
  show ?thesis
  proof (cases "c \<in> cpu_active s")
    case False
    have "attached c s s3"
      unfolding attached_def using False assms(4)
      by (intro exI [of _ s3] conjI) (auto simp: s1_def s2_def s3_def intro!: kst.equality)
    then show ?thesis using run False f3(1) by simp
  next
    case True
    define s4 where "s4 = upd_rq c (\<lambda>r. r\<lparr>online := True\<rparr>) (upd_rd def_root_domain (\<lambda>d. d\<lparr>rd_online := insert c (rd_online d)\<rparr>) s3)"
    have "quiet_rt s4" using f3(2) by (simp add: s4_def quiet_rt_def)
    then obtain s5 where s5: "each_class op_rq_online (icore I) c all_classes s4 = Some s5" "fair_part s4 s5"
      using each_class_boot [OF assms(1)] by blast
    have "rq_attach_root (icore I) c def_root_domain s = Some s5"
      using run True f3 s5(1) by (simp add: set_rq_online_def s4_def)
    moreover have "attached c s s5"
      unfolding attached_def using True s5(2)
      by (intro exI [of _ s4] conjI) (auto simp: s1_def s2_def s3_def s4_def intro!: kst.equality)
    ultimately show ?thesis by blast
  qed
qed

section \<open>The loop over the CPUs\<close>

lemma init_rt_rq_eq:
  assumes "rt_list s = klist_empty"
  shows "\<exists>b. init_rt_rq q s = upd_rt_rq q (\<lambda>r. r\<lparr>rt_bitmap := b, rt_highest_curr := MAX_RT_PRIO,
     rt_highest_next := MAX_RT_PRIO, rt_nr_migratory := 0, rt_overloaded_flag := False, pushable_tasks := [],
     rt_time := 0, rt_throttled := False, rt_runtime := 0\<rparr>) s \<and>
     (\<forall>i < 100. \<not> b i) \<and> b 100"
proof -
  have "fold (\<lambda>i s. upd_rt_rq q (\<lambda>r. r\<lparr>rt_bitmap := (rt_bitmap r)(i := False)\<rparr>)
      (s\<lparr>rt_list := init_head (q, i) (rt_list s)\<rparr>)) [0..<n] s =
    upd_rt_rq q (\<lambda>r. r\<lparr>rt_bitmap := (\<lambda>i. if i < n then False else rt_bitmap r i)\<rparr>) s" for n
  proof (induction n)
    case (Suc n)
    then show ?case using assms by (simp add: init_head_def klist_empty_def fun_eq_iff less_Suc_eq)
  qed simp
  then show ?thesis
    by (intro exI [of _ "(\<lambda>i. if i < 100 then False else rt_bitmap (rt_rqs s q) i)(100 := True)"])
      (simp add: init_rt_rq_def Let_def MAX_RT_PRIO_def MAX_USER_RT_PRIO_def)
qed

lemma fold_cpu_load: "\<exists>g. fold (\<lambda>j. upd_rq i (\<lambda>r. r\<lparr>cpu_load := (cpu_load r)(j := 0)\<rparr>)) js s = upd_rq i (\<lambda>r. r\<lparr>cpu_load := g\<rparr>) s"
proof (induction js arbitrary: s)
  case Nil
  show ?case by (intro exI [of _ "cpu_load (rqs s i)"]) simp
next
  case (Cons j js)
  obtain g where "fold (\<lambda>j. upd_rq i (\<lambda>r. r\<lparr>cpu_load := (cpu_load r)(j := 0)\<rparr>)) js
      (upd_rq i (\<lambda>r. r\<lparr>cpu_load := (cpu_load r)(j := 0)\<rparr>) s) =
      upd_rq i (\<lambda>r. r\<lparr>cpu_load := g\<rparr>) (upd_rq i (\<lambda>r. r\<lparr>cpu_load := (cpu_load r)(j := 0)\<rparr>) s)"
    using Cons by blast
  moreover have "upd_rq i (\<lambda>r. r\<lparr>cpu_load := g\<rparr>) (upd_rq i (\<lambda>r. r\<lparr>cpu_load := (cpu_load r)(j := 0)\<rparr>) s) =
      upd_rq i (\<lambda>r. r\<lparr>cpu_load := g\<rparr>) s"
    by simp
  ultimately have "fold (\<lambda>j. upd_rq i (\<lambda>r. r\<lparr>cpu_load := (cpu_load r)(j := 0)\<rparr>)) (j # js) s =
      upd_rq i (\<lambda>r. r\<lparr>cpu_load := g\<rparr>) s"
    by (simp only: fold_Cons o_apply)
  then show ?case by blast
qed

text \<open>A CPU that has been initialised, and the state when the first \<open>k\<close> CPUs are.\<close>

definition rt_cpu_booted :: "kst \<Rightarrow> cpu \<Rightarrow> bool" where
  "rt_cpu_booted s c \<longleftrightarrow> (let q = rt_rqs s (Rq_of_cpu c) in
     rt_runtime q = def_rt_runtime (globals s) \<and> rt_tg q = Some root_task_group \<and> rt_rq_rq q = Some c \<and>
     \<not> rt_throttled q \<and> rt_time q = 0 \<and> (\<forall>i < 100. \<not> rt_bitmap q i) \<and> rt_bitmap q 100) \<and>
     tg_rt_rq (task_groups s root_task_group) c = Some (Rq_of_cpu c)"

definition rq_booted :: "kst \<Rightarrow> cpu \<Rightarrow> bool" where
  "rq_booted s c \<longleftrightarrow> nr_running (rqs s c) = 0 \<and> rd_set (rqs s c) \<and> rd (rqs s c) = def_root_domain \<and>
     (online (rqs s c) \<longleftrightarrow> c \<in> cpu_active s)"

definition boot_upto :: "kst \<Rightarrow> nat \<Rightarrow> kst \<Rightarrow> bool" where
  "boot_upto s0 k s \<longleftrightarrow>
     booted k s \<and> quiet_rt s \<and> rt_list s = klist_empty \<and>
     (\<forall>c < k. rt_cpu_booted s c \<and> rq_booted s c) \<and> (\<forall>c. k \<le> c \<longrightarrow> \<not> rd_set (rqs s c) \<and> \<not> online (rqs s c)) \<and>
     rd_refcount (root_domains s def_root_domain) = 1 + int k \<and>
     rd_span (root_domains s def_root_domain) = {0..<k} \<and>
     rd_online (root_domains s def_root_domain) = {0..<k} \<inter> cpu_active s \<and>
     (\<forall>c. curr (rqs s c) = curr (rqs s0 c)) \<and> nr_cpus s = nr_cpus s0 \<and> this_cpu s = this_cpu s0 \<and> tasks s = tasks s0 \<and>
     globals s = globals s0 \<and>
     cpu_active s = cpu_active s0 \<and>
     (\<forall>x. tg_children (task_groups s x) = tg_children (task_groups s0 x) \<and>
          tg_parent (task_groups s x) = tg_parent (task_groups s0 x) \<and>
          tg_rt_period (task_groups s x) = tg_rt_period (task_groups s0 x) \<and>
          tg_rt_runtime (task_groups s x) = tg_rt_runtime (task_groups s0 x))"

lemma boot_upto_fair: "fair_part s s' \<Longrightarrow> boot_upto s0 k s' = boot_upto s0 k s"
  by (simp add: boot_upto_def booted_def quiet_rt_def rt_cpu_booted_def rq_booted_def fair_partD)

text \<open>A step that works on CPU \<open>k\<close> only.\<close>

definition boot_same :: "nat \<Rightarrow> kst \<Rightarrow> kst \<Rightarrow> bool" where
  "boot_same k s s' \<longleftrightarrow>
     wrr_list s' = wrr_list s \<and> leaf_wrr s' = leaf_wrr s \<and> rt_list s' = rt_list s \<and>
     (\<forall>q. wrr_nr_running (wrr_rqs s' q) = wrr_nr_running (wrr_rqs s q)) \<and>
     (\<forall>q. rt_overloaded_flag (rt_rqs s' q) \<longrightarrow> rt_overloaded_flag (rt_rqs s q)) \<and>
     (\<forall>c < k. wrr_rqs s' (Rq_of_cpu c) = wrr_rqs s (Rq_of_cpu c) \<and> rt_rqs s' (Rq_of_cpu c) = rt_rqs s (Rq_of_cpu c) \<and>
        rqs s' c = rqs s c \<and> tg_rt_rq (task_groups s' root_task_group) c = tg_rt_rq (task_groups s root_task_group) c) \<and>
     (\<forall>c. curr (rqs s' c) = curr (rqs s c)) \<and>
     (\<forall>c. k \<le> c \<longrightarrow> (rd_set (rqs s' c) \<longrightarrow> rd_set (rqs s c)) \<and> (online (rqs s' c) \<longrightarrow> online (rqs s c))) \<and>
     root_domains s' = root_domains s \<and> nr_cpus s' = nr_cpus s \<and> this_cpu s' = this_cpu s \<and> tasks s' = tasks s \<and>
     globals s' = globals s \<and> cpu_active s' = cpu_active s \<and>
     (\<forall>x. tg_children (task_groups s' x) = tg_children (task_groups s x) \<and>
          tg_parent (task_groups s' x) = tg_parent (task_groups s x) \<and>
          tg_rt_period (task_groups s' x) = tg_rt_period (task_groups s x) \<and>
          tg_rt_runtime (task_groups s' x) = tg_rt_runtime (task_groups s x))"

lemma boot_same_upto: "boot_same k s s' \<Longrightarrow> boot_upto s0 k s \<Longrightarrow> boot_upto s0 k s'"
  unfolding boot_upto_def boot_same_def booted_def quiet_rt_def rt_cpu_booted_def rq_booted_def
  by (elim conjE) simp

lemma attached_upto:
  assumes s: "boot_upto s0 k s" and at: "attached k s s'"
    and rt: "rt_cpu_booted s k" and nr: "nr_running (rqs s k) = 0"
    and w: "wrr_rq_rq (wrr_rqs s (Rq_of_cpu k)) = Some k" "\<forall>i<LEVELS. \<not> wrr_bitmap (wrr_rqs s (Rq_of_cpu k)) i"
      "wrr_bitmap (wrr_rqs s (Rq_of_cpu k)) LEVELS"
  shows "boot_upto s0 (Suc k) (upd_rq k (\<lambda>r. r\<lparr>nr_iowait := 0\<rparr>) s')"
proof -
  obtain t where fp: "fair_part t s'" and t: "t = s\<lparr>rqs := (rqs s)(k := (rqs s k)\<lparr>rd := def_root_domain, rd_set := True, online := k \<in> cpu_active s\<rparr>),
     root_domains := (root_domains s)(def_root_domain := (root_domains s def_root_domain)
       \<lparr>rd_refcount := rd_refcount (root_domains s def_root_domain) + 1,
        rd_span := insert k (rd_span (root_domains s def_root_domain)),
        rd_online := (if k \<in> cpu_active s then insert k else id) (rd_online (root_domains s def_root_domain))\<rparr>)\<rparr>"
    using at unfolding attached_def by blast
  have "booted (Suc k) t" using s w by (auto simp: boot_upto_def booted_def t less_Suc_eq)
  moreover have "\<forall>c < Suc k. rt_cpu_booted t c \<and> rq_booted t c"
    using s rt nr by (auto simp: boot_upto_def rt_cpu_booted_def rq_booted_def t less_Suc_eq)
  ultimately have "boot_upto s0 (Suc k) t"
    using s unfolding boot_upto_def quiet_rt_def by (auto simp: t atLeast0_lessThan_Suc)
  then have "boot_upto s0 (Suc k) s'" using fp boot_upto_fair by blast
  moreover have "boot_upto s0 n (upd_rq k (\<lambda>r. r\<lparr>nr_iowait := 0\<rparr>) x) = boot_upto s0 n x" for n x
  proof -
    let ?y = "upd_rq k (\<lambda>r. r\<lparr>nr_iowait := 0\<rparr>) x"
    have "rq_booted ?y c = rq_booted x c" "rt_cpu_booted ?y c = rt_cpu_booted x c"
      "rd_set (rqs ?y c) = rd_set (rqs x c)" "online (rqs ?y c) = online (rqs x c)"
      "curr (rqs ?y c) = curr (rqs x c)" for c
      by (simp_all add: rq_booted_def rt_cpu_booted_def)
    then show ?thesis unfolding boot_upto_def booted_def quiet_rt_def by simp
  qed
  ultimately show ?thesis by blast
qed

lemma Let_ex: "(\<And>z. z = x \<Longrightarrow> \<exists>y. f z = Some y \<and> Q y) \<Longrightarrow> \<exists>y. Let x f = Some y \<and> Q y"
  by simp

lemma sched_init_cpu_step:
  assumes laws: "boot_laws I" and s: "boot_upto s0 k s"
  shows "\<exists>s'. sched_init_cpu I k s = Some s' \<and> boot_upto s0 (Suc k) s'"
  unfolding sched_init_cpu_def
proof ((rule Let_ex)+)
  fix K s1 s2 s3 s4 s5 s6 s7 s8 s9 s10 s11 s12 s13 s14 s15
  assume K: "K = icore I"
    and e1: "s1 = upd_rq k (\<lambda>r. r\<lparr>nr_running := 0, calc_load_active := 0,
                             calc_load_update := jiffies s + LOAD_FREQ (base K)\<rparr>) s"
    and e2: "s2 = init_cfs_rq I k s1"
    and e3: "s3 = init_rt_rq (Rq_of_cpu k) s2"
    and e4: "s4 = init_wrr_rq (Rq_of_cpu k) s3"
    and e5: "s5 = upd_tg root_task_group (\<lambda>g. g\<lparr>tg_shares := ROOT_TASK_GROUP_LOAD\<rparr>) s4"
    and e6: "s6 = init_cfs_bandwidth I root_task_group s5"
    and e7: "s7 = init_tg_cfs_entry I root_task_group k s6"
    and e8: "s8 = upd_rt_rq (Rq_of_cpu k) (\<lambda>r. r\<lparr>rt_runtime := def_rt_runtime (globals s7)\<rparr>) s7"
    and e9: "s9 = s8\<lparr>leaf_rt := init_head k (leaf_rt s8)\<rparr>"
    and e10: "s10 = init_tg_rt_entry root_task_group (Rq_of_cpu k) None k None s9"
    and e11: "s11 = s10\<lparr>leaf_wrr := init_head k (leaf_wrr s10)\<rparr>"
    and e12: "s12 = init_tg_wrr_entry root_task_group (Rq_of_cpu k) None k None s11"
    and e13: "s13 = fold (\<lambda>j. upd_rq k (\<lambda>r. r\<lparr>cpu_load := (cpu_load r)(j := 0)\<rparr>)) [0..<CPU_LOAD_IDX_MAX] s12"
    and e14: "s14 = upd_rq k (\<lambda>r. r\<lparr>last_load_update_tick := jiffies s13\<rparr>) s13"
    and e15: "s15 = upd_rq k (\<lambda>r. r\<lparr>rd_set := False, post_schedule_flag := False, online := False, idle_stamp := 0,
                             avg_idle := 2 * migration_cost K\<rparr>) s14"
  have fair: "fair_part s1 s2" "fair_part s5 s6" "fair_part s6 s7"
    using laws by (simp_all add: e2 e6 e7 boot_laws_def)
  have b1: "boot_upto s0 k s1" by (rule boot_same_upto [OF _ s]) (simp add: boot_same_def e1)
  then have b2: "boot_upto s0 k s2" using fair(1) boot_upto_fair by blast
  obtain b where s3: "s3 = upd_rt_rq (Rq_of_cpu k) (\<lambda>r. r\<lparr>rt_bitmap := b, rt_highest_curr := MAX_RT_PRIO,
     rt_highest_next := MAX_RT_PRIO, rt_nr_migratory := 0, rt_overloaded_flag := False, pushable_tasks := [],
     rt_time := 0, rt_throttled := False, rt_runtime := 0\<rparr>) s2" "\<forall>i < 100. \<not> b i" "b 100"
    using init_rt_rq_eq [of s2 "Rq_of_cpu k"] b2 unfolding e3 boot_upto_def by blast
  have b3: "boot_upto s0 k s3" by (rule boot_same_upto [OF _ b2]) (simp add: boot_same_def s3)
  have s4: "s4 = upd_wrr_rq (Rq_of_cpu k) (\<lambda>r. r\<lparr>wrr_bitmap :=
           (\<lambda>i. if i < LEVELS then False else if i = LEVELS then True else wrr_bitmap r i)\<rparr>) s3"
    using init_wrr_rq_eq [of s3 "Rq_of_cpu k"] b3 unfolding e4 boot_upto_def booted_def by blast
  have b4: "boot_upto s0 k s4" by (rule boot_same_upto [OF _ b3]) (simp add: boot_same_def s4)
  have b5: "boot_upto s0 k s5" by (rule boot_same_upto [OF _ b4]) (simp add: boot_same_def e5)
  have b7: "boot_upto s0 k s7" using b5 fair(2,3) boot_upto_fair by blast
  have b8: "boot_upto s0 k s8" by (rule boot_same_upto [OF _ b7]) (simp add: boot_same_def e8)
  have b9: "boot_upto s0 k s9" by (rule boot_same_upto [OF _ b8]) (simp add: boot_same_def e9)
  have b10: "boot_upto s0 k s10"
    by (rule boot_same_upto [OF _ b9]) (simp add: boot_same_def e10 init_tg_rt_entry_def Let_def)
  have "leaf_wrr s10 = klist_empty" using b10 by (simp add: boot_upto_def booted_def)
  then have s11: "s11 = s10"
    by (simp add: e11 del: fun_upd_apply)
  have b12: "boot_upto s0 k s12"
    by (rule boot_same_upto [OF _ b10]) (simp add: boot_same_def e12 s11 init_tg_wrr_entry_def Let_def)
  obtain g where s13: "s13 = upd_rq k (\<lambda>r. r\<lparr>cpu_load := g\<rparr>) s12"
    using fold_cpu_load [of k "[0..<CPU_LOAD_IDX_MAX]" s12] e13 by blast
  have b13: "boot_upto s0 k s13" by (rule boot_same_upto [OF _ b12]) (simp add: boot_same_def s13)
  have b14: "boot_upto s0 k s14" by (rule boot_same_upto [OF _ b13]) (simp add: boot_same_def e14)
  have b15: "boot_upto s0 k s15" by (rule boot_same_upto [OF _ b14]) (simp add: boot_same_def e15)
  show "\<exists>y. do { s \<leftarrow> rq_attach_root K k def_root_domain s15; Some (upd_rq k (\<lambda>r. r\<lparr>nr_iowait := 0\<rparr>) s) } = Some y \<and>
     boot_upto s0 (Suc k) y"
  proof -
    let ?q = "Rq_of_cpu k"
    have rt: "rt_rqs s15 = rt_rqs s10" "rt_rqs s7 = rt_rqs s3" "globals s7 = globals s0" "globals s15 = globals s0"
      using b7 b15 fair by (simp_all add: e15 e14 s13 e12 s11 init_tg_wrr_entry_def Let_def fair_partD e5 s4 boot_upto_def)
    have rt_k: "rt_runtime (rt_rqs s15 ?q) = def_rt_runtime (globals s15)" "rt_tg (rt_rqs s15 ?q) = Some root_task_group"
      "rt_rq_rq (rt_rqs s15 ?q) = Some k" "\<not> rt_throttled (rt_rqs s15 ?q)" "rt_time (rt_rqs s15 ?q) = 0"
      "rt_bitmap (rt_rqs s15 ?q) = b"
      by (simp_all add: rt e10 e9 e8 s3 init_tg_rt_entry_def Let_def)
    have tg_k: "tg_rt_rq (task_groups s15 root_task_group) k = Some ?q"
      by (simp add: e15 e14 s13 e12 s11 e10 init_tg_wrr_entry_def init_tg_rt_entry_def Let_def)
    have rt_cpu: "rt_cpu_booted s15 k"
      using rt_k tg_k s3(2,3) by (simp add: rt_cpu_booted_def Let_def)
    have nr: "nr_running (rqs s15 k) = 0"
      using fair by (simp add: e15 e14 s13 e12 s11 e10 e9 e8 e5 s4 s3 e1 init_tg_wrr_entry_def init_tg_rt_entry_def
        Let_def fair_partD)
    have "\<not> rd_set (rqs s15 k)" "\<not> online (rqs s15 k)" by (simp_all add: e15)
    then obtain s16 where s16: "rq_attach_root K k def_root_domain s15 = Some s16" "attached k s15 s16"
      using rq_attach_root_boot [OF laws] b15 unfolding K boot_upto_def by blast
    have wrr_k: "wrr_bitmap (wrr_rqs s15 ?q) = (\<lambda>i. if i < LEVELS then False else if i = LEVELS then True else wrr_bitmap (wrr_rqs s3 ?q) i)"
      "wrr_rq_rq (wrr_rqs s15 ?q) = Some k"
      using fair(2,3) by (simp_all add: e15 e14 s13 e12 s11 e10 e9 e8 e5 s4 init_tg_wrr_entry_def init_tg_rt_entry_def
        Let_def fair_partD)
    have "boot_upto s0 (Suc k) (upd_rq k (\<lambda>r. r\<lparr>nr_iowait := 0\<rparr>) s16)"
      by (rule attached_upto [OF b15 s16(2) rt_cpu nr]) (simp_all add: wrr_k)
    then show ?thesis using s16(1) by simp
  qed
qed

lemma sched_init_cpus_boot:
  assumes "boot_laws I" "boot_upto s0 m s" "m \<le> n"
  shows "\<exists>s'. sched_init_cpus I [m..<n] s = Some s' \<and> boot_upto s0 n s'"
  using assms(3,2)
proof (induction "n - m" arbitrary: m s)
  case (Suc d)
  obtain s1 where "sched_init_cpu I m s = Some s1" "boot_upto s0 (Suc m) s1"
    using sched_init_cpu_step [OF assms(1) Suc.prems(2)] by blast
  then show ?case
    using Suc.hyps(1) [of "Suc m" s1] Suc.hyps(2) Suc.prems by (auto simp: upt_conv_Cons)
qed simp

section \<open>The boot task\<close>

lemma set_load_weight_boot:
  assumes "policy (tasks s p) \<noteq> SCHED_IDLE" "static_prio (tasks s p) \<in> {100..<140}"
  shows "\<exists>T. set_load_weight p s = Some (s\<lparr>tasks := T\<rparr>) \<and> task_class (T p) = task_class (tasks s p)"
proof -
  have "length prio_to_weight = 40" "length prio_to_wmult = 40"
    by (simp_all add: prio_to_weight_def prio_to_wmult_def)
  then show ?thesis using assms by (auto simp: set_load_weight_def table_at_def Let_def)
qed

lemma linked_empty [simp]: "\<not> linked e klist_empty"
  by (simp add: linked_def klist_empty_def)

lemma init_idle_boot:
  assumes "rt_list s = klist_empty" "wrr_list s = klist_empty"
    and "op_set_cpus_allowed (class_of K s p) = None"
  shows "\<exists>s'. init_idle K p c s = Some s' \<and> s' = s\<lparr>tasks := tasks s', rqs := (rqs s)(c := (rqs s c)\<lparr>curr := p, idle := p\<rparr>)\<rparr> \<and>
     tstate (tasks s' p) = TASK_RUNNING \<and> task_class (tasks s' p) = idle_sched_class \<and> cpus_allowed (tasks s' p) = {c} \<and>
     ti_cpu (tasks s' p) = c \<and> on_cpu (tasks s' p) \<and> ti_preempt_count (tasks s' p) = 0"
  by (simp add: init_idle_def sched_fork0_def init_entry_def do_set_cpus_allowed_def opt_call_def assms
    set_task_cpu0_def set_task_rq_def Let_def)

section \<open>Boot\<close>

lemma boot_rt_group:
  assumes "boot_upto s0 n s" "nr_cpus s = n"
  shows "rt_group s root_task_group [0..<n] (map Rq_of_cpu [0..<n])"
proof -
  have "distinct (map Rq_of_cpu [0..<n])" by (simp add: distinct_map inj_on_def)
  moreover have "mask_cpus s {0..<n} = [0..<n]" using assms(2) by (simp add: mask_cpus_def)
  ultimately show ?thesis
    using assms(1) unfolding rt_group_def
    by (auto simp: boot_upto_def rt_cpu_booted_def rq_booted_def Let_def)
qed

lemma same_balanced:
  assumes "\<And>q. q \<in> set qs \<Longrightarrow> rt_runtime (rt_rqs s q) = tg_rt_runtime (task_groups s tg)"
  shows "balanced s tg qs"
proof -
  have "pool qs (runtimes s) = (\<Sum>x\<in>active qs (runtimes s). unat (tg_rt_runtime (task_groups s tg)))"
    unfolding pool_def using assms by (intro sum.cong) (auto simp: active_def)
  then show ?thesis by (simp add: balanced_def)
qed

text \<open>What precedes and what follows the loop.\<close>

definition boot_pre :: "ienv \<Rightarrow> kst \<Rightarrow> kst" where
  "boot_pre I s =
     (let s = upd_tg root_task_group (\<lambda>g. g\<lparr>tg_rt_se := (\<lambda>_. None), tg_rt_rq := (\<lambda>_. None),
                                           tg_wrr_se := (\<lambda>_. None), tg_wrr_rq := (\<lambda>_. None)\<rparr>) s;
          s = init_defrootdomain (masks_ok I) (cpupri_ok I) s;
          s = s\<lparr>globals := (globals s)\<lparr>def_rt_period := global_rt_period s,
                                       def_rt_runtime := global_rt_runtime s\<rparr>\<rparr>;
          s = init_rt_bandwidth root_task_group (global_rt_period s) (global_rt_runtime s) s;
          s = s\<lparr>globals := (globals s)\<lparr>task_group_list := root_task_group # task_group_list (globals s)\<rparr>\<rparr>;
          s = upd_tg root_task_group (\<lambda>g. g\<lparr>tg_children := []\<rparr>) s
      in ext (Task_note ''autogroup_init'' init_task) s)"

definition boot_post :: "ienv \<Rightarrow> kst \<Rightarrow> kst option" where
  "boot_post I s = do {
     s \<leftarrow> set_load_weight init_task s;
     let me = current s;
     s \<leftarrow> init_idle (icore I) me (this_cpu s) s;
     let s = s\<lparr>gload := (gload s)\<lparr>g_calc_load_update := jiffies s + LOAD_FREQ (base (icore I))\<rparr>\<rparr>;
     let s = upd_task me (\<lambda>t. t\<lparr>task_class := fair_sched_class\<rparr>) s;
     let s = init_sched_fair_class I s;
     Some (s\<lparr>globals := (globals s)\<lparr>scheduler_running := True\<rparr>\<rparr>)
   }"

lemma sched_init_split:
  "sched_init I s = do {
     let s = boot_pre I s;
     _ \<leftarrow> BUG_ON (\<not> percpu_ok I);
     s \<leftarrow> sched_init_cpus I [0..<nr_cpus s] s;
     boot_post I s
   }"
  by (simp only: sched_init_def boot_pre_def boot_post_def Let_def)

text \<open>The state of a kernel that has just been loaded: task 0 is on every CPU's \<open>curr\<close> pointer, which is zero.\<close>

definition cold :: "nat \<Rightarrow> kst \<Rightarrow> bool" where
  "cold n s \<longleftrightarrow>
     wrr_list s = klist_empty \<and> leaf_wrr s = klist_empty \<and> rt_list s = klist_empty \<and>
     (\<forall>q. wrr_nr_running (wrr_rqs s q) = 0 \<and> \<not> rt_overloaded_flag (rt_rqs s q)) \<and>
     (\<forall>c. \<not> rd_set (rqs s c) \<and> \<not> online (rqs s c) \<and> curr (rqs s c) = init_task) \<and>
     \<not> scheduler_running (globals s) \<and> task_group_list (globals s) = [] \<and> nr_cpus s = n \<and> this_cpu s = 0"

lemma init_defrootdomain_eq:
  "init_defrootdomain ok pri s = s\<lparr>root_domains := (root_domains s)(def_root_domain :=
     \<lparr>rd_refcount = 1, rto_count = 0, rd_span = {}, rd_online = {}, rto_mask = {}\<rparr>)\<rparr>"
  by (simp add: init_defrootdomain_def init_rootdomain_def Let_def)

lemma boot_pre_upto:
  assumes "cold n s"
  shows "boot_upto (boot_pre I s) 0 (boot_pre I s)" "nr_cpus (boot_pre I s) = n" "this_cpu (boot_pre I s) = 0"
    "tasks (boot_pre I s) = tasks s" "cpu_active (boot_pre I s) = cpu_active s"
    "task_group_list (globals (boot_pre I s)) = [root_task_group]"
    "tg_children (task_groups (boot_pre I s) root_task_group) = []" "curr (rqs (boot_pre I s) c) = init_task"
    "def_rt_runtime (globals (boot_pre I s)) = global_rt_runtime s"
    "tg_rt_runtime (task_groups (boot_pre I s) root_task_group) = global_rt_runtime s"
proof -
  define t where "t = boot_pre I s"
  have eq: "t = s\<lparr>task_groups := (task_groups s)(root_task_group := task_groups t root_task_group), globals := globals t,
      root_domains := (root_domains s)(def_root_domain := \<lparr>rd_refcount = 1, rto_count = 0, rd_span = {},
        rd_online = {}, rto_mask = {}\<rparr>), trace := trace s @ [Task_note ''autogroup_init'' init_task]\<rparr>"
    by (simp add: t_def boot_pre_def init_defrootdomain_eq init_rt_bandwidth_def ext_def Let_def)
  have parts: "tg_children (task_groups t root_task_group) = []"
    "tg_rt_runtime (task_groups t root_task_group) = global_rt_runtime s"
    "def_rt_runtime (globals t) = global_rt_runtime s"
    "task_group_list (globals t) = root_task_group # task_group_list (globals s)"
    "scheduler_running (globals t) = scheduler_running (globals s)"
    by (simp_all add: t_def boot_pre_def init_defrootdomain_eq init_rt_bandwidth_def ext_def Let_def global_rt_runtime_def)
  have same: "rqs t = rqs s" "wrr_list t = wrr_list s" "leaf_wrr t = leaf_wrr s" "rt_list t = rt_list s"
    "wrr_rqs t = wrr_rqs s" "rt_rqs t = rt_rqs s" "nr_cpus t = nr_cpus s" "this_cpu t = this_cpu s" "tasks t = tasks s"
    "cpu_active t = cpu_active s" "root_domains t def_root_domain = \<lparr>rd_refcount = 1, rto_count = 0, rd_span = {},
        rd_online = {}, rto_mask = {}\<rparr>"
    by (subst eq, simp)+
  show "boot_upto (boot_pre I s) 0 (boot_pre I s)" "nr_cpus (boot_pre I s) = n" "this_cpu (boot_pre I s) = 0"
    "tasks (boot_pre I s) = tasks s" "cpu_active (boot_pre I s) = cpu_active s"
    "task_group_list (globals (boot_pre I s)) = [root_task_group]"
    "tg_children (task_groups (boot_pre I s) root_task_group) = []" "curr (rqs (boot_pre I s) c) = init_task"
    "def_rt_runtime (globals (boot_pre I s)) = global_rt_runtime s"
    "tg_rt_runtime (task_groups (boot_pre I s) root_task_group) = global_rt_runtime s"
    using assms unfolding t_def [symmetric]
    by (simp_all add: same parts cold_def boot_upto_def booted_def quiet_rt_def)
qed

text \<open>After the loop only the boot task, its CPU's pointers, the load statistics and the flag change.\<close>

lemma boot_post_ok:
  assumes laws: "boot_laws I" and lists: "rt_list s = klist_empty" "wrr_list s = klist_empty"
    and cur: "this_cpu s = 0" "curr (rqs s 0) = init_task"
    and task: "policy (tasks s init_task) \<noteq> SCHED_IDLE" "static_prio (tasks s init_task) \<in> {100..<140}"
      "op_set_cpus_allowed (ops (icore I) (task_class (tasks s init_task))) = None"
  shows "\<exists>s' T L. boot_post I s = Some (s'\<lparr>globals := (globals s')\<lparr>scheduler_running := True\<rparr>\<rparr>) \<and>
     fair_part (s\<lparr>tasks := T, rqs := (rqs s)(0 := (rqs s 0)\<lparr>curr := init_task, idle := init_task\<rparr>), gload := L\<rparr>) s' \<and>
     tstate (T init_task) = TASK_RUNNING \<and> task_class (T init_task) = fair_sched_class \<and>
     cpus_allowed (T init_task) = {0} \<and> ti_cpu (T init_task) = 0 \<and> on_cpu (T init_task) \<and>
     ti_preempt_count (T init_task) = 0"
proof -
  obtain W where W: "set_load_weight init_task s = Some (s\<lparr>tasks := W\<rparr>)"
      "task_class (W init_task) = task_class (tasks s init_task)"
    using set_load_weight_boot [of s init_task] task(1,2) by auto
  obtain s9 where s9: "init_idle (icore I) init_task 0 (s\<lparr>tasks := W\<rparr>) = Some s9"
    "s9 = s\<lparr>tasks := tasks s9, rqs := (rqs s)(0 := (rqs s 0)\<lparr>curr := init_task, idle := init_task\<rparr>)\<rparr>"
    "tstate (tasks s9 init_task) = TASK_RUNNING" "cpus_allowed (tasks s9 init_task) = {0}"
    "ti_cpu (tasks s9 init_task) = 0" "on_cpu (tasks s9 init_task)" "ti_preempt_count (tasks s9 init_task) = 0"
    using init_idle_boot [of "s\<lparr>tasks := W\<rparr>" "icore I" init_task 0] lists W task(3) by auto
  define L where "L = (gload s9)\<lparr>g_calc_load_update := jiffies s9 + LOAD_FREQ (base (icore I))\<rparr>"
  define T where "T = (tasks s9)(init_task := (tasks s9 init_task)\<lparr>task_class := fair_sched_class\<rparr>)"
  define s11 where "s11 = s9\<lparr>gload := L, tasks := T\<rparr>"
  have "s11 = s\<lparr>tasks := T, rqs := (rqs s)(0 := (rqs s 0)\<lparr>curr := init_task, idle := init_task\<rparr>), gload := L\<rparr>"
    unfolding s11_def by (subst s9(2)) simp
  moreover have "boot_post I s = Some ((init_sched_fair_class I s11)\<lparr>globals :=
      (globals (init_sched_fair_class I s11))\<lparr>scheduler_running := True\<rparr>\<rparr>)"
    using W(1) s9(1) cur by (simp add: boot_post_def s11_def L_def T_def Let_def)
  moreover have "fair_part s11 (init_sched_fair_class I s11)" using laws by (simp add: boot_laws_def)
  ultimately show ?thesis
    using s9(3-7) by (intro exI [of _ "init_sched_fair_class I s11"] exI [of _ T] exI [of _ L]) (simp add: T_def)
qed

text \<open>The groups' part of the booted state is not touched by the boot task.\<close>

lemma boot_groups:
  assumes s: "boot_upto s0 n s" "nr_cpus s = n" "task_group_list (globals s0) = [root_task_group]"
      "tg_children (task_groups s0 root_task_group) = []"
      "def_rt_runtime (globals s0) = tg_rt_runtime (task_groups s0 root_task_group)"
    and x: "fair_part (s\<lparr>tasks := T, rqs := (rqs s)(i := (rqs s i)\<lparr>curr := p, idle := p\<rparr>), gload := L\<rparr>) x"
    and s': "s' = x\<lparr>globals := (globals x)\<lparr>scheduler_running := True\<rparr>\<rparr>"
  shows "basic_inv s'" "group_tree s' (TG root_task_group [])"
    "rt_group s' root_task_group [0..<n] (map Rq_of_cpu [0..<n])"
    "balanced s' root_task_group (map Rq_of_cpu [0..<n])"
    "c < n \<Longrightarrow> rt_runtime (rt_rqs s' (Rq_of_cpu c)) = def_rt_runtime (globals s0) \<and> nr_running (rqs s' c) = 0 \<and>
        rd (rqs s' c) = def_root_domain \<and> (online (rqs s' c) \<longleftrightarrow> c \<in> cpu_active s0)"
    "rd_refcount (root_domains s' def_root_domain) = 1 + int n"
    "rd_span (root_domains s' def_root_domain) = {0..<n}"
    "rd_online (root_domains s' def_root_domain) = {0..<n} \<inter> cpu_active s0"
    "curr (rqs s' i) = p \<and> idle (rqs s' i) = p" "tasks s' = T" "scheduler_running (globals s')"
proof -
  note up = s(1) [unfolded boot_upto_def]
  have keep: "wrr_list s' = wrr_list s" "leaf_wrr s' = leaf_wrr s" "wrr_rqs s' = wrr_rqs s" "rt_rqs s' = rt_rqs s"
    "root_domains s' = root_domains s" "nr_cpus s' = nr_cpus s" "tasks s' = T"
    "task_group_list (globals s') = task_group_list (globals s)"
    "tg_parent (task_groups s' y) = tg_parent (task_groups s y)"
    "tg_children (task_groups s' y) = tg_children (task_groups s y)"
    "tg_rt_rq (task_groups s' y) = tg_rt_rq (task_groups s y)"
    "tg_rt_runtime (task_groups s' y) = tg_rt_runtime (task_groups s y)"
    "rd (rqs s' y) = rd (rqs s y)" "online (rqs s' y) = online (rqs s y)" "nr_running (rqs s' y) = nr_running (rqs s y)" for y
    by (simp_all add: s' fair_partD [OF x])
  have "booted n s'" using up by (simp add: booted_def keep)
  then show "basic_inv s'" using booted_inv [of s'] s(2) by (simp add: keep)
  show "group_tree s' (TG root_task_group [])" using s up by (simp add: group_tree_def keep)
  show "rt_group s' root_task_group [0..<n] (map Rq_of_cpu [0..<n])"
    using boot_rt_group [OF s(1,2)] by (simp add: rt_group_def mask_cpus_def keep)
  show "balanced s' root_task_group (map Rq_of_cpu [0..<n])"
    using up s by (intro same_balanced) (auto simp: keep rt_cpu_booted_def Let_def)
  show "c < n \<Longrightarrow> rt_runtime (rt_rqs s' (Rq_of_cpu c)) = def_rt_runtime (globals s0) \<and> nr_running (rqs s' c) = 0 \<and>
        rd (rqs s' c) = def_root_domain \<and> (online (rqs s' c) \<longleftrightarrow> c \<in> cpu_active s0)"
    using up by (simp add: keep rq_booted_def rt_cpu_booted_def Let_def)
  show "rd_refcount (root_domains s' def_root_domain) = 1 + int n"
    "rd_span (root_domains s' def_root_domain) = {0..<n}"
    "rd_online (root_domains s' def_root_domain) = {0..<n} \<inter> cpu_active s0"
    using up by (simp_all add: keep)
  show "curr (rqs s' i) = p \<and> idle (rqs s' i) = p" "tasks s' = T" "scheduler_running (globals s')"
    by (simp_all add: s' fair_partD [OF x])
qed

text \<open>C8: Booting establishes the invariants. From freshly loaded memory, with a boot task of a nice
  priority whose class has no affinity callback, and with the other classes touching only their
  own data, sched_init does not crash. Afterwards the WRR class's invariant holds on every CPU; the
  root group is the only group; the RT run-queues form the root group on all CPUs, each with the
  global RT runtime, so that the invariant of bandwidth conservation holds to begin with. Every
  CPU is attached to the default root domain, which is online on exactly the active CPUs and
  counts one reference per CPU and its own; the boot task runs as the idle task of CPU 0, in the
  fair class for the time being, bound to that CPU; and the scheduler is marked running.\<close>

theorem sched_init_establishes:
  assumes laws: "boot_laws I" and cold: "cold n s"
    and task: "policy (tasks s init_task) \<noteq> SCHED_IDLE" "static_prio (tasks s init_task) \<in> {100..<140}"
      "op_set_cpus_allowed (ops (icore I) (task_class (tasks s init_task))) = None"
  shows "\<exists>s'. sched_init I s = Some s' \<and> basic_inv s' \<and> group_tree s' (TG root_task_group []) \<and>
     rt_group s' root_task_group [0..<n] (map Rq_of_cpu [0..<n]) \<and>
     balanced s' root_task_group (map Rq_of_cpu [0..<n]) \<and>
     (\<forall>c<n. rt_runtime (rt_rqs s' (Rq_of_cpu c)) = global_rt_runtime s \<and> nr_running (rqs s' c) = 0 \<and>
        rd (rqs s' c) = def_root_domain \<and> (online (rqs s' c) \<longleftrightarrow> c \<in> cpu_active s)) \<and>
     rd_refcount (root_domains s' def_root_domain) = 1 + int n \<and>
     rd_span (root_domains s' def_root_domain) = {0..<n} \<and>
     rd_online (root_domains s' def_root_domain) = {0..<n} \<inter> cpu_active s \<and>
     curr (rqs s' 0) = init_task \<and> idle (rqs s' 0) = init_task \<and>
     (let t = tasks s' init_task in tstate t = TASK_RUNNING \<and> task_class t = fair_sched_class \<and>
        cpus_allowed t = {0} \<and> ti_cpu t = 0 \<and> on_cpu t \<and> ti_preempt_count t = 0) \<and>
     scheduler_running (globals s')"
proof -
  define s0 where "s0 = boot_pre I s"
  note pre = boot_pre_upto [OF cold, of I, folded s0_def]
  obtain s1 where s1: "sched_init_cpus I [0..<n] s0 = Some s1" "boot_upto s0 n s1"
    using sched_init_cpus_boot [OF laws pre(1)] by blast
  note up = s1(2) [unfolded boot_upto_def booted_def]
  have s1_eq: "tasks s1 = tasks s" "nr_cpus s1 = n" "this_cpu s1 = 0" "rt_list s1 = klist_empty"
    "wrr_list s1 = klist_empty" "curr (rqs s1 0) = init_task"
    using up by (simp_all add: pre)
  obtain s2 T L where s2: "boot_post I s1 = Some (s2\<lparr>globals := (globals s2)\<lparr>scheduler_running := True\<rparr>\<rparr>)"
    "fair_part (s1\<lparr>tasks := T, rqs := (rqs s1)(0 := (rqs s1 0)\<lparr>curr := init_task, idle := init_task\<rparr>), gload := L\<rparr>) s2"
    "tstate (T init_task) = TASK_RUNNING" "task_class (T init_task) = fair_sched_class"
    "cpus_allowed (T init_task) = {0}" "ti_cpu (T init_task) = 0" "on_cpu (T init_task)" "ti_preempt_count (T init_task) = 0"
    using boot_post_ok [OF laws s1_eq(4,5,3,6), unfolded s1_eq, OF task] by blast
  show ?thesis
    using boot_groups [OF s1(2) s1_eq(2) pre(6,7) _ s2(2) refl] s2(3-)
      sched_init_split [of I s, folded s0_def] s1(1) s2(1) laws
    by (simp add: pre boot_laws_def)
qed

definition sample_ienv :: ienv where
  "sample_ienv =
     \<lparr>icore = with_rt_class (sample_kenv\<lparr>ops := (ops sample_kenv)(fair_sched_class :=
        (wrr_class sample_env)\<lparr>op_set_cpus_allowed := None\<rparr>)\<rparr>),
      init_cfs_rq = (\<lambda>_ s. s), init_cfs_bandwidth = (\<lambda>_ s. s), init_tg_cfs_entry = (\<lambda>_ _ s. s),
      init_sched_fair_class = (\<lambda>s. s), percpu_ok = True, masks_ok = (\<lambda>_. True), cpupri_ok = True\<rparr>"

definition sample_cold :: kst where
  "sample_cold = (bss 2)\<lparr>tasks := (\<lambda>_. zero_task\<lparr>static_prio := 120\<rparr>)\<rparr>"

theorem sched_init_establishes_witness:
  "\<exists>s'. sched_init sample_ienv sample_cold = Some s' \<and> basic_inv s' \<and> online (rqs s' 1) \<and>
     rt_runtime (rt_rqs s' (Rq_of_cpu 1)) = 950000000"
proof -
  have "boot_laws sample_ienv"
    by (auto simp: boot_laws_def sample_ienv_def with_rt_class_def Let_def sample_kenv_def wrr_class_def wrr_dummy_defs)
  moreover have "cold 2 sample_cold" by (simp add: cold_def sample_cold_def bss_defs init_task_def)
  moreover have "op_set_cpus_allowed (ops (icore sample_ienv) fair_sched_class) = None"
    by (simp add: sample_ienv_def with_rt_class_def Let_def)
  moreover have "global_rt_runtime sample_cold = 950000000"
    by (simp add: global_rt_runtime_def sample_cold_def bss_def NSEC_PER_USEC_def)
  ultimately obtain s' where "sched_init sample_ienv sample_cold = Some s'" "basic_inv s'"
    "\<forall>c<2. rt_runtime (rt_rqs s' (Rq_of_cpu c)) = 950000000 \<and> (online (rqs s' c) \<longleftrightarrow> c \<in> cpu_active sample_cold)"
    using sched_init_establishes [of sample_ienv 2 sample_cold] 
    by (auto simp: sample_cold_def zero_task_def SCHED_IDLE_def)
  then show ?thesis by (simp add: sample_cold_def bss_def)
qed

end
