(* ===== verification/Sched_Domain.thy ===== *)
theory Sched_Domain
  imports Core_Hotplug
begin

text \<open>
  Scheduler domains (kernel/core.c, linux/sched.h): the hierarchy of CPU sets over which the load
  is balanced. Every CPU has a chain of domains from the smallest up; the CPUs of a domain are
  divided into groups, which form a circular list. This theory has the data and the operations on
  one domain; \<open>Sched_Topology\<close> builds and exchanges whole hierarchies.
\<close>

section \<open>Data\<close>

text \<open>Domains, groups and their powers are addressed by numbers; a NULL pointer is \<open>None\<close>.\<close>

type_synonym addr = nat

record sched_group_power =
  sgp_ref :: int
  sgp_power :: u32
  nr_busy_cpus :: int

record sched_group =
  sg_next :: "addr option"
  sg_ref :: int
  group_weight :: nat
  sg_sgp :: "addr option"
  sg_cpus :: "cpu set"

text \<open>\<open>sd_private\<close> is the number of the topology level whose \<open>sd_data\<close> the pointer names.\<close>

record sched_domain =
  sd_parent :: "addr option"
  sd_child :: "addr option"
  sd_groups :: "addr option"
  sd_flags :: u32
  sd_level :: int
  sd_private :: "nat option"
  sd_span_weight :: nat
  sd_span :: "cpu set"

definition zero_sgp :: sched_group_power where
  "zero_sgp = \<lparr>sgp_ref = 0, sgp_power = 0, nr_busy_cpus = 0\<rparr>"

definition zero_sg :: sched_group where
  "zero_sg = \<lparr>sg_next = None, sg_ref = 0, group_weight = 0, sg_sgp = None, sg_cpus = {}\<rparr>"

definition zero_sd :: sched_domain where
  "zero_sd = \<lparr>sd_parent = None, sd_child = None, sd_groups = None, sd_flags = 0, sd_level = 0,
              sd_private = None, sd_span_weight = 0, sd_span = {}\<rparr>"

text \<open>
  The kernel with its domains. \<open>sdd_sd\<close>, \<open>sdd_sg\<close> and \<open>sdd_sgp\<close> are the \<open>sd_data\<close> of each topology
  level, \<open>None\<close> where the per-CPU array is not allocated. \<open>live\<close> holds the addresses handed out and not
  freed, \<open>brk\<close> counts allocations, \<open>rcu_sds\<close> lists the domains that \<open>free_sched_domain\<close> will get after
  a grace period, \<open>klog\<close> the errors printed.
\<close>

record dstate =
  ker :: kst
  sds :: "addr \<Rightarrow> sched_domain"
  sgs :: "addr \<Rightarrow> sched_group"
  sgps :: "addr \<Rightarrow> sched_group_power"
  brk :: nat
  live :: "addr set"
  rcu_sds :: "addr list"
  sdd_sd :: "nat \<Rightarrow> (cpu \<Rightarrow> addr option) option"
  sdd_sg :: "nat \<Rightarrow> (cpu \<Rightarrow> addr option) option"
  sdd_sgp :: "nat \<Rightarrow> (cpu \<Rightarrow> addr option) option"
  rq_sd :: "cpu \<Rightarrow> addr option"
  sd_llc :: "cpu \<Rightarrow> addr option"
  sd_llc_id :: "cpu \<Rightarrow> nat"
  cpu_isolated_map :: "cpu set"
  fallback_doms :: "cpu set"
  doms_cur :: "cpu set list"
  doms_cur_fallback :: bool
  ndoms_cur :: nat
  dattr_cur :: "int list option"
  default_relax_domain_level :: int
  sched_domain_level_max :: int
  num_cpus_frozen :: int
  sched_domain_debug_enabled :: bool
  sched_mc_power_savings :: nat
  sched_smt_power_savings :: nat
  klog :: "string list"

abbreviation upd_ker :: "(kst \<Rightarrow> kst) \<Rightarrow> dstate \<Rightarrow> dstate" where
  "upd_ker f s \<equiv> s\<lparr>ker := f (ker s)\<rparr>"

abbreviation upd_sd :: "addr \<Rightarrow> (sched_domain \<Rightarrow> sched_domain) \<Rightarrow> dstate \<Rightarrow> dstate" where
  "upd_sd a f s \<equiv> s\<lparr>sds := (sds s)(a := f (sds s a))\<rparr>"

abbreviation upd_sg :: "addr \<Rightarrow> (sched_group \<Rightarrow> sched_group) \<Rightarrow> dstate \<Rightarrow> dstate" where
  "upd_sg a f s \<equiv> s\<lparr>sgs := (sgs s)(a := f (sgs s a))\<rparr>"

abbreviation upd_sgp :: "addr \<Rightarrow> (sched_group_power \<Rightarrow> sched_group_power) \<Rightarrow> dstate \<Rightarrow> dstate" where
  "upd_sgp a f s \<equiv> s\<lparr>sgps := (sgps s)(a := f (sgps s a))\<rparr>"

text \<open>\<open>for_each_cpu\<close>, \<open>cpumask_weight\<close> and \<open>cpumask_first\<close>, which is the number of CPUs for an empty mask.\<close>

abbreviation cpus_in :: "dstate \<Rightarrow> cpu set \<Rightarrow> cpu list" where
  "cpus_in s m \<equiv> mask_cpus (ker s) m"

definition cpumask_weight :: "dstate \<Rightarrow> cpu set \<Rightarrow> nat" where
  "cpumask_weight s m = length (cpus_in s m)"

definition cpumask_first :: "dstate \<Rightarrow> cpu set \<Rightarrow> cpu" where
  "cpumask_first s m = (case cpus_in s m of [] \<Rightarrow> nr_cpus (ker s) | c # _ \<Rightarrow> c)"

text \<open>
  The environment: the class tables, which allocations succeed, the fair class's computation of
  group powers, and the machine's topology.
\<close>

record denv =
  dcore :: kenv
  alloc_ok :: "nat \<Rightarrow> bool"
  update_group_power :: "addr \<Rightarrow> cpu \<Rightarrow> dstate \<Rightarrow> dstate"
  arch_topology_changed :: bool
  cpuset_update_active_cpus :: "dstate \<Rightarrow> dstate option"
  SD_SIBLING_INIT :: "sched_domain option"
  SD_MC_INIT :: "sched_domain option"
  SD_BOOK_INIT :: "sched_domain option"
  SD_CPU_INIT :: sched_domain
  SD_NODE_INIT :: "(sched_domain \<times> sched_domain) option"
  topology_thread_cpumask :: "cpu \<Rightarrow> cpu set"
  cpu_coregroup_mask :: "cpu \<Rightarrow> cpu set"
  cpu_book_mask :: "cpu \<Rightarrow> cpu set"
  nr_node_ids :: nat
  cpumask_of_node :: "nat \<Rightarrow> cpu set"
  cpu_to_node :: "cpu \<Rightarrow> nat"
  node_distance :: "nat \<Rightarrow> nat \<Rightarrow> int"
  SD_NODES_PER_DOMAIN :: nat
  force_sd_overlap :: bool

section \<open>Flags\<close>

definition SD_LOAD_BALANCE :: u32 where "SD_LOAD_BALANCE = 0x0001"
definition SD_BALANCE_NEWIDLE :: u32 where "SD_BALANCE_NEWIDLE = 0x0002"
definition SD_BALANCE_EXEC :: u32 where "SD_BALANCE_EXEC = 0x0004"
definition SD_WAKE_AFFINE :: u32 where "SD_WAKE_AFFINE = 0x0020"
definition SD_SHARE_CPUPOWER :: u32 where "SD_SHARE_CPUPOWER = 0x0080"
definition SD_POWERSAVINGS_BALANCE :: u32 where "SD_POWERSAVINGS_BALANCE = 0x0100"
definition SD_SHARE_PKG_RESOURCES :: u32 where "SD_SHARE_PKG_RESOURCES = 0x0200"
definition SD_SERIALIZE :: u32 where "SD_SERIALIZE = 0x0400"
definition SD_ASYM_PACKING :: u32 where "SD_ASYM_PACKING = 0x0800"
definition SD_PREFER_SIBLING :: u32 where "SD_PREFER_SIBLING = 0x1000"
definition SD_OVERLAP :: u32 where "SD_OVERLAP = 0x2000"

lemmas sd_flag_defs = SD_LOAD_BALANCE_def SD_BALANCE_NEWIDLE_def SD_BALANCE_EXEC_def SD_WAKE_AFFINE_def
  SD_SHARE_CPUPOWER_def SD_POWERSAVINGS_BALANCE_def SD_SHARE_PKG_RESOURCES_def SD_SERIALIZE_def
  SD_ASYM_PACKING_def SD_PREFER_SIBLING_def SD_OVERLAP_def

definition SD_ATTR_INIT :: int where "SD_ATTR_INIT = - 1"

definition sd_balance_for_mc_power :: "dstate \<Rightarrow> u32" where
  "sd_balance_for_mc_power s =
     (if sched_smt_power_savings s \<noteq> 0 then SD_POWERSAVINGS_BALANCE
      else if sched_mc_power_savings s = 0 then SD_PREFER_SIBLING
      else 0)"

definition sd_balance_for_package_power :: "dstate \<Rightarrow> u32" where
  "sd_balance_for_package_power s =
     (if sched_mc_power_savings s \<noteq> 0 \<or> sched_smt_power_savings s \<noteq> 0 then SD_POWERSAVINGS_BALANCE
      else SD_PREFER_SIBLING)"

definition sd_power_saving_flags :: "dstate \<Rightarrow> u32" where
  "sd_power_saving_flags s =
     (if sched_mc_power_savings s \<noteq> 0 \<or> sched_smt_power_savings s \<noteq> 0 then SD_BALANCE_NEWIDLE else 0)"

definition arch_sd_sibling_asym_packing :: u32 where
  "arch_sd_sibling_asym_packing = 0 * SD_ASYM_PACKING"

definition test_sd_parent :: "dstate \<Rightarrow> addr \<Rightarrow> u32 \<Rightarrow> bool" where
  "test_sd_parent s a flag =
     (case sd_parent (sds s a) of None \<Rightarrow> False | Some p \<Rightarrow> sd_flags (sds s p) AND flag \<noteq> 0)"

definition group_first_cpu :: "dstate \<Rightarrow> addr \<Rightarrow> cpu" where
  "group_first_cpu s g = cpumask_first s (sg_cpus (sgs s g))"

section \<open>Memory\<close>

text \<open>\<open>kzalloc\<close> and its relatives; freeing what is not allocated is a crash, freeing NULL is not.\<close>

definition kzalloc :: "denv \<Rightarrow> dstate \<Rightarrow> addr option \<times> dstate" where
  "kzalloc D s =
     (let a = brk s; s = s\<lparr>brk := brk s + 1\<rparr> in
      if alloc_ok D a then (Some a, s\<lparr>live := insert a (live s)\<rparr>) else (None, s))"

definition kfree :: "addr option \<Rightarrow> dstate \<Rightarrow> dstate option" where
  "kfree p s =
     (case p of None \<Rightarrow> Some s
      | Some a \<Rightarrow> if a \<in> live s then Some (s\<lparr>live := live s - {a}\<rparr>) else None)"

text \<open>The list of groups is circular: the next pointer is read before the group is freed.\<close>

partial_function (option) free_groups_loop :: "bool \<Rightarrow> addr \<Rightarrow> addr \<Rightarrow> dstate \<Rightarrow> dstate option" where
  "free_groups_loop free_sgp first sg s = do {
     tmp \<leftarrow> sg_next (sgs s sg);
     s \<leftarrow> (if free_sgp then do {
            p \<leftarrow> sg_sgp (sgs s sg);
            let s = upd_sgp p (\<lambda>x. x\<lparr>sgp_ref := sgp_ref x - 1\<rparr>) s;
            if sgp_ref (sgps s p) = 0 then kfree (Some p) s else Some s
          } else Some s);
     s \<leftarrow> kfree (Some sg) s;
     if tmp \<noteq> first then free_groups_loop free_sgp first tmp s else Some s
   }"

definition free_sched_groups :: "addr option \<Rightarrow> bool \<Rightarrow> dstate \<Rightarrow> dstate option" where
  "free_sched_groups sg free_sgp s =
     (case sg of None \<Rightarrow> Some s | Some g \<Rightarrow> free_groups_loop free_sgp g g s)"

definition free_sched_domain :: "addr \<Rightarrow> dstate \<Rightarrow> dstate option" where
  "free_sched_domain a s = do {
     s \<leftarrow> (if sd_flags (sds s a) AND SD_OVERLAP \<noteq> 0 then free_sched_groups (sd_groups (sds s a)) True s
          else do {
            g \<leftarrow> sd_groups (sds s a);
            let s = upd_sg g (\<lambda>x. x\<lparr>sg_ref := sg_ref x - 1\<rparr>) s;
            if sg_ref (sgs s g) = 0 then do {
              s \<leftarrow> kfree (sg_sgp (sgs s g)) s;
              kfree (Some g) s
            } else Some s
          });
     kfree (Some a) s
   }"

definition destroy_sched_domain :: "addr \<Rightarrow> dstate \<Rightarrow> dstate" where
  "destroy_sched_domain a s = s\<lparr>rcu_sds := rcu_sds s @ [a]\<rparr>"

partial_function (option) destroy_sched_domains :: "addr option \<Rightarrow> dstate \<Rightarrow> dstate option" where
  "destroy_sched_domains sd s =
     (case sd of None \<Rightarrow> Some s
      | Some a \<Rightarrow> destroy_sched_domains (sd_parent (sds s a)) (destroy_sched_domain a s))"

section \<open>Degenerate domains\<close>

definition BALANCE_FLAGS :: u32 where
  "BALANCE_FLAGS = SD_LOAD_BALANCE OR SD_BALANCE_NEWIDLE OR SD_BALANCE_FORK OR SD_BALANCE_EXEC OR
     SD_SHARE_CPUPOWER OR SD_SHARE_PKG_RESOURCES"

text \<open>A domain with one CPU, or with one group and no flag that does without groups.\<close>

definition sd_degenerate :: "dstate \<Rightarrow> addr \<Rightarrow> bool option" where
  "sd_degenerate s a =
     (if cpumask_weight s (sd_span (sds s a)) = 1 then Some True
      else do {
        many \<leftarrow> (if sd_flags (sds s a) AND BALANCE_FLAGS \<noteq> 0 then do {
                  g \<leftarrow> sd_groups (sds s a);
                  Some (sg_next (sgs s g) \<noteq> Some g)
                } else Some False);
        if many then Some False
        else if sd_flags (sds s a) AND SD_WAKE_AFFINE \<noteq> 0 then Some False
        else Some True
      })"

text \<open>A parent that adds nothing to its child.\<close>

definition sd_parent_degenerate :: "denv \<Rightarrow> dstate \<Rightarrow> addr \<Rightarrow> addr \<Rightarrow> bool option" where
  "sd_parent_degenerate D s a p = do {
     deg \<leftarrow> sd_degenerate s p;
     if deg then Some True
     else if sd_span (sds s a) \<noteq> sd_span (sds s p) then Some False
     else do {
       let cflags = sd_flags (sds s a);
       let pflags = sd_flags (sds s p);
       g \<leftarrow> sd_groups (sds s p);
       let pflags = (if sg_next (sgs s g) = Some g then
                       let pflags = pflags AND NOT BALANCE_FLAGS
                       in if nr_node_ids D = 1 then pflags AND NOT SD_SERIALIZE else pflags
                     else pflags);
       Some (NOT cflags AND pflags = 0)
     }
   }"

section \<open>The check of a domain\<close>

text \<open>
  \<open>sched_domain_debug_one\<close> prints the domain and complains about what is not as it should be; \<open>klog\<close>
  keeps the complaints. The result -1 ends the caller's loop.
\<close>

partial_function (option) debug_groups ::
  "dstate \<Rightarrow> addr option \<Rightarrow> addr option \<Rightarrow> cpu set \<Rightarrow> (cpu set \<times> string list) option" where
  "debug_groups s start grp groupmask =
     (case grp of None \<Rightarrow> Some (groupmask, [''group is NULL''])
      | Some g \<Rightarrow> do {
          p \<leftarrow> sg_sgp (sgs s g);
          if sgp_power (sgps s p) = 0 then Some (groupmask, [''domain->cpu_power not set''])
          else if cpumask_weight s (sg_cpus (sgs s g)) = 0 then Some (groupmask, [''empty group''])
          else if groupmask \<inter> sg_cpus (sgs s g) \<noteq> {} then Some (groupmask, [''repeated CPUs''])
          else
            let groupmask = groupmask \<union> sg_cpus (sgs s g); grp = sg_next (sgs s g) in
            if grp \<noteq> start then debug_groups s start grp groupmask else Some (groupmask, [])
        })"

definition sched_domain_debug_one :: "addr \<Rightarrow> cpu \<Rightarrow> dstate \<Rightarrow> (int \<times> dstate) option" where
  "sched_domain_debug_one a c s =
     (let sd = sds s a; err = (\<lambda>msgs s. s\<lparr>klog := klog s @ msgs\<rparr>) in
      if sd_flags sd AND SD_LOAD_BALANCE = 0 then
        Some (- 1, err (if sd_parent sd \<noteq> None then [''!SD_LOAD_BALANCE domain has parent''] else []) s)
      else do {
        let s = err (if c \<notin> sd_span sd then [''domain->span does not contain CPU''] else []) s;
        g \<leftarrow> sd_groups sd;
        let s = err (if c \<notin> sg_cpus (sgs s g) then [''domain->groups does not contain CPU''] else []) s;
        (groupmask, msgs) \<leftarrow> debug_groups s (Some g) (Some g) {};
        let s = err msgs s;
        let s = err (if sd_span sd \<noteq> groupmask then [''groups do not span domain->span''] else []) s;
        let s = err (case sd_parent sd of None \<Rightarrow> []
                     | Some p \<Rightarrow> if \<not> groupmask \<subseteq> sd_span (sds s p)
                                then [''parent span is not a superset of domain->span''] else []) s;
        Some (0, s)
      })"

partial_function (option) debug_chain :: "addr \<Rightarrow> cpu \<Rightarrow> dstate \<Rightarrow> dstate option" where
  "debug_chain a c s = do {
     (r, s) \<leftarrow> sched_domain_debug_one a c s;
     if r \<noteq> 0 then Some s
     else case sd_parent (sds s a) of None \<Rightarrow> Some s | Some p \<Rightarrow> debug_chain p c s
   }"

definition sched_domain_debug :: "addr option \<Rightarrow> cpu \<Rightarrow> dstate \<Rightarrow> dstate option" where
  "sched_domain_debug sd c s =
     (if \<not> sched_domain_debug_enabled s then Some s
      else case sd of None \<Rightarrow> Some s | Some a \<Rightarrow> debug_chain a c s)"

section \<open>Attaching a CPU to its domains\<close>

partial_function (option) highest_flag_domain ::
  "dstate \<Rightarrow> addr option \<Rightarrow> u32 \<Rightarrow> addr option \<Rightarrow> addr option option" where
  "highest_flag_domain s sd flag hsd =
     (case sd of None \<Rightarrow> Some hsd
      | Some a \<Rightarrow> if sd_flags (sds s a) AND flag = 0 then Some hsd
                 else highest_flag_domain s (sd_parent (sds s a)) flag (Some a))"

definition update_top_cache_domain :: "cpu \<Rightarrow> dstate \<Rightarrow> dstate option" where
  "update_top_cache_domain c s = do {
     sd \<leftarrow> highest_flag_domain s (rq_sd s c) SD_SHARE_PKG_RESOURCES None;
     let id = (case sd of None \<Rightarrow> c | Some a \<Rightarrow> cpumask_first s (sd_span (sds s a)));
     Some (s\<lparr>sd_llc := (sd_llc s)(c := sd), sd_llc_id := (sd_llc_id s)(c := id)\<rparr>)
   }"

definition cpus_share_cache :: "dstate \<Rightarrow> cpu \<Rightarrow> cpu \<Rightarrow> bool" where
  "cpus_share_cache s this_c that_c \<longleftrightarrow> sd_llc_id s this_c = sd_llc_id s that_c"

text \<open>The domains which do not contribute to scheduling are removed from the chain.\<close>

partial_function (option) collapse_parents :: "denv \<Rightarrow> addr \<Rightarrow> dstate \<Rightarrow> dstate option" where
  "collapse_parents D tmp s =
     (case sd_parent (sds s tmp) of None \<Rightarrow> Some s
      | Some p \<Rightarrow> do {
          deg \<leftarrow> sd_parent_degenerate D s tmp p;
          if deg then
            let pp = sd_parent (sds s p);
                s = upd_sd tmp (\<lambda>x. x\<lparr>sd_parent := pp\<rparr>) s;
                s = (case pp of None \<Rightarrow> s | Some q \<Rightarrow> upd_sd q (\<lambda>x. x\<lparr>sd_child := Some tmp\<rparr>) s)
            in collapse_parents D tmp (destroy_sched_domain p s)
          else collapse_parents D p s
        })"

definition drop_base :: "addr option \<Rightarrow> dstate \<Rightarrow> (addr option \<times> dstate) option" where
  "drop_base sd s =
     (case sd of None \<Rightarrow> Some (None, s)
      | Some tmp \<Rightarrow> do {
          deg \<leftarrow> sd_degenerate s tmp;
          if deg then
            let sd = sd_parent (sds s tmp);
                s = destroy_sched_domain tmp s
            in Some (sd, case sd of None \<Rightarrow> s | Some a \<Rightarrow> upd_sd a (\<lambda>x. x\<lparr>sd_child := None\<rparr>) s)
          else Some (sd, s)
        })"

definition cpu_attach_domain :: "denv \<Rightarrow> addr option \<Rightarrow> nat \<Rightarrow> cpu \<Rightarrow> dstate \<Rightarrow> dstate option" where
  "cpu_attach_domain D sd d c s = do {
     s \<leftarrow> (case sd of None \<Rightarrow> Some s | Some a \<Rightarrow> collapse_parents D a s);
     (sd, s) \<leftarrow> drop_base sd s;
     s \<leftarrow> sched_domain_debug sd c s;
     k \<leftarrow> rq_attach_root (dcore D) c d (ker s);
     let s = s\<lparr>ker := k\<rparr>;
     let tmp = rq_sd s c;
     let s = s\<lparr>rq_sd := (rq_sd s)(c := sd)\<rparr>;
     s \<leftarrow> destroy_sched_domains tmp s;
     update_top_cache_domain c s
   }"

end
