(* ===== verification/Sched_Topology.thy ===== *)
theory Sched_Topology
  imports Sched_Domain
begin

text \<open>
  Building and exchanging the hierarchies of scheduler domains (kernel/core.c): groups, topology
  levels, the allocation of everything a build needs, \<open>build_sched_domains\<close>,
  \<open>partition_sched_domains\<close> and the boot and hotplug code that calls them.
\<close>

section \<open>Nodes\<close>

text \<open>The closest node not yet used, seen from \<open>node\<close>; the second component is \<open>used_nodes\<close>.\<close>

definition find_next_best_node :: "denv \<Rightarrow> nat \<Rightarrow> nat set \<Rightarrow> nat option \<times> nat set" where
  "find_next_best_node D node used =
     (let (_, best) = fold (\<lambda>i (min_val, best).
            let n = (node + i) mod nr_node_ids D in
            if cpumask_of_node D n = {} then (min_val, best)
            else if n \<in> used then (min_val, best)
            else
              let val = node_distance D node n in
              if val < min_val then (val, Some n) else (min_val, best))
          [0..<nr_node_ids D] (0x7fffffff, None)
      in (best, case best of None \<Rightarrow> used | Some n \<Rightarrow> insert n used))"

fun node_span_loop :: "denv \<Rightarrow> nat \<Rightarrow> nat \<Rightarrow> nat set \<Rightarrow> cpu set \<Rightarrow> cpu set" where
  "node_span_loop D node 0 used span = span"
| "node_span_loop D node (Suc k) used span =
     (case find_next_best_node D node used of
        (None, used) \<Rightarrow> span
      | (Some n, used) \<Rightarrow> node_span_loop D node k used (span \<union> cpumask_of_node D n))"

definition sched_domain_node_span :: "denv \<Rightarrow> nat \<Rightarrow> cpu set" where
  "sched_domain_node_span D node =
     node_span_loop D node (SD_NODES_PER_DOMAIN D - 1) {node} (cpumask_of_node D node)"

definition cpu_node_mask :: "denv \<Rightarrow> cpu \<Rightarrow> cpu set" where
  "cpu_node_mask D c = sched_domain_node_span D (cpu_to_node D c)"

definition cpu_cpu_mask :: "denv \<Rightarrow> cpu \<Rightarrow> cpu set" where
  "cpu_cpu_mask D c = cpumask_of_node D (cpu_to_node D c)"

definition cpu_smt_mask :: "denv \<Rightarrow> cpu \<Rightarrow> cpu set" where
  "cpu_smt_mask D c = topology_thread_cpumask D c"

text \<open>\<open>cpu_allnodes_mask\<close> is all possible CPUs.\<close>

definition cpu_allnodes_mask :: "dstate \<Rightarrow> cpu \<Rightarrow> cpu set" where
  "cpu_allnodes_mask s c = {0..<nr_cpus (ker s)}"

section \<open>Topology levels\<close>

record sched_domain_topology_level =
  tl_init :: sched_domain
  tl_mask :: "cpu \<Rightarrow> cpu set"
  tl_overlap :: bool

text \<open>
  The levels that are configured, bottom up. \<open>SD_x_INIT\<close> is \<open>None\<close> where its option is off; the NUMA
  levels come together.
\<close>

definition default_topology :: "denv \<Rightarrow> dstate \<Rightarrow> sched_domain_topology_level list" where
  "default_topology D s =
     (case SD_SIBLING_INIT D of None \<Rightarrow> [] | Some i \<Rightarrow> [\<lparr>tl_init = i, tl_mask = cpu_smt_mask D, tl_overlap = False\<rparr>]) @
     (case SD_MC_INIT D of None \<Rightarrow> [] | Some i \<Rightarrow> [\<lparr>tl_init = i, tl_mask = cpu_coregroup_mask D, tl_overlap = False\<rparr>]) @
     (case SD_BOOK_INIT D of None \<Rightarrow> [] | Some i \<Rightarrow> [\<lparr>tl_init = i, tl_mask = cpu_book_mask D, tl_overlap = False\<rparr>]) @
     [\<lparr>tl_init = SD_CPU_INIT D, tl_mask = cpu_cpu_mask D, tl_overlap = False\<rparr>] @
     (case SD_NODE_INIT D of None \<Rightarrow> []
      | Some (i, j) \<Rightarrow> [\<lparr>tl_init = i, tl_mask = cpu_node_mask D, tl_overlap = True\<rparr>,
                       \<lparr>tl_init = j, tl_mask = cpu_allnodes_mask s, tl_overlap = False\<rparr>])"

text \<open>\<open>sd_init_x\<close>: the CPU's domain of a level is set to the level's initial values.\<close>

definition sd_init :: "sched_domain_topology_level \<Rightarrow> nat \<Rightarrow> cpu \<Rightarrow> dstate \<Rightarrow> (addr \<times> dstate) option" where
  "sd_init lvl l c s = do {
     m \<leftarrow> sdd_sd s l;
     a \<leftarrow> m c;
     Some (a, upd_sd a (\<lambda>_. (tl_init lvl)\<lparr>sd_private := Some l\<rparr>) s)
   }"

section \<open>Groups\<close>

text \<open>
  \<open>get_group\<close>: a CPU stands for its child domain in the domain \<open>sdd\<close>; the group of the domain is that
  of the child's first CPU. \<open>group_cpu\<close> is the call without a place for the group.
\<close>

definition group_cpu :: "nat \<Rightarrow> cpu \<Rightarrow> dstate \<Rightarrow> cpu option" where
  "group_cpu l c s = do {
     m \<leftarrow> sdd_sd s l;
     a \<leftarrow> m c;
     Some (case sd_child (sds s a) of None \<Rightarrow> c | Some ch \<Rightarrow> cpumask_first s (sd_span (sds s ch)))
   }"

definition get_group :: "nat \<Rightarrow> cpu \<Rightarrow> dstate \<Rightarrow> (cpu \<times> addr \<times> dstate) option" where
  "get_group l c s = do {
     c \<leftarrow> group_cpu l c s;
     m \<leftarrow> sdd_sg s l;
     g \<leftarrow> m c;
     m' \<leftarrow> sdd_sgp s l;
     p \<leftarrow> m' c;
     let s = upd_sg g (\<lambda>x. x\<lparr>sg_sgp := Some p\<rparr>) s;
     let s = upd_sgp p (\<lambda>x. x\<lparr>sgp_ref := 1\<rparr>) s;
     Some (c, g, s)
   }"

text \<open>The inner loop of \<open>build_sched_groups\<close>: the CPUs of the span that belong to the group.\<close>

fun fill_group :: "nat \<Rightarrow> cpu \<Rightarrow> addr \<Rightarrow> cpu list \<Rightarrow> cpu set \<Rightarrow> dstate \<Rightarrow> (cpu set \<times> dstate) option" where
  "fill_group l grp g [] covered s = Some (covered, s)"
| "fill_group l grp g (j # js) covered s = do {
     c \<leftarrow> group_cpu l j s;
     if c \<noteq> grp then fill_group l grp g js covered s
     else fill_group l grp g js (insert j covered) (upd_sg g (\<lambda>x. x\<lparr>sg_cpus := insert j (sg_cpus x)\<rparr>) s)
   }"

fun build_groups_loop ::
  "nat \<Rightarrow> cpu list \<Rightarrow> cpu list \<Rightarrow> cpu set \<Rightarrow> addr option \<Rightarrow> addr option \<Rightarrow> dstate \<Rightarrow>
   (addr option \<times> addr option \<times> dstate) option" where
  "build_groups_loop l span [] covered fst_g lst_g s = Some (fst_g, lst_g, s)"
| "build_groups_loop l span (i # is) covered fst_g lst_g s = do {
     (grp, g, s) \<leftarrow> get_group l i s;
     if i \<in> covered then build_groups_loop l span is covered fst_g lst_g s
     else do {
       let s = upd_sg g (\<lambda>x. x\<lparr>sg_cpus := {}\<rparr>) s;
       p \<leftarrow> sg_sgp (sgs s g);
       let s = upd_sgp p (\<lambda>x. x\<lparr>sgp_power := 0\<rparr>) s;
       (covered, s) \<leftarrow> fill_group l grp g span covered s;
       let fst_g = (if fst_g = None then Some g else fst_g);
       let s = (case lst_g of None \<Rightarrow> s | Some la \<Rightarrow> upd_sg la (\<lambda>x. x\<lparr>sg_next := Some g\<rparr>) s);
       build_groups_loop l span is covered fst_g (Some g) s
     }
   }"

text \<open>The result of \<open>build_sched_groups\<close> is always 0 and left out.\<close>

definition build_sched_groups :: "addr \<Rightarrow> cpu \<Rightarrow> dstate \<Rightarrow> dstate option" where
  "build_sched_groups a c s = do {
     l \<leftarrow> sd_private (sds s a);
     (_, g, s) \<leftarrow> get_group l c s;
     let s = upd_sd a (\<lambda>x. x\<lparr>sd_groups := Some g\<rparr>) s;
     let s = upd_sg g (\<lambda>x. x\<lparr>sg_ref := sg_ref x + 1\<rparr>) s;
     let span = sd_span (sds s a);
     if c \<noteq> cpumask_first s span then Some s
     else do {
       (fst_g, lst_g, s) \<leftarrow> build_groups_loop l (cpus_in s span) (cpus_in s span) {} None None s;
       la \<leftarrow> lst_g;
       Some (upd_sg la (\<lambda>x. x\<lparr>sg_next := fst_g\<rparr>) s)
     }
   }"

text \<open>Overlapping domains have groups of their own. The outer \<open>None\<close> is a crash, \<open>Inl\<close> the failed allocation.\<close>

fun overlap_loop ::
  "denv \<Rightarrow> nat \<Rightarrow> cpu \<Rightarrow> cpu list \<Rightarrow> cpu set \<Rightarrow> addr option \<Rightarrow> addr option \<Rightarrow> addr option \<Rightarrow> dstate \<Rightarrow>
   ((addr option + addr option) \<times> dstate) option" where
  "overlap_loop D l c [] covered fst_g lst_g groups s = Some (Inr groups, s)"
| "overlap_loop D l c (i # is) covered fst_g lst_g groups s =
     (if i \<in> covered then overlap_loop D l c is covered fst_g lst_g groups s
      else case kzalloc D s of
        (None, s) \<Rightarrow> Some (Inl fst_g, s)
      | (Some g, s) \<Rightarrow> do {
          let s = upd_sg g (\<lambda>_. zero_sg) s;
          m \<leftarrow> sdd_sd s l;
          child \<leftarrow> m i;
          let span = (case sd_child (sds s child) of None \<Rightarrow> {i} | Some ch \<Rightarrow> sd_span (sds s ch));
          let s = upd_sg g (\<lambda>x. x\<lparr>sg_cpus := span\<rparr>) s;
          m' \<leftarrow> sdd_sgp s l;
          p \<leftarrow> m' (cpumask_first s span);
          let s = upd_sg g (\<lambda>x. x\<lparr>sg_sgp := Some p\<rparr>) s;
          let s = upd_sgp p (\<lambda>x. x\<lparr>sgp_ref := sgp_ref x + 1\<rparr>) s;
          let groups = (if c \<in> span then Some g else groups);
          let fst_g = (if fst_g = None then Some g else fst_g);
          let s = (case lst_g of None \<Rightarrow> s | Some la \<Rightarrow> upd_sg la (\<lambda>x. x\<lparr>sg_next := Some g\<rparr>) s);
          let s = upd_sg g (\<lambda>x. x\<lparr>sg_next := fst_g\<rparr>) s;
          overlap_loop D l c is (covered \<union> span) fst_g (Some g) groups s
        })"

definition build_overlap_sched_groups :: "denv \<Rightarrow> addr \<Rightarrow> cpu \<Rightarrow> dstate \<Rightarrow> (int \<times> dstate) option" where
  "build_overlap_sched_groups D a c s = do {
     l \<leftarrow> sd_private (sds s a);
     (r, s) \<leftarrow> overlap_loop D l c (cpus_in s (sd_span (sds s a))) {} None None None s;
     case r of
       Inr groups \<Rightarrow> Some (0, upd_sd a (\<lambda>x. x\<lparr>sd_groups := groups\<rparr>) s)
     | Inl fst_g \<Rightarrow> do { s \<leftarrow> free_sched_groups fst_g False s; Some (- ENOMEM, s) }
   }"

text \<open>The weights of all groups, then the power of the group the CPU is the first of.\<close>

partial_function (option) weigh_groups :: "addr \<Rightarrow> addr \<Rightarrow> dstate \<Rightarrow> (addr \<times> dstate) option" where
  "weigh_groups start g s = do {
     let s = upd_sg g (\<lambda>x. x\<lparr>group_weight := cpumask_weight s (sg_cpus x)\<rparr>) s;
     n \<leftarrow> sg_next (sgs s g);
     if n \<noteq> start then weigh_groups start n s else Some (n, s)
   }"

definition init_sched_groups_power :: "denv \<Rightarrow> cpu \<Rightarrow> addr \<Rightarrow> dstate \<Rightarrow> dstate option" where
  "init_sched_groups_power D c a s = do {
     g \<leftarrow> sd_groups (sds s a);
     (g, s) \<leftarrow> weigh_groups g g s;
     if c \<noteq> group_first_cpu s g then Some s
     else do {
       let s = update_group_power D a c s;
       p \<leftarrow> sg_sgp (sgs s g);
       Some (upd_sgp p (\<lambda>x. x\<lparr>nr_busy_cpus := int (group_weight (sgs s g))\<rparr>) s)
     }
   }"

section \<open>Domains\<close>

definition set_domain_attribute :: "addr \<Rightarrow> int option \<Rightarrow> dstate \<Rightarrow> dstate" where
  "set_domain_attribute a attr s =
     (let off = (\<lambda>s. upd_sd a (\<lambda>x. x\<lparr>sd_flags := sd_flags x AND NOT (SD_BALANCE_WAKE OR SD_BALANCE_NEWIDLE)\<rparr>) s);
          on = (\<lambda>s. upd_sd a (\<lambda>x. x\<lparr>sd_flags := sd_flags x OR (SD_BALANCE_WAKE OR SD_BALANCE_NEWIDLE)\<rparr>) s);
          set_to = (\<lambda>request. if request < sd_level (sds s a) then off s else on s) in
      case attr of
        None \<Rightarrow> if default_relax_domain_level s < 0 then s else set_to (default_relax_domain_level s)
      | Some lev \<Rightarrow>
          if lev < 0 then
            if default_relax_domain_level s < 0 then s else set_to (default_relax_domain_level s)
          else set_to lev)"

definition build_sched_domain ::
  "sched_domain_topology_level \<Rightarrow> nat \<Rightarrow> cpu set \<Rightarrow> int option \<Rightarrow> addr option \<Rightarrow> cpu \<Rightarrow> dstate \<Rightarrow> (addr \<times> dstate) option" where
  "build_sched_domain lvl l cpu_map attr child c s = do {
     (sd, s) \<leftarrow> sd_init lvl l c s;
     let s = upd_sd sd (\<lambda>x. x\<lparr>sd_span := cpu_map \<inter> tl_mask lvl c\<rparr>) s;
     let s = (case child of None \<Rightarrow> s
              | Some ch \<Rightarrow>
                  let s = upd_sd sd (\<lambda>x. x\<lparr>sd_level := sd_level (sds s ch) + 1\<rparr>) s;
                      s = s\<lparr>sched_domain_level_max := max (sched_domain_level_max s) (sd_level (sds s sd))\<rparr>
                  in upd_sd ch (\<lambda>x. x\<lparr>sd_parent := Some sd\<rparr>) s);
     let s = upd_sd sd (\<lambda>x. x\<lparr>sd_child := child\<rparr>) s;
     Some (sd, set_domain_attribute sd attr s)
   }"

text \<open>The CPU's chain: level by level until a domain spans the whole map. The result is its top.\<close>

fun build_chain ::
  "denv \<Rightarrow> sched_domain_topology_level list \<Rightarrow> nat \<Rightarrow> cpu set \<Rightarrow> int option \<Rightarrow> addr option \<Rightarrow> cpu \<Rightarrow> dstate \<Rightarrow>
   (addr option \<times> dstate) option" where
  "build_chain D [] l cpu_map attr sd c s = Some (sd, s)"
| "build_chain D (lvl # lvls) l cpu_map attr sd c s = do {
     (a, s) \<leftarrow> build_sched_domain lvl l cpu_map attr sd c s;
     let s = (if tl_overlap lvl \<or> force_sd_overlap D then upd_sd a (\<lambda>x. x\<lparr>sd_flags := sd_flags x OR SD_OVERLAP\<rparr>) s else s);
     if cpu_map = sd_span (sds s a) then Some (Some a, s)
     else build_chain D lvls (l + 1) cpu_map attr (Some a) c s
   }"

partial_function (option) lowest_domain :: "dstate \<Rightarrow> addr \<Rightarrow> addr option" where
  "lowest_domain s a = (case sd_child (sds s a) of None \<Rightarrow> Some a | Some ch \<Rightarrow> lowest_domain s ch)"

section \<open>Allocation\<close>

datatype s_alloc = sa_rootdomain | sa_sd | sa_sd_storage | sa_none

text \<open>\<open>False\<close> is -ENOMEM.\<close>

fun sdt_alloc_cpus :: "denv \<Rightarrow> nat \<Rightarrow> cpu list \<Rightarrow> dstate \<Rightarrow> bool \<times> dstate" where
  "sdt_alloc_cpus D l [] s = (True, s)"
| "sdt_alloc_cpus D l (j # js) s =
     (case kzalloc D s of (None, s) \<Rightarrow> (False, s)
      | (Some sd, s) \<Rightarrow>
          let s = upd_sd sd (\<lambda>_. zero_sd) s;
              s = s\<lparr>sdd_sd := (sdd_sd s)(l := map_option (\<lambda>m. m(j := Some sd)) (sdd_sd s l))\<rparr> in
          case kzalloc D s of (None, s) \<Rightarrow> (False, s)
          | (Some sg, s) \<Rightarrow>
              let s = upd_sg sg (\<lambda>_. zero_sg\<lparr>sg_next := Some sg\<rparr>) s;
                  s = s\<lparr>sdd_sg := (sdd_sg s)(l := map_option (\<lambda>m. m(j := Some sg)) (sdd_sg s l))\<rparr> in
              case kzalloc D s of (None, s) \<Rightarrow> (False, s)
              | (Some sgp, s) \<Rightarrow>
                  let s = upd_sgp sgp (\<lambda>_. zero_sgp) s;
                      s = s\<lparr>sdd_sgp := (sdd_sgp s)(l := map_option (\<lambda>m. m(j := Some sgp)) (sdd_sgp s l))\<rparr>
                  in sdt_alloc_cpus D l js s)"

text \<open>A per-CPU array: all its pointers are NULL. It has no address of its own here.\<close>

definition alloc_percpu_array :: "denv \<Rightarrow> dstate \<Rightarrow> (cpu \<Rightarrow> addr option) option \<times> dstate" where
  "alloc_percpu_array D s = (if alloc_ok D (brk s) then Some (\<lambda>_. None) else None, s\<lparr>brk := brk s + 1\<rparr>)"

fun sdt_alloc :: "denv \<Rightarrow> nat \<Rightarrow> nat \<Rightarrow> cpu set \<Rightarrow> dstate \<Rightarrow> bool \<times> dstate" where
  "sdt_alloc D l 0 cpu_map s = (True, s)"
| "sdt_alloc D l (Suc n) cpu_map s =
     (let (m, s) = alloc_percpu_array D s; s = s\<lparr>sdd_sd := (sdd_sd s)(l := m)\<rparr> in
      if m = None then (False, s)
      else let (m, s) = alloc_percpu_array D s; s = s\<lparr>sdd_sg := (sdd_sg s)(l := m)\<rparr> in
      if m = None then (False, s)
      else let (m, s) = alloc_percpu_array D s; s = s\<lparr>sdd_sgp := (sdd_sgp s)(l := m)\<rparr> in
      if m = None then (False, s)
      else case sdt_alloc_cpus D l (cpus_in s cpu_map) s of
        (False, s) \<Rightarrow> (False, s)
      | (True, s) \<Rightarrow> sdt_alloc D (l + 1) n cpu_map s)"

text \<open>Freeing takes what the per-CPU arrays still hold; \<open>p\<close> reads one entry of an array that may be missing.\<close>

definition percpu :: "(cpu \<Rightarrow> addr option) option \<Rightarrow> cpu \<Rightarrow> addr option" where
  "percpu m c = (case m of None \<Rightarrow> None | Some f \<Rightarrow> f c)"

fun sdt_free_cpus :: "nat \<Rightarrow> cpu list \<Rightarrow> dstate \<Rightarrow> dstate option" where
  "sdt_free_cpus l [] s = Some s"
| "sdt_free_cpus l (j # js) s = do {
     s \<leftarrow> (if sdd_sd s l \<noteq> None then do {
            let sd = percpu (sdd_sd s l) j;
            s \<leftarrow> (case sd of None \<Rightarrow> Some s
                 | Some a \<Rightarrow> if sd_flags (sds s a) AND SD_OVERLAP \<noteq> 0
                            then free_sched_groups (sd_groups (sds s a)) False s else Some s);
            kfree (percpu (sdd_sd s l) j) s
          } else Some s);
     s \<leftarrow> kfree (percpu (sdd_sg s l) j) s;
     s \<leftarrow> kfree (percpu (sdd_sgp s l) j) s;
     sdt_free_cpus l js s
   }"

fun sdt_free :: "nat \<Rightarrow> nat \<Rightarrow> cpu set \<Rightarrow> dstate \<Rightarrow> dstate option" where
  "sdt_free l 0 cpu_map s = Some s"
| "sdt_free l (Suc n) cpu_map s = do {
     s \<leftarrow> sdt_free_cpus l (cpus_in s cpu_map) s;
     let s = s\<lparr>sdd_sd := (sdd_sd s)(l := None), sdd_sg := (sdd_sg s)(l := None), sdd_sgp := (sdd_sgp s)(l := None)\<rparr>;
     sdt_free (l + 1) n cpu_map s
   }"

text \<open>\<open>d_rd\<close> is the root domain of \<open>s_data\<close>; \<open>free_percpu(d->sd)\<close> has no effect on the state.\<close>

definition free_domain_allocs :: "nat \<Rightarrow> nat option \<Rightarrow> s_alloc \<Rightarrow> cpu set \<Rightarrow> dstate \<Rightarrow> dstate option" where
  "free_domain_allocs levels d_rd what cpu_map s = do {
     s \<leftarrow> (if what = sa_rootdomain then do {
            d \<leftarrow> d_rd;
            Some (if rd_refcount (root_domains (ker s) d) = 0 then upd_ker (free_rootdomain d) s else s)
          } else Some s);
     if what = sa_none then Some s else sdt_free 0 levels cpu_map s
   }"

definition visit_domain_allocation_hell ::
  "denv \<Rightarrow> nat \<Rightarrow> cpu set \<Rightarrow> dstate \<Rightarrow> s_alloc \<times> nat option \<times> dstate" where
  "visit_domain_allocation_hell D levels cpu_map s =
     (case sdt_alloc D 0 levels cpu_map s of
        (False, s) \<Rightarrow> (sa_sd_storage, None, s)
      | (True, s) \<Rightarrow>
          let (m, s) = alloc_percpu_array D s in
          if m = None then (sa_sd_storage, None, s)
          else
            let d = brk s; mem = (if alloc_ok D d then Some d else None); s = s\<lparr>brk := d + 1\<rparr>;
                (rd, k) = alloc_rootdomain mem (\<lambda>i. alloc_ok D (d + 1 + i)) (alloc_ok D (d + 4)) (ker s);
                s = s\<lparr>ker := k, brk := d + 5\<rparr> in
            if rd = None then (sa_sd, None, s) else (sa_rootdomain, rd, s))"

text \<open>What is in use is taken out of the per-CPU arrays, so that it is not freed.\<close>

definition claim_allocations :: "cpu \<Rightarrow> addr \<Rightarrow> dstate \<Rightarrow> dstate option" where
  "claim_allocations c a s = do {
     l \<leftarrow> sd_private (sds s a);
     m \<leftarrow> sdd_sd s l;
     let s = s\<lparr>sdd_sd := (sdd_sd s)(l := Some (m(c := None)))\<rparr>;
     m \<leftarrow> sdd_sg s l;
     g \<leftarrow> m c;
     let s = (if sg_ref (sgs s g) \<noteq> 0 then s\<lparr>sdd_sg := (sdd_sg s)(l := Some (m(c := None)))\<rparr> else s);
     m \<leftarrow> sdd_sgp s l;
     p \<leftarrow> m c;
     Some (if sgp_ref (sgps s p) \<noteq> 0 then s\<lparr>sdd_sgp := (sdd_sgp s)(l := Some (m(c := None)))\<rparr> else s)
   }"

section \<open>Building all domains of a set of CPUs\<close>

fun build_chains ::
  "denv \<Rightarrow> cpu set \<Rightarrow> int option \<Rightarrow> cpu list \<Rightarrow> (cpu \<Rightarrow> addr option) \<Rightarrow> dstate \<Rightarrow> ((cpu \<Rightarrow> addr option) \<times> dstate) option" where
  "build_chains D cpu_map attr [] bases s = Some (bases, s)"
| "build_chains D cpu_map attr (i # is) bases s = do {
     (top, s) \<leftarrow> build_chain D (default_topology D s) 0 cpu_map attr None i s;
     t \<leftarrow> top;
     a \<leftarrow> lowest_domain s t;
     build_chains D cpu_map attr is (bases(i := Some a)) s
   }"

text \<open>\<open>for (sd = bases; sd; sd = sd->parent)\<close> over one CPU's chain; a negative result stops it.\<close>

partial_function (option) groups_of_chain :: "denv \<Rightarrow> cpu \<Rightarrow> addr option \<Rightarrow> dstate \<Rightarrow> (int \<times> dstate) option" where
  "groups_of_chain D c sd s =
     (case sd of None \<Rightarrow> Some (0, s)
      | Some a \<Rightarrow> do {
          let s = upd_sd a (\<lambda>x. x\<lparr>sd_span_weight := cpumask_weight s (sd_span x)\<rparr>) s;
          (r, s) \<leftarrow> (if sd_flags (sds s a) AND SD_OVERLAP \<noteq> 0 then build_overlap_sched_groups D a c s
                    else do { s \<leftarrow> build_sched_groups a c s; Some (0, s) });
          if r \<noteq> 0 then Some (r, s) else groups_of_chain D c (sd_parent (sds s a)) s
        })"

fun build_all_groups :: "denv \<Rightarrow> (cpu \<Rightarrow> addr option) \<Rightarrow> cpu list \<Rightarrow> dstate \<Rightarrow> (int \<times> dstate) option" where
  "build_all_groups D bases [] s = Some (0, s)"
| "build_all_groups D bases (i # is) s = do {
     (r, s) \<leftarrow> groups_of_chain D i (bases i) s;
     if r \<noteq> 0 then Some (r, s) else build_all_groups D bases is s
   }"

partial_function (option) power_of_chain :: "denv \<Rightarrow> cpu \<Rightarrow> addr option \<Rightarrow> dstate \<Rightarrow> dstate option" where
  "power_of_chain D c sd s =
     (case sd of None \<Rightarrow> Some s
      | Some a \<Rightarrow> do {
          s \<leftarrow> claim_allocations c a s;
          s \<leftarrow> init_sched_groups_power D c a s;
          power_of_chain D c (sd_parent (sds s a)) s
        })"

fun init_all_powers :: "denv \<Rightarrow> (cpu \<Rightarrow> addr option) \<Rightarrow> cpu list \<Rightarrow> dstate \<Rightarrow> dstate option" where
  "init_all_powers D bases [] s = Some s"
| "init_all_powers D bases (i # is) s = do {
     s \<leftarrow> power_of_chain D i (bases i) s;
     init_all_powers D bases is s
   }"

fun attach_all :: "denv \<Rightarrow> (cpu \<Rightarrow> addr option) \<Rightarrow> nat \<Rightarrow> cpu list \<Rightarrow> dstate \<Rightarrow> dstate option" where
  "attach_all D bases d [] s = Some s"
| "attach_all D bases d (i # is) s = do {
     s \<leftarrow> cpu_attach_domain D (bases i) d i s;
     attach_all D bases d is s
   }"

definition build_sched_domains :: "denv \<Rightarrow> cpu set \<Rightarrow> int option \<Rightarrow> dstate \<Rightarrow> (int \<times> dstate) option" where
  "build_sched_domains D cpu_map attr s =
     (let levels = length (default_topology D s);
          (alloc_state, rd, s) = visit_domain_allocation_hell D levels cpu_map s;
          finish = (\<lambda>ret s. do { s \<leftarrow> free_domain_allocs levels rd alloc_state cpu_map s; Some (ret, s) }) in
      if alloc_state \<noteq> sa_rootdomain then finish (- ENOMEM) s
      else do {
        (bases, s) \<leftarrow> build_chains D cpu_map attr (cpus_in s cpu_map) (\<lambda>_. None) s;
        (r, s) \<leftarrow> build_all_groups D bases (cpus_in s cpu_map) s;
        if r \<noteq> 0 then finish (- ENOMEM) s
        else do {
          s \<leftarrow> init_all_powers D bases (rev (cpus_in s cpu_map)) s;
          d \<leftarrow> rd;
          s \<leftarrow> attach_all D bases d (cpus_in s cpu_map) s;
          finish 0 s
        }
      })"

section \<open>Exchanging the partition\<close>

definition detach_destroy_domains :: "denv \<Rightarrow> cpu set \<Rightarrow> dstate \<Rightarrow> dstate option" where
  "detach_destroy_domains D cpu_map s =
     attach_all D (\<lambda>_. None) def_root_domain (cpus_in s cpu_map) s"

text \<open>An attribute is its relax level; NULL is the default attribute.\<close>

definition dattrs_equal :: "int list option \<Rightarrow> nat \<Rightarrow> int list option \<Rightarrow> nat \<Rightarrow> bool" where
  "dattrs_equal cur i new j \<longleftrightarrow>
     (if new = None \<and> cur = None then True
      else (case cur of None \<Rightarrow> SD_ATTR_INIT | Some xs \<Rightarrow> xs ! i) = (case new of None \<Rightarrow> SD_ATTR_INIT | Some xs \<Rightarrow> xs ! j))"

fun destroy_loop ::
  "denv \<Rightarrow> (cpu set \<times> nat) list \<Rightarrow> (cpu set \<times> nat) list \<Rightarrow> int list option \<Rightarrow> int list option \<Rightarrow> dstate \<Rightarrow> dstate option" where
  "destroy_loop D [] new dcur dnew s = Some s"
| "destroy_loop D ((m, i) # cur) new dcur dnew s = do {
     s \<leftarrow> (if list_ex (\<lambda>(m', j). \<not> arch_topology_changed D \<and> m = m' \<and> dattrs_equal dcur i dnew j) new then Some s
          else detach_destroy_domains D m s);
     destroy_loop D cur new dcur dnew s
   }"

fun create_loop ::
  "denv \<Rightarrow> (cpu set \<times> nat) list \<Rightarrow> (cpu set \<times> nat) list \<Rightarrow> int list option \<Rightarrow> int list option \<Rightarrow> dstate \<Rightarrow> dstate option" where
  "create_loop D [] cur dnew dcur s = Some s"
| "create_loop D ((m, i) # new) cur dnew dcur s = do {
     s \<leftarrow> (if list_ex (\<lambda>(m', j). \<not> arch_topology_changed D \<and> m = m' \<and> dattrs_equal dnew i dcur j) cur then Some s
          else do { (_, s) \<leftarrow> build_sched_domains D m (map_option (\<lambda>xs. xs ! i) dnew) s; Some s });
     create_loop D new cur dnew dcur s
   }"

abbreviation indexed :: "'a list \<Rightarrow> ('a \<times> nat) list" where
  "indexed xs \<equiv> zip xs [0..<length xs]"

text \<open>
  \<open>doms_new\<close> is NULL or the list of masks; a NULL list stands for the fallback mask, and then \<open>ndoms_new\<close>
  is 0 or 1. Masks and attributes that are replaced are freed by the caller's allocator, which has
  no part in the state.
\<close>

definition partition_sched_domains ::
  "denv \<Rightarrow> nat \<Rightarrow> cpu set list option \<Rightarrow> int list option \<Rightarrow> dstate \<Rightarrow> dstate option" where
  "partition_sched_domains D ndoms_new doms_new dattr_new s = do {
     let new = (case doms_new of None \<Rightarrow> [] | Some ms \<Rightarrow> take ndoms_new ms);
     s \<leftarrow> destroy_loop D (indexed (take (ndoms_cur s) (doms_cur s))) (indexed new) (dattr_cur s) dattr_new s;
     let (new, s) = (case doms_new of
            None \<Rightarrow> let s = s\<lparr>ndoms_cur := 0, fallback_doms := cpu_active (ker s) - cpu_isolated_map s\<rparr>
                   in (take ndoms_new [fallback_doms s], s)
          | Some ms \<Rightarrow> (new, s));
     s \<leftarrow> create_loop D (indexed new) (indexed (take (ndoms_cur s) (doms_cur s))) dattr_new (dattr_cur s) s;
     Some (s\<lparr>doms_cur := new, doms_cur_fallback := (doms_new = None), dattr_cur := dattr_new, ndoms_cur := ndoms_new\<rparr>)
   }"

text \<open>\<open>alloc_sched_domains\<close> at boot: with no memory the fallback mask is used.\<close>

definition init_sched_domains :: "denv \<Rightarrow> bool \<Rightarrow> cpu set \<Rightarrow> dstate \<Rightarrow> (int \<times> dstate) option" where
  "init_sched_domains D doms_ok cpu_map s =
     (let m = cpu_map - cpu_isolated_map s;
          s = s\<lparr>ndoms_cur := 1, doms_cur := [m], doms_cur_fallback := \<not> doms_ok, dattr_cur := None\<rparr>;
          s = (if doms_ok then s else s\<lparr>fallback_doms := m\<rparr>)
      in build_sched_domains D m None s)"

section \<open>Hotplug, power savings and boot\<close>

text \<open>An action during suspend or resume carries the flag \<open>CPU_TASKS_FROZEN\<close>.\<close>

datatype cpuset_action = Awake cpu_action | Frozen cpu_action

definition cpuset_cpu_active :: "denv \<Rightarrow> cpuset_action \<Rightarrow> dstate \<Rightarrow> (notify_ret \<times> dstate) option" where
  "cpuset_cpu_active D action s =
     (let update = (\<lambda>s. do { s \<leftarrow> cpuset_update_active_cpus D s; Some (NOTIFY_OK, s) });
          thaw = (let s = s\<lparr>num_cpus_frozen := num_cpus_frozen s - 1\<rparr> in
                  if num_cpus_frozen s \<noteq> 0
                  then do { s \<leftarrow> partition_sched_domains D 1 None None s; Some (NOTIFY_OK, s) }
                  else update s) in
      case action of
        Frozen CPU_ONLINE \<Rightarrow> thaw
      | Frozen CPU_DOWN_FAILED \<Rightarrow> thaw
      | Awake CPU_ONLINE \<Rightarrow> update s
      | Awake CPU_DOWN_FAILED \<Rightarrow> update s
      | _ \<Rightarrow> Some (NOTIFY_DONE, s))"

definition cpuset_cpu_inactive :: "denv \<Rightarrow> cpuset_action \<Rightarrow> dstate \<Rightarrow> (notify_ret \<times> dstate) option" where
  "cpuset_cpu_inactive D action s =
     (case action of
        Awake CPU_DOWN_PREPARE \<Rightarrow> do { s \<leftarrow> cpuset_update_active_cpus D s; Some (NOTIFY_OK, s) }
      | Frozen CPU_DOWN_PREPARE \<Rightarrow> do {
          s \<leftarrow> partition_sched_domains D 1 None None (s\<lparr>num_cpus_frozen := num_cpus_frozen s + 1\<rparr>);
          Some (NOTIFY_OK, s)
        }
      | _ \<Rightarrow> Some (NOTIFY_DONE, s))"

text \<open>\<open>rebuild\<close> is \<open>rebuild_sched_domains\<close> of the cpuset code.\<close>

definition reinit_sched_domains :: "denv \<Rightarrow> (dstate \<Rightarrow> dstate option) \<Rightarrow> dstate \<Rightarrow> dstate option" where
  "reinit_sched_domains D rebuild s = do {
     s \<leftarrow> partition_sched_domains D 0 None None s;
     rebuild s
   }"

definition MAX_POWERSAVINGS_BALANCE_LEVELS :: nat where "MAX_POWERSAVINGS_BALANCE_LEVELS = 3"

text \<open>\<open>level\<close> is the number \<open>sscanf\<close> reads, if it reads one; the result is the count or an error.\<close>

definition sched_power_savings_store ::
  "denv \<Rightarrow> (dstate \<Rightarrow> dstate option) \<Rightarrow> nat option \<Rightarrow> nat \<Rightarrow> bool \<Rightarrow> dstate \<Rightarrow> (int \<times> dstate) option" where
  "sched_power_savings_store D rebuild input count smt s =
     (case input of None \<Rightarrow> Some (- EINVAL, s)
      | Some level \<Rightarrow>
          if level \<ge> MAX_POWERSAVINGS_BALANCE_LEVELS then Some (- EINVAL, s)
          else do {
            let s = (if smt then s\<lparr>sched_smt_power_savings := level\<rparr> else s\<lparr>sched_mc_power_savings := level\<rparr>);
            s \<leftarrow> reinit_sched_domains D rebuild s;
            Some (int count, s)
          })"

definition sched_mc_power_savings_store ::
  "denv \<Rightarrow> (dstate \<Rightarrow> dstate option) \<Rightarrow> nat option \<Rightarrow> nat \<Rightarrow> dstate \<Rightarrow> (int \<times> dstate) option" where
  "sched_mc_power_savings_store D rebuild input count s = sched_power_savings_store D rebuild input count False s"

definition sched_smt_power_savings_store ::
  "denv \<Rightarrow> (dstate \<Rightarrow> dstate option) \<Rightarrow> nat option \<Rightarrow> nat \<Rightarrow> dstate \<Rightarrow> (int \<times> dstate) option" where
  "sched_smt_power_savings_store D rebuild input count s = sched_power_savings_store D rebuild input count True s"

text \<open>\<open>granularity\<close> is \<open>sched_init_granularity\<close> of the fair class.\<close>

definition sched_init_smp :: "denv \<Rightarrow> bool \<Rightarrow> (dstate \<Rightarrow> dstate) \<Rightarrow> dstate \<Rightarrow> dstate option" where
  "sched_init_smp D doms_ok granularity s = do {
     (_, s) \<leftarrow> init_sched_domains D doms_ok (cpu_active (ker s)) s;
     let non_isolated = {0..<nr_cpus (ker s)} - cpu_isolated_map s;
     let non_isolated = (if non_isolated = {} then {this_cpu (ker s)} else non_isolated);
     (ret, k) \<leftarrow> set_cpus_allowed_ptr (dcore D) (current (ker s)) non_isolated (ker s);
     _ \<leftarrow> BUG_ON (ret < 0);
     Some (granularity (s\<lparr>ker := k\<rparr>))
   }"

end
