(* ===== verification/Sched_Groups_Spec.thy ===== *)
theory Sched_Groups_Spec
  imports Sched_Topology
begin

text \<open>
  The groups of a scheduler domain: \<open>build_sched_groups\<close> makes a circular list whose groups divide
  the domain's span, and the kernel's own check of a domain complains about nothing exactly when
  that is so.
\<close>

section \<open>Circular lists\<close>

fun links :: "(addr \<Rightarrow> addr option) \<Rightarrow> addr list \<Rightarrow> bool" where
  "links n (x # y # xs) \<longleftrightarrow> n x = Some y \<and> links n (y # xs)"
| "links n xs \<longleftrightarrow> True"

definition ring :: "(addr \<Rightarrow> addr option) \<Rightarrow> addr list \<Rightarrow> bool" where
  "ring n gs \<longleftrightarrow> gs \<noteq> [] \<and> distinct gs \<and> links n (gs @ [hd gs])"

lemma links_append: "links n (xs @ y # ys) \<longleftrightarrow> links n (xs @ [y]) \<and> links n (y # ys)"
proof (induction xs)
  case (Cons x xs)
  then show ?case by (cases xs) auto
qed simp

lemma links_Cons: "links n (x # xs) \<longleftrightarrow> (case xs of [] \<Rightarrow> True | y # _ \<Rightarrow> n x = Some y) \<and> links n xs"
  by (cases xs) auto

lemma links_cong: "(\<And>x. x \<in> set (butlast xs) \<Longrightarrow> n' x = n x) \<Longrightarrow> links n' xs = links n xs"
proof (induction xs rule: induct_list012)
  case (3 x y zs)
  have "links n' (y # zs) = links n (y # zs)" using 3 by (intro 3(2)) auto
  then show ?case using 3(3) by simp
qed auto

lemma ring_close:
  assumes "gs \<noteq> []" "distinct gs" "links n gs" "\<And>x. x \<in> set (butlast gs) \<Longrightarrow> n' x = n x" "n' (List.last gs) = Some (hd gs)"
  shows "ring n' gs"
proof -
  have gs: "butlast gs @ [List.last gs] = gs" using assms(1) by simp
  have "links n' gs" using links_cong [of gs n' n] assms(3,4) by blast
  then have "links n' (butlast gs @ List.last gs # [hd gs])"
    using links_append [of n' "butlast gs" "List.last gs" "[hd gs]"] gs assms(5) by simp
  then show ?thesis using assms(1,2) gs by (simp add: ring_def del: append_butlast_last_id) (metis append.assoc append_Cons append_Nil)
qed

lemma ring_rotate:
  assumes "ring n (xs @ g # ys)"
  shows "ring n (g # ys @ xs)"
proof (cases xs)
  case (Cons x xs')
  have "links n (x # xs' @ [g])" "links n (g # ys @ [x])"
    using assms links_append [of n "x # xs'" g "ys @ [x]"] by (simp_all add: ring_def Cons)
  then have "links n (g # ys @ x # xs' @ [g])" using links_append [of n "g # ys" x "xs' @ [g]"] by simp
  then show ?thesis using assms by (auto simp: ring_def Cons)
qed (use assms in simp)

lemma ring_from:
  assumes "ring n gs" "g \<in> set gs"
  obtains hs where "ring n (g # hs)" "set (g # hs) = set gs"
proof -
  obtain xs ys where "gs = xs @ g # ys" using assms(2) split_list by metis
  then show thesis using that [of "ys @ xs"] ring_rotate [of n xs g ys] assms(1) by auto
qed

section \<open>Building the groups of a domain\<close>

text \<open>The representatives of a list of CPUs, in the order of their first appearance.\<close>

fun firsts :: "(cpu \<Rightarrow> cpu) \<Rightarrow> cpu set \<Rightarrow> cpu list \<Rightarrow> cpu list" where
  "firsts rep seen [] = []"
| "firsts rep seen (i # is) =
     (if rep i \<in> seen then firsts rep seen is else rep i # firsts rep (insert (rep i) seen) is)"

lemma firsts_props [simp]:
  "set (firsts rep seen is) = rep ` set is - seen" "distinct (firsts rep seen is)"
  by (induction "is" arbitrary: seen) auto

text \<open>
  The level is ready for its groups: every CPU of the span has a representative in the span, which
  represents itself, with a group \<open>ga\<close> and a power of its own.
\<close>

definition groups_ready :: "dstate \<Rightarrow> nat \<Rightarrow> cpu set \<Rightarrow> (cpu \<Rightarrow> cpu) \<Rightarrow> (cpu \<Rightarrow> addr) \<Rightarrow> bool" where
  "groups_ready s l span rep ga \<longleftrightarrow>
     (\<forall>j\<in>span. group_cpu l j s = Some (rep j) \<and> rep j \<in> span \<and> rep (rep j) = rep j \<and> j < nr_cpus (ker s)) \<and>
     (\<forall>j\<in>span. \<exists>G P p. sdd_sg s l = Some G \<and> sdd_sgp s l = Some P \<and> G (rep j) = Some (ga (rep j)) \<and> P (rep j) = Some p) \<and>
     inj_on ga (rep ` span)"

definition sg_only :: "dstate \<Rightarrow> dstate \<Rightarrow> bool" where
  "sg_only s s' \<longleftrightarrow> (\<exists>g p. s' = s\<lparr>sgs := g, sgps := p\<rparr>)"

lemma sg_onlyD:
  assumes "sg_only s s'"
  shows "sds s' = sds s" "ker s' = ker s" "sdd_sd s' = sdd_sd s" "sdd_sg s' = sdd_sg s" "sdd_sgp s' = sdd_sgp s"
    "rq_sd s' = rq_sd s" "live s' = live s" "klog s' = klog s" "rcu_sds s' = rcu_sds s" "brk s' = brk s"
  using assms by (auto simp: sg_only_def)

lemma sg_only_refl [simp]: "sg_only s s"
  unfolding sg_only_def by (intro exI [of _ "sgs s"] exI [of _ "sgps s"]) simp

lemma sg_only_upd [simp]: "sg_only s (upd_sg g f s)" "sg_only s (upd_sgp p f' s)"
  unfolding sg_only_def
  by (intro exI [of _ "(sgs s)(g := f (sgs s g))"] exI [of _ "sgps s"], simp)
    (intro exI [of _ "sgs s"] exI [of _ "(sgps s)(p := f' (sgps s p))"], simp)

lemma sg_onlyI:
  assumes "sg_only s t"
  shows "sg_only s (t\<lparr>sgs := a\<rparr>)" "sg_only s (t\<lparr>sgps := b\<rparr>)"
proof -
  obtain g p where "t = s\<lparr>sgs := g, sgps := p\<rparr>" using assms unfolding sg_only_def by blast
  then have "t\<lparr>sgs := a\<rparr> = s\<lparr>sgs := a, sgps := p\<rparr>" "t\<lparr>sgps := b\<rparr> = s\<lparr>sgs := g, sgps := b\<rparr>" by simp_all
  then show "sg_only s (t\<lparr>sgs := a\<rparr>)" "sg_only s (t\<lparr>sgps := b\<rparr>)" unfolding sg_only_def by blast+
qed

lemma sg_only_trans [trans]: "sg_only s s' \<Longrightarrow> sg_only s' s'' \<Longrightarrow> sg_only s s''"
  by (fastforce simp: sg_only_def)

lemma cpumask_first_cong: "ker s' = ker s \<Longrightarrow> cpumask_first s' m = cpumask_first s m"
  by (cases "cpus_in s m") (simp_all add: cpumask_first_def)

lemma cpumask_first_simps [simp]:
  "cpumask_first (s\<lparr>sds := x\<rparr>) m = cpumask_first s m" "cpumask_first (s\<lparr>sgs := y\<rparr>) m = cpumask_first s m"
  "cpumask_first (s\<lparr>sgps := z\<rparr>) m = cpumask_first s m"
  by (rule cpumask_first_cong, simp)+

lemma group_cpu_same:
  assumes "ker s' = ker s" "sdd_sd s' = sdd_sd s"
    and "\<And>x. sd_child (sds s' x) = sd_child (sds s x)" "\<And>x. sd_span (sds s' x) = sd_span (sds s x)"
  shows "group_cpu l j s' = group_cpu l j s"
  by (simp add: group_cpu_def assms(2-4) cpumask_first_cong [OF assms(1)] cong: option.case_cong)

lemma groups_ready_cong:
  assumes "ker s' = ker s" "sdd_sd s' = sdd_sd s" "sdd_sg s' = sdd_sg s" "sdd_sgp s' = sdd_sgp s"
    and "\<And>x. sd_child (sds s' x) = sd_child (sds s x)" "\<And>x. sd_span (sds s' x) = sd_span (sds s x)"
  shows "groups_ready s' l span rep ga = groups_ready s l span rep ga"
  by (simp add: groups_ready_def assms(1,3,4) group_cpu_same [OF assms(1,2,5,6)])

lemma groups_ready_same: "sg_only s s' \<Longrightarrow> groups_ready s' l span rep ga = groups_ready s l span rep ga"
  by (rule groups_ready_cong) (simp_all add: sg_onlyD)

lemma fill_group_eq:
  assumes "\<forall>j\<in>set js. group_cpu l j s = Some (rep j)"
  shows "fill_group l r g js cov s = Some (cov \<union> {j \<in> set js. rep j = r},
    upd_sg g (\<lambda>x. x\<lparr>sg_cpus := sg_cpus x \<union> {j \<in> set js. rep j = r}\<rparr>) s)"
  using assms
proof (induction js arbitrary: cov s)
  case (Cons j js)
  have "\<forall>j\<in>set js. group_cpu l j (upd_sg g f s) = Some (rep j)" for f
    using Cons.prems group_cpu_same [of "upd_sg g f s" s] by simp
  moreover have "{x \<in> set (j # js). rep x = r} =
      (if rep j = r then insert j {x \<in> set js. rep x = r} else {x \<in> set js. rep x = r})" by auto
  ultimately show ?case using Cons by (cases "rep j = r") (simp_all del: fun_upd_apply add: fun_upd_same)
qed simp


definition same_rings :: "dstate \<Rightarrow> dstate \<Rightarrow> bool" where
  "same_rings s s' \<longleftrightarrow> (\<forall>x. sg_next (sgs s' x) = sg_next (sgs s x) \<and> sg_cpus (sgs s' x) = sg_cpus (sgs s x))"

lemma get_group_ready:
  assumes "groups_ready s l span rep ga" "i \<in> span"
  obtains s1 where "get_group l i s = Some (rep i, ga (rep i), s1)" "sg_only s s1" "same_rings s s1"
    "\<exists>p. sg_sgp (sgs s1 (ga (rep i))) = Some p"
proof -
  obtain G P p where *: "sdd_sg s l = Some G" "sdd_sgp s l = Some P" "G (rep i) = Some (ga (rep i))" "P (rep i) = Some p"
    using assms unfolding groups_ready_def by blast
  define s1 where "s1 = upd_sgp p (\<lambda>x. x\<lparr>sgp_ref := 1\<rparr>) (upd_sg (ga (rep i)) (\<lambda>x. x\<lparr>sg_sgp := Some p\<rparr>) s)"
  show thesis
  proof (rule that [of s1])
    show "get_group l i s = Some (rep i, ga (rep i), s1)"
      using assms * by (simp add: get_group_def groups_ready_def s1_def)
    show "sg_only s s1" unfolding s1_def using sg_only_trans sg_only_upd by blast
    show "same_rings s s1" by (simp add: same_rings_def s1_def)
    show "\<exists>p. sg_sgp (sgs s1 (ga (rep i))) = Some p" by (simp add: s1_def)
  qed
qed

text \<open>
  What the loop has done when it has added the groups of the representatives \<open>rs\<close> behind the groups
  \<open>pre\<close>: their CPUs are set, they are linked, and the other groups are as before.
\<close>

definition groups_added :: "cpu set \<Rightarrow> (cpu \<Rightarrow> cpu) \<Rightarrow> (cpu \<Rightarrow> addr) \<Rightarrow> addr list \<Rightarrow> cpu list \<Rightarrow> dstate \<Rightarrow> dstate \<Rightarrow> bool" where
  "groups_added span rep ga pre rs s s' \<longleftrightarrow>
     sg_only s s' \<and>
     (\<forall>r \<in> set rs. sg_cpus (sgs s' (ga r)) = {j \<in> span. rep j = r}) \<and>
     (\<forall>x. x \<notin> ga ` set rs \<longrightarrow> sg_cpus (sgs s' x) = sg_cpus (sgs s x)) \<and>
     links (\<lambda>x. sg_next (sgs s' x)) (pre @ map ga rs) \<and>
     (\<forall>x. x \<notin> set (butlast (pre @ map ga rs)) \<longrightarrow> sg_next (sgs s' x) = sg_next (sgs s x))"

lemma groups_added_same:
  assumes "sg_only s s1" "same_rings s s1"
  shows "groups_added span rep ga pre rs s1 s' \<Longrightarrow> groups_added span rep ga pre rs s s'"
  using assms sg_only_trans by (auto simp: groups_added_def same_rings_def)

lemma groups_added_Cons:
  assumes added: "groups_added span rep ga [ga r] rs t s'" and only: "sg_only s t"
    and cpus: "sg_cpus (sgs t (ga r)) = {j \<in> span. rep j = r}" "\<forall>x. x \<noteq> ga r \<longrightarrow> sg_cpus (sgs t x) = sg_cpus (sgs s x)"
    and nxt: "\<forall>la. lst = Some la \<longrightarrow> sg_next (sgs t la) = Some (ga r)"
      "\<forall>x. lst \<noteq> Some x \<longrightarrow> sg_next (sgs t x) = sg_next (sgs s x)"
    and new: "\<forall>la. lst = Some la \<longrightarrow> la \<notin> ga ` set (r # rs)" "ga r \<notin> ga ` set rs"
  shows "groups_added span rep ga (case lst of None \<Rightarrow> [] | Some la \<Rightarrow> [la]) (r # rs) s s'"
proof -
  let ?pre = "case lst of None \<Rightarrow> [] | Some la \<Rightarrow> [la]" and ?n = "\<lambda>x. sg_next (sgs s' x)"
  note a = added [unfolded groups_added_def]
  have la: "?n la = Some (ga r)" if "lst = Some la" for la
  proof -
    have "la \<notin> set (butlast ([ga r] @ map ga rs))" using new(1) that by (auto dest!: in_set_butlastD)
    then show ?thesis using a nxt(1) that by simp
  qed
  have "links ?n (?pre @ map ga (r # rs))" using a la by (cases lst) auto
  moreover have "?n x = sg_next (sgs s x)" if "x \<notin> set (butlast (?pre @ map ga (r # rs)))" for x
    using that a nxt(2) by (cases lst) auto
  moreover have "sg_cpus (sgs s' (ga q)) = {j \<in> span. rep j = q}" if "q \<in> set (r # rs)" for q
    using that a cpus(1) new(2) by (cases "q \<in> set rs") auto
  moreover have "sg_cpus (sgs s' x) = sg_cpus (sgs s x)" if "x \<notin> ga ` set (r # rs)" for x
    using that a cpus(2) by auto
  ultimately show ?thesis unfolding groups_added_def using a only sg_only_trans by blast
qed

text \<open>The loop appends the groups of the new representatives; \<open>lst\<close> is the last group so far.\<close>

lemma build_groups_loop_ok:
  assumes "groups_ready s l span rep ga" "set js \<subseteq> span" "set (cpus_in s span) = span"
    and "cov = {j \<in> span. rep j \<in> seen}" "seen \<subseteq> rep ` span"
    and "\<forall>la. lst = Some la \<longrightarrow> la \<in> ga ` seen"
  defines "new \<equiv> firsts rep seen js"
  shows "\<exists>s'. build_groups_loop l (cpus_in s span) js cov fs lst s =
       Some (if fs = None \<and> new \<noteq> [] then Some (ga (hd new)) else fs,
             if new = [] then lst else Some (ga (List.last new)), s') \<and>
     groups_added span rep ga (case lst of None \<Rightarrow> [] | Some la \<Rightarrow> [la]) new s s'"
  using assms(1-6) unfolding new_def
proof (induction js arbitrary: s cov seen fs lst)
  case Nil
  then show ?case by (cases lst) (auto simp: groups_added_def)
next
  case (Cons i js)
  obtain s1 where s1: "get_group l i s = Some (rep i, ga (rep i), s1)" "sg_only s s1" "same_rings s s1"
    "\<exists>p. sg_sgp (sgs s1 (ga (rep i))) = Some p"
    using get_group_ready [OF Cons.prems(1), of i] Cons.prems(2) by auto
  have ready1: "groups_ready s1 l span rep ga" using Cons.prems(1) s1(2) groups_ready_same by blast
  have cpus1: "cpus_in s1 = cpus_in s" using sg_onlyD(2) [OF s1(2)] by simp
  have i: "i \<in> span" "set js \<subseteq> span" using Cons.prems(2) by auto
  show ?case
  proof (cases "rep i \<in> seen")
    case True
    then have "i \<in> cov" using i Cons.prems(4) by simp
    moreover note Cons.IH [OF ready1 i(2) _ Cons.prems(4,5,6), of fs] 
    ultimately show ?thesis
      using True s1 Cons.prems(3) groups_added_same [OF s1(2,3)] by (auto simp: cpus1)
  next
    case False
    then have ncov: "i \<notin> cov" using Cons.prems(4) by simp
    let ?r = "rep i" and ?g = "ga (rep i)"
    obtain p where p: "sg_sgp (sgs s1 ?g) = Some p" using s1(4) by blast
    define s2 where "s2 = upd_sgp p (\<lambda>x. x\<lparr>sgp_power := 0\<rparr>) (upd_sg ?g (\<lambda>x. x\<lparr>sg_cpus := {}\<rparr>) s1)"
    define s3 where "s3 = upd_sg ?g (\<lambda>x. x\<lparr>sg_cpus := sg_cpus x \<union> {j \<in> span. rep j = ?r}\<rparr>) s2"
    define s4 where "s4 = (case lst of None \<Rightarrow> s3 | Some la \<Rightarrow> upd_sg la (\<lambda>x. x\<lparr>sg_next := Some ?g\<rparr>) s3)"
    have only: "sg_only s s4"
      unfolding s4_def s3_def s2_def using s1(2) by (cases lst) (simp_all add: sg_onlyI)
    have ready4: "groups_ready s4 l span rep ga" using Cons.prems(1) only groups_ready_same by blast
    have cpus4: "cpus_in s4 = cpus_in s" using sg_onlyD(2) [OF only] by simp
    have cov4: "cov \<union> {j \<in> span. rep j = ?r} = {j \<in> span. rep j \<in> insert ?r seen}" using Cons.prems(4) by auto
    have seen4: "insert ?r seen \<subseteq> rep ` span" using Cons.prems(5) i by auto
    let ?new = "firsts rep (insert ?r seen) js"
    obtain s' where s': "build_groups_loop l (cpus_in s span) js (cov \<union> {j \<in> span. rep j = ?r}) (if fs = None then Some ?g else fs)
        (Some ?g) s4 = Some (if fs = None then Some ?g else fs, Some (if ?new = [] then ?g else ga (List.last ?new)), s')"
      "groups_added span rep ga [?g] ?new s4 s'"
      using Cons.IH [OF ready4 i(2) _ cov4 seen4, of "Some ?g" "if fs = None then Some ?g else fs"] Cons.prems(3)
      by (auto simp: cpus4 split: if_splits)
    have run: "build_groups_loop l (cpus_in s span) (i # js) cov fs lst s =
        build_groups_loop l (cpus_in s span) js (cov \<union> {j \<in> span. rep j = ?r}) (if fs = None then Some ?g else fs) (Some ?g) s4"
    proof -
      have "\<forall>j\<in>set (cpus_in s span). group_cpu l j s2 = Some (rep j)"
        using Cons.prems(1,3) group_cpu_same [of s2 s] sg_onlyD [OF s1(2)] by (simp add: groups_ready_def s2_def)
      then have fill: "fill_group l ?r ?g (cpus_in s span) cov s2 = Some (cov \<union> {j \<in> span. rep j = ?r}, s3)"
        unfolding s3_def using fill_group_eq [of "cpus_in s span" l s2 rep ?r ?g cov] Cons.prems(3) by simp
      have "build_groups_loop l (cpus_in s span) (i # js) cov fs lst s = do {
          (cov', t) \<leftarrow> fill_group l ?r ?g (cpus_in s span) cov s2;
          build_groups_loop l (cpus_in s span) js cov' (if fs = None then Some ?g else fs) (Some ?g)
            (case lst of None \<Rightarrow> t | Some la \<Rightarrow> upd_sg la (\<lambda>x. x\<lparr>sg_next := Some ?g\<rparr>) t)
        }"
        using s1(1) ncov p by (simp add: s2_def Let_def)
      then show ?thesis unfolding fill s4_def by simp
    qed
    have inj: "inj_on ga (rep ` span)" using Cons.prems(1) by (simp add: groups_ready_def)
    have new: "set ?new \<subseteq> rep ` span - insert ?r seen" using i(2) by auto
    have la: "\<exists>q \<in> seen. la = ga q" if "lst = Some la" for la using Cons.prems(6) that by auto
    have la_new: "la \<notin> ga ` set (?r # ?new)" if lst: "lst = Some la" for la
    proof -
      obtain q where q: "q \<in> seen" "la = ga q" using la [OF lst] by blast
      have "q \<notin> set (?r # ?new)" using q(1) False new by auto
      moreover have "set (?r # ?new) \<subseteq> rep ` span" "q \<in> rep ` span" using new i(1) q(1) Cons.prems(5) by auto
      ultimately show ?thesis unfolding q(2) using inj_on_image_mem_iff [OF inj] by blast
    qed
    have g_new: "?g \<notin> ga ` set ?new"
      using inj_on_image_mem_iff [OF inj, of ?r "set ?new"] new i(1) by auto
    have ring1: "sg_next (sgs s1 x) = sg_next (sgs s x)" "sg_cpus (sgs s1 x) = sg_cpus (sgs s x)" for x
      using s1(3) by (simp_all add: same_rings_def)
    have "groups_added span rep ga (case lst of None \<Rightarrow> [] | Some la \<Rightarrow> [la]) (?r # ?new) s s'"
    proof (rule groups_added_Cons [OF s'(2) only])
      show "sg_cpus (sgs s4 ?g) = {j \<in> span. rep j = ?r}"
        by (cases lst) (auto simp: s4_def s3_def s2_def)
      show "\<forall>x. x \<noteq> ?g \<longrightarrow> sg_cpus (sgs s4 x) = sg_cpus (sgs s x)"
        by (cases lst) (simp_all add: s4_def s3_def s2_def ring1)
      show "\<forall>la. lst = Some la \<longrightarrow> sg_next (sgs s4 la) = Some ?g" by (simp add: s4_def)
      show "\<forall>x. lst \<noteq> Some x \<longrightarrow> sg_next (sgs s4 x) = sg_next (sgs s x)"
        by (cases lst) (simp_all add: s4_def s3_def s2_def ring1)
    qed (use la_new g_new in blast)+
    then show ?thesis using run s'(1) False by auto
  qed
qed


section \<open>Groups that divide a span\<close>

definition divides :: "dstate \<Rightarrow> addr list \<Rightarrow> cpu set \<Rightarrow> bool" where
  "divides s gs span \<longleftrightarrow>
     ring (\<lambda>x. sg_next (sgs s x)) gs \<and> (\<Union>g\<in>set gs. sg_cpus (sgs s g)) = span \<and>
     (\<forall>g\<in>set gs. sg_cpus (sgs s g) \<noteq> {}) \<and>
     (\<forall>g\<in>set gs. \<forall>h\<in>set gs. g \<noteq> h \<longrightarrow> sg_cpus (sgs s g) \<inter> sg_cpus (sgs s h) = {})"

lemma divides_cong:
  assumes "\<And>x. x \<in> set gs \<Longrightarrow> sg_next (sgs s' x) = sg_next (sgs s x) \<and> sg_cpus (sgs s' x) = sg_cpus (sgs s x)"
  shows "divides s' gs span = divides s gs span"
proof -
  have "set (butlast (gs @ [hd gs])) = set gs" by simp
  then have "links (\<lambda>x. sg_next (sgs s' x)) (gs @ [hd gs]) = links (\<lambda>x. sg_next (sgs s x)) (gs @ [hd gs])"
    using assms by (intro links_cong) simp
  then show ?thesis using assms by (simp add: divides_def ring_def cong: ball_cong)
qed

text \<open>A call for a CPU that is not the first of its span only finds the CPU's group.\<close>

lemma build_sched_groups_other:
  assumes ready: "groups_ready s l span rep ga" and a: "sd_private (sds s a) = Some l" "sd_span (sds s a) = span"
    and c: "c \<in> span" "c \<noteq> cpumask_first s span"
  shows "\<exists>s1. sg_only s s1 \<and> same_rings s s1 \<and>
     build_sched_groups a c s = Some (upd_sd a (\<lambda>x. x\<lparr>sd_groups := Some (ga (rep c))\<rparr>) s1)"
proof -
  obtain s1 where s1: "get_group l c s = Some (rep c, ga (rep c), s1)" "sg_only s s1" "same_rings s s1"
    using get_group_ready [OF ready c(1)] by metis
  let ?s2 = "upd_sg (ga (rep c)) (\<lambda>x. x\<lparr>sg_ref := sg_ref x + 1\<rparr>) s1"
  have "build_sched_groups a c s = Some (upd_sd a (\<lambda>x. x\<lparr>sd_groups := Some (ga (rep c))\<rparr>) ?s2)"
    using s1(1) a c(2) sg_onlyD [OF s1(2)] cpumask_first_cong [OF sg_onlyD(2) [OF s1(2)]] by (simp add: build_sched_groups_def Let_def)
  moreover have "sg_only s ?s2" using s1(2) sg_onlyI by blast
  moreover have "same_rings s ?s2" using s1(3) by (simp add: same_rings_def)
  ultimately show ?thesis by blast
qed

text \<open>The call for the first CPU makes the groups of the span.\<close>

lemma build_sched_groups_first:
  assumes ready: "groups_ready s l span rep ga" and a: "sd_private (sds s a) = Some l" "sd_span (sds s a) = span"
    and c: "c \<in> span" "c = cpumask_first s span"
  shows "\<exists>s1 gs. sg_only s s1 \<and> build_sched_groups a c s = Some (upd_sd a (\<lambda>x. x\<lparr>sd_groups := Some (ga (rep c))\<rparr>) s1) \<and>
     divides s1 gs span \<and> set gs = ga ` rep ` span \<and>
     (\<forall>j\<in>span. sg_cpus (sgs s1 (ga (rep j))) = {i \<in> span. rep i = rep j}) \<and>
     (\<forall>x. x \<notin> ga ` rep ` span \<longrightarrow> sg_next (sgs s1 x) = sg_next (sgs s x) \<and> sg_cpus (sgs s1 x) = sg_cpus (sgs s x))"
proof -
  obtain s1 where s1: "get_group l c s = Some (rep c, ga (rep c), s1)" "sg_only s s1" "same_rings s s1"
    using get_group_ready [OF ready c(1)] by metis
  define s2 where "s2 = upd_sg (ga (rep c)) (\<lambda>x. x\<lparr>sg_ref := sg_ref x + 1\<rparr>) s1"
  define s3 where "s3 = upd_sd a (\<lambda>x. x\<lparr>sd_groups := Some (ga (rep c))\<rparr>) s2"
  have only2: "sg_only s s2" unfolding s2_def using s1(2) sg_onlyI by blast
  have cpus: "cpus_in s3 = cpus_in s" "cpumask_first s3 = cpumask_first s"
    using sg_onlyD(2) [OF only2] cpumask_first_cong [of s3 s] by (auto simp: s3_def)
  have ready3: "groups_ready s3 l span rep ga"
    using ready sg_onlyD [OF only2] groups_ready_cong [of s3 s] by (simp add: s3_def)
  have span: "set (cpus_in s span) = span" using ready by (auto simp: groups_ready_def mask_cpus_def)
  define new where "new = firsts rep {} (cpus_in s span)"
  have new: "set new = rep ` span" "distinct new" using span by (simp_all add: new_def)
  then have ne: "new \<noteq> []" using c(1) by auto
  obtain s4 where s4: "build_groups_loop l (cpus_in s span) (cpus_in s span) {} None None s3 =
      Some (Some (ga (hd new)), Some (ga (List.last new)), s4)" "groups_added span rep ga [] new s3 s4"
    using build_groups_loop_ok [OF ready3, of "cpus_in s span" "{}" "{}" None None] ne span
    by (auto simp: cpus new_def)
  let ?gs = "map ga new"
  define s5 where "s5 = upd_sg (ga (List.last new)) (\<lambda>x. x\<lparr>sg_next := Some (ga (hd new))\<rparr>) s4"
  have run: "build_sched_groups a c s = Some s5"
  proof -
    have u: "upd_sg (ga (rep c)) (\<lambda>x. x\<lparr>sg_ref := sg_ref x + 1\<rparr>) (upd_sd a (\<lambda>x. x\<lparr>sd_groups := Some (ga (rep c))\<rparr>) s1) = s3"
      by (simp add: s3_def s2_def)
    have span3: "sd_span (sds s3 a) = span" using a(2) sg_onlyD(1) [OF only2] by (simp add: s3_def)
    have "build_sched_groups a c s = (if c \<noteq> cpumask_first s3 (sd_span (sds s3 a)) then Some s3
        else do {
          (f, la, s) \<leftarrow> build_groups_loop l (cpus_in s3 (sd_span (sds s3 a))) (cpus_in s3 (sd_span (sds s3 a))) {} None None s3;
          la \<leftarrow> la;
          Some (upd_sg la (\<lambda>x. x\<lparr>sg_next := f\<rparr>) s)
        })"
      by (simp only: build_sched_groups_def a(1) s1(1) Let_def bind.simps prod.case u)
    then show ?thesis using s4(1) c(2) by (simp add: span3 cpus s5_def)
  qed
  have only5: "sg_only s3 s5" unfolding s5_def using s4(2) sg_onlyI by (simp add: groups_added_def)
  define t where "t = s\<lparr>sgs := sgs s5, sgps := sgps s5\<rparr>"
  have t: "s5 = upd_sd a (\<lambda>x. x\<lparr>sd_groups := Some (ga (rep c))\<rparr>) t"
    using only5 only2 by (auto simp: sg_only_def s3_def t_def)
  have inj: "inj_on ga (rep ` span)" using ready by (simp add: groups_ready_def)
  have ring3: "sg_next (sgs s3 x) = sg_next (sgs s x)" "sg_cpus (sgs s3 x) = sg_cpus (sgs s x)" for x
    using s1(3) by (simp_all add: s3_def s2_def same_rings_def)
  note add = s4(2) [unfolded groups_added_def append_Nil]
  have dist: "distinct ?gs" using inj new by (simp add: distinct_map)
  have cpus_s4: "sg_cpus (sgs t x) = sg_cpus (sgs s4 x)" for x by (simp add: t_def s5_def)
  have cpus_t: "sg_cpus (sgs t (ga r)) = {i \<in> span. rep i = r}" if "r \<in> rep ` span" for r
  proof -
    have "sg_cpus (sgs s4 (ga r)) = {i \<in> span. rep i = r}" using add that new(1) by blast
    then show ?thesis by (simp only: cpus_s4)
  qed
  have div: "divides t ?gs span"
  proof -
    have last: "List.last ?gs = ga (List.last new)" "hd ?gs = ga (hd new)" using ne by (simp_all add: last_map list.map_sel(1))
    have "List.last ?gs \<notin> set (butlast ?gs)"
      using dist ne append_butlast_last_id [of ?gs] by (metis distinct_butlast map_is_Nil_conv not_distinct_conv_prefix)
    then have "sg_next (sgs t x) = sg_next (sgs s4 x)" if "x \<in> set (butlast ?gs)" for x
      using that last(1) by (auto simp: t_def s5_def)
    then have "ring (\<lambda>x. sg_next (sgs t x)) ?gs"
      using add ne dist last by (intro ring_close [of _ "\<lambda>x. sg_next (sgs s4 x)"]) (simp_all add: t_def s5_def)
    moreover have "(\<Union>g\<in>set ?gs. sg_cpus (sgs t g)) = span" using cpus_t new(1) by auto
    moreover have "\<forall>g\<in>set ?gs. sg_cpus (sgs t g) \<noteq> {}" using cpus_t new(1) by auto
    moreover have "\<forall>g\<in>set ?gs. \<forall>h\<in>set ?gs. g \<noteq> h \<longrightarrow> sg_cpus (sgs t g) \<inter> sg_cpus (sgs t h) = {}" using cpus_t new(1) by auto
    ultimately show ?thesis unfolding divides_def by blast
  qed
  have rest: "sg_next (sgs t x) = sg_next (sgs s x) \<and> sg_cpus (sgs t x) = sg_cpus (sgs s x)" if "x \<notin> ga ` rep ` span" for x
  proof -
    have "x \<notin> set ?gs" using that new(1) by simp
    moreover from this have "x \<noteq> ga (List.last new)" "x \<notin> set (butlast ?gs)" using ne by (auto dest: in_set_butlastD)
    ultimately show ?thesis using add ring3 by (simp add: t_def s5_def)
  qed
  have "sg_only s t" by (auto simp: sg_only_def t_def)
  then show ?thesis using run t cpus_t new(1) div rest by (intro exI [of _ t] exI [of _ ?gs]) auto
qed

end
