(* ===== verification/Sched_Tree_Spec.thy ===== *)
theory Sched_Tree_Spec
  imports Sched_Groups_Spec
begin

text \<open>
  The groups of a whole hierarchy: once the tree of domains is constructed, \<open>build_all_groups\<close> gives
  every domain of every CPU groups that divide its span, with the CPU in the first of them.
\<close>

section \<open>A constructed tree of domains\<close>

text \<open>
  \<open>n\<close> levels over the CPUs \<open>M\<close>. \<open>A l c\<close>, \<open>G l c\<close> and \<open>P l c\<close> are the addresses of the domain, group and power
  that the level's \<open>sd_data\<close> holds for a CPU. Every CPU has its domains of all levels as one chain; a
  domain's span contains its CPU and the span of its child, and the spans of a level are equal or
  disjoint.
\<close>

abbreviation span_at :: "dstate \<Rightarrow> (nat \<Rightarrow> cpu \<Rightarrow> addr) \<Rightarrow> nat \<Rightarrow> cpu \<Rightarrow> cpu set" where
  "span_at s A l c \<equiv> sd_span (sds s (A l c))"

definition level_data :: "dstate \<Rightarrow> cpu set \<Rightarrow> nat \<Rightarrow> (nat \<Rightarrow> cpu \<Rightarrow> addr) \<Rightarrow> (nat \<Rightarrow> cpu \<Rightarrow> addr) \<Rightarrow> (nat \<Rightarrow> cpu \<Rightarrow> addr) \<Rightarrow> bool" where
  "level_data s M l A G P \<longleftrightarrow> (\<exists>m g p. sdd_sd s l = Some m \<and> sdd_sg s l = Some g \<and> sdd_sgp s l = Some p \<and>
     (\<forall>c\<in>M. m c = Some (A l c) \<and> g c = Some (G l c) \<and> p c = Some (P l c)))"

definition domain_at :: "dstate \<Rightarrow> cpu set \<Rightarrow> nat \<Rightarrow> (nat \<Rightarrow> cpu \<Rightarrow> addr) \<Rightarrow> nat \<Rightarrow> cpu \<Rightarrow> bool" where
  "domain_at s M n A l c \<longleftrightarrow> (let d = sds s (A l c) in
     sd_private d = Some l \<and> sd_child d = (if l = 0 then None else Some (A (l - 1) c)) \<and>
     sd_parent d = (if l + 1 < n then Some (A (l + 1) c) else None) \<and> sd_flags d AND SD_OVERLAP = 0 \<and>
     c \<in> sd_span d \<and> sd_span d \<subseteq> M \<and> (\<forall>j\<in>sd_span d. span_at s A l j = sd_span d) \<and>
     (l > 0 \<longrightarrow> span_at s A (l - 1) c \<subseteq> sd_span d))"

definition domain_tree ::
  "dstate \<Rightarrow> cpu set \<Rightarrow> nat \<Rightarrow> (nat \<Rightarrow> cpu \<Rightarrow> addr) \<Rightarrow> (nat \<Rightarrow> cpu \<Rightarrow> addr) \<Rightarrow> (nat \<Rightarrow> cpu \<Rightarrow> addr) \<Rightarrow> bool" where
  "domain_tree s M n A G P \<longleftrightarrow>
     M \<subseteq> {0..<nr_cpus (ker s)} \<and>
     inj_on (\<lambda>(l, c). A l c) ({..<n} \<times> M) \<and> inj_on (\<lambda>(l, c). G l c) ({..<n} \<times> M) \<and>
     (\<forall>l<n. level_data s M l A G P) \<and> (\<forall>l<n. \<forall>c\<in>M. domain_at s M n A l c)"

text \<open>The CPU that stands for a CPU's child domain.\<close>

definition rep_at :: "dstate \<Rightarrow> (nat \<Rightarrow> cpu \<Rightarrow> addr) \<Rightarrow> nat \<Rightarrow> cpu \<Rightarrow> cpu" where
  "rep_at s A l c = (if l = 0 then c else cpumask_first s (span_at s A (l - 1) c))"

lemma cpumask_first_in: "m \<subseteq> {0..<nr_cpus (ker s)} \<Longrightarrow> c \<in> m \<Longrightarrow> cpumask_first s m \<in> m \<and> cpumask_first s m \<le> c"
proof -
  assume m: "m \<subseteq> {0..<nr_cpus (ker s)}" "c \<in> m"
  then have c: "c \<in> set (cpus_in s m)" by (auto simp: mask_cpus_def)
  then obtain d ds where d: "cpus_in s m = d # ds" by (cases "cpus_in s m") auto
  have "sorted (d # ds)" unfolding d [symmetric] by (simp add: mask_cpus_def sorted_wrt_filter)
  moreover have "d \<in> m" using d m(1) by (auto simp: mask_cpus_def dest: filter_eq_ConsD)
  ultimately show ?thesis using c d by (auto simp: cpumask_first_def)
qed

lemma domain_treeD:
  assumes "domain_tree s M n A G P" "l < n" "c \<in> M"
  shows "sd_private (sds s (A l c)) = Some l" "c \<in> span_at s A l c" "span_at s A l c \<subseteq> M"
    "sd_child (sds s (A l c)) = (if l = 0 then None else Some (A (l - 1) c))"
    "sd_parent (sds s (A l c)) = (if l + 1 < n then Some (A (l + 1) c) else None)"
    "sd_flags (sds s (A l c)) AND SD_OVERLAP = 0"
    "\<And>j. j \<in> span_at s A l c \<Longrightarrow> span_at s A l j = span_at s A l c"
    "l > 0 \<Longrightarrow> span_at s A (l - 1) c \<subseteq> span_at s A l c" "c < nr_cpus (ker s)" "level_data s M l A G P"
proof -
  have at: "domain_at s M n A l c" using assms by (simp add: domain_tree_def)
  show "sd_private (sds s (A l c)) = Some l" "c \<in> span_at s A l c" "span_at s A l c \<subseteq> M"
    "sd_child (sds s (A l c)) = (if l = 0 then None else Some (A (l - 1) c))"
    "sd_parent (sds s (A l c)) = (if l + 1 < n then Some (A (l + 1) c) else None)"
    "sd_flags (sds s (A l c)) AND SD_OVERLAP = 0"
    "\<And>j. j \<in> span_at s A l c \<Longrightarrow> span_at s A l j = span_at s A l c"
    "l > 0 \<Longrightarrow> span_at s A (l - 1) c \<subseteq> span_at s A l c"
    using at unfolding domain_at_def Let_def by blast+
  show "c < nr_cpus (ker s)" "level_data s M l A G P" using assms by (auto simp: domain_tree_def)
qed

lemma rep_at_in:
  assumes "domain_tree s M n A G P" "l < n" "c \<in> M"
  shows "rep_at s A l c \<in> span_at s A l c" "rep_at s A l (rep_at s A l c) = rep_at s A l c" "rep_at s A l c \<in> M"
proof -
  note d = domain_treeD [OF assms]
  have "rep_at s A l c \<in> span_at s A l c \<and> rep_at s A l (rep_at s A l c) = rep_at s A l c"
  proof (cases l)
    case 0
    then show ?thesis using d(2) by (simp add: rep_at_def)
  next
    case (Suc k)
    then have k: "k < n" using assms(2) by simp
    note e = domain_treeD [OF assms(1) k assms(3)]
    have "span_at s A k c \<subseteq> {0..<nr_cpus (ker s)}" using e(3) assms(1) by (auto simp: domain_tree_def)
    then have f: "cpumask_first s (span_at s A k c) \<in> span_at s A k c" using cpumask_first_in e(2) by blast
    then show ?thesis using d(8) Suc e(7) [OF f] by (auto simp: rep_at_def)
  qed
  then show "rep_at s A l c \<in> span_at s A l c" "rep_at s A l (rep_at s A l c) = rep_at s A l c" "rep_at s A l c \<in> M"
    using d(3) by auto
qed

lemma tree_groups_ready:
  assumes t: "domain_tree s M n A G P" and l: "l < n" and c: "c \<in> M"
  shows "groups_ready s l (span_at s A l c) (rep_at s A l) (G l)"
proof -
  note d = domain_treeD [OF t l c]
  obtain m g p where lev: "sdd_sd s l = Some m" "sdd_sg s l = Some g" "sdd_sgp s l = Some p"
     "\<forall>c\<in>M. m c = Some (A l c) \<and> g c = Some (G l c) \<and> p c = Some (P l c)"
    using d(10) unfolding level_data_def by blast
  have "group_cpu l j s = Some (rep_at s A l j)" if "j \<in> M" for j
    using lev that domain_treeD(4) [OF t l that] by (simp add: group_cpu_def rep_at_def)
  moreover have "inj_on (G l) (rep_at s A l ` span_at s A l c)"
  proof (rule inj_onI)
    fix x y assume xy: "x \<in> rep_at s A l ` span_at s A l c" "y \<in> rep_at s A l ` span_at s A l c" "G l x = G l y"
    then have "x \<in> M" "y \<in> M" using rep_at_in(3) [OF t l] d(3) by auto
    then have "(l, x) = (l, y)" using t l xy(3) by (intro inj_onD [of "\<lambda>(l, c). G l c" "{..<n} \<times> M"]) (auto simp: domain_tree_def)
    then show "x = y" by simp
  qed
  moreover have "\<exists>Q R q. sdd_sg s l = Some Q \<and> sdd_sgp s l = Some R \<and> Q (rep_at s A l j) = Some (G l (rep_at s A l j)) \<and>
      R (rep_at s A l j) = Some q" if "j \<in> M" for j
    using lev rep_at_in(3) [OF t l that] by blast
  moreover have "rep_at s A l j \<in> span_at s A l c" if "j \<in> span_at s A l c" for j
    using rep_at_in(1) [OF t l, of j] d(3) d(7) [OF that] that by blast
  ultimately show ?thesis
    unfolding groups_ready_def using rep_at_in(2) [OF t l] d(3) domain_treeD(9) [OF t l] by blast
qed


section \<open>Building the groups of all domains\<close>

text \<open>
  Only groups, powers, the group pointers and the weights of the domains differ, and the domains \<open>W\<close> have
  their groups.
\<close>

definition tree_kept :: "dstate \<Rightarrow> dstate \<Rightarrow> bool" where
  "tree_kept s s' \<longleftrightarrow>
     ker s' = ker s \<and> sdd_sd s' = sdd_sd s \<and> sdd_sg s' = sdd_sg s \<and> sdd_sgp s' = sdd_sgp s \<and> rq_sd s' = rq_sd s \<and>
     live s' = live s \<and> rcu_sds s' = rcu_sds s \<and> klog s' = klog s \<and>
     sched_domain_debug_enabled s' = sched_domain_debug_enabled s \<and>
     (\<forall>x. sd_parent (sds s' x) = sd_parent (sds s x) \<and> sd_child (sds s' x) = sd_child (sds s x) \<and>
          sd_flags (sds s' x) = sd_flags (sds s x) \<and> sd_private (sds s' x) = sd_private (sds s x) \<and>
          sd_span (sds s' x) = sd_span (sds s x) \<and> sd_level (sds s' x) = sd_level (sds s x))"

definition divided :: "dstate \<Rightarrow> (nat \<Rightarrow> cpu \<Rightarrow> addr) \<Rightarrow> (nat \<Rightarrow> cpu \<Rightarrow> addr) \<Rightarrow> dstate \<Rightarrow> nat \<Rightarrow> cpu set \<Rightarrow> bool" where
  "divided s0 A G s l span \<longleftrightarrow>
     (\<exists>gs. divides s gs span \<and> set gs = G l ` rep_at s0 A l ` span) \<and>
     (\<forall>j\<in>span. sg_cpus (sgs s (G l (rep_at s0 A l j))) = {i \<in> span. rep_at s0 A l i = rep_at s0 A l j})"

definition has_groups :: "dstate \<Rightarrow> (nat \<Rightarrow> cpu \<Rightarrow> addr) \<Rightarrow> (nat \<Rightarrow> cpu \<Rightarrow> addr) \<Rightarrow> dstate \<Rightarrow> nat \<Rightarrow> cpu \<Rightarrow> bool" where
  "has_groups s0 A G s l c \<longleftrightarrow>
     sd_groups (sds s (A l c)) = Some (G l (rep_at s0 A l c)) \<and> divided s0 A G s l (span_at s0 A l c)"

lemma tree_kept_refl [simp]: "tree_kept s s"
  by (simp add: tree_kept_def)

lemma tree_kept_trans [trans]: "tree_kept s s' \<Longrightarrow> tree_kept s' s'' \<Longrightarrow> tree_kept s s''"
  by (simp add: tree_kept_def)

lemma tree_keptD:
  assumes "tree_kept s s'"
  shows "ker s' = ker s" "sdd_sd s' = sdd_sd s" "sdd_sg s' = sdd_sg s" "sdd_sgp s' = sdd_sgp s" "rq_sd s' = rq_sd s"
    "sd_parent (sds s' x) = sd_parent (sds s x)" "sd_child (sds s' x) = sd_child (sds s x)"
    "sd_flags (sds s' x) = sd_flags (sds s x)" "sd_private (sds s' x) = sd_private (sds s x)"
    "sd_span (sds s' x) = sd_span (sds s x)" "klog s' = klog s" "live s' = live s"
    "sched_domain_debug_enabled s' = sched_domain_debug_enabled s" "rcu_sds s' = rcu_sds s"
  using assms by (simp_all add: tree_kept_def)

lemma tree_kept_sg: "sg_only s t \<Longrightarrow> tree_kept s t"
  by (auto simp: tree_kept_def sg_only_def)

lemma tree_kept_upd:
  "tree_kept s (upd_sd a (\<lambda>x. x\<lparr>sd_groups := gr\<rparr>) s)" "tree_kept s (upd_sd a (\<lambda>x. x\<lparr>sd_span_weight := w\<rparr>) s)"
  by (simp_all add: tree_kept_def)

lemma tree_kept_tree:
  assumes "tree_kept s s'"
  shows "domain_tree s' M n A G P = domain_tree s M n A G P" "rep_at s' A l c = rep_at s A l c"
  using assms cpumask_first_cong [of s' s]
  by (simp_all add: tree_kept_def domain_tree_def domain_at_def level_data_def rep_at_def Let_def)

text \<open>
  The spans of two domains of a level are the same or disjoint, and the groups of different levels or
  of disjoint spans have different addresses.
\<close>

lemma tree_groups_apart:
  assumes t: "domain_tree s M n A G P" and lc: "l < n" "c \<in> M" and lc': "l' < n" "c' \<in> M"
    and apart: "l \<noteq> l' \<or> span_at s A l c \<noteq> span_at s A l' c'"
    and g: "g \<in> G l' ` rep_at s A l' ` span_at s A l' c'"
  shows "g \<notin> G l ` rep_at s A l ` span_at s A l c"
proof
  assume "g \<in> G l ` rep_at s A l ` span_at s A l c"
  then obtain x y where xy: "x \<in> span_at s A l c" "y \<in> span_at s A l' c'" "G l (rep_at s A l x) = G l' (rep_at s A l' y)"
    using g by auto
  have M: "x \<in> M" "y \<in> M" using xy domain_treeD(3) [OF t lc] domain_treeD(3) [OF t lc'] by auto
  have "(l, rep_at s A l x) = (l', rep_at s A l' y)"
    using t lc lc' xy(3) rep_at_in(3) [OF t lc(1) M(1)] rep_at_in(3) [OF t lc'(1) M(2)]
    by (intro inj_onD [of "\<lambda>(l, c). G l c" "{..<n} \<times> M"]) (auto simp: domain_tree_def)
  then have l: "l = l'" and r: "rep_at s A l x = rep_at s A l y" by auto
  have "span_at s A l x = span_at s A l (rep_at s A l x)" "span_at s A l y = span_at s A l (rep_at s A l y)"
    using domain_treeD(7) [OF t lc(1)] rep_at_in(1) [OF t lc(1)] M by blast+
  moreover have "span_at s A l x = span_at s A l c" "span_at s A l y = span_at s A l c'"
    using domain_treeD(7) [OF t lc(1,2) xy(1)] domain_treeD(7) [OF t lc' xy(2)] l by auto
  ultimately show False using apart l r by simp
qed

lemma divided_cong:
  assumes "\<And>x. x \<in> G l ` rep_at s0 A l ` span \<Longrightarrow>
       sg_next (sgs s' x) = sg_next (sgs s x) \<and> sg_cpus (sgs s' x) = sg_cpus (sgs s x)"
    and "divided s0 A G s l span"
  shows "divided s0 A G s' l span"
proof -
  obtain gs where gs: "divides s gs span" "set gs = G l ` rep_at s0 A l ` span"
    using assms(2) unfolding divided_def by blast
  have "divides s' gs span = divides s gs span" by (rule divides_cong, rule assms(1)) (simp only: gs(2))
  then have "divides s' gs span" using gs(1) by simp
  moreover have "sg_cpus (sgs s' (G l (rep_at s0 A l j))) = sg_cpus (sgs s (G l (rep_at s0 A l j)))" if "j \<in> span" for j
    using assms(1) that by blast
  moreover from this have "\<forall>j\<in>span. sg_cpus (sgs s' (G l (rep_at s0 A l j))) = {i \<in> span. rep_at s0 A l i = rep_at s0 A l j}"
    using assms(2) unfolding divided_def by blast
  ultimately show ?thesis using gs(2) unfolding divided_def by blast
qed

text \<open>One call, for a domain whose first CPU has had its turn or has it now.\<close>

lemma build_groups_step:
  assumes t: "domain_tree s0 M n A G P" and kept: "tree_kept s0 s" and lc: "l < n" "c \<in> M"
    and old: "\<forall>(l', c') \<in> W. l' < n \<and> c' \<in> M \<and> has_groups s0 A G s l' c'"
    and turn: "c \<noteq> cpumask_first s0 (span_at s0 A l c) \<longrightarrow> (l, cpumask_first s0 (span_at s0 A l c)) \<in> W"
  shows "\<exists>s'. build_sched_groups (A l c) c s = Some s' \<and> tree_kept s0 s' \<and>
     (\<forall>(l', c') \<in> insert (l, c) W. has_groups s0 A G s' l' c')"
proof -
  let ?span = "span_at s0 A l c" and ?rep = "rep_at s0 A l" and ?f = "cpumask_first s0 (span_at s0 A l c)"
  have ts: "domain_tree s M n A G P" using t tree_kept_tree [OF kept] by simp
  have same: "span_at s A l c = ?span" "rep_at s A l = ?rep" "cpumask_first s = cpumask_first s0"
    using kept tree_kept_tree(2) [OF kept] cpumask_first_cong [of s s0] by (auto simp: tree_kept_def)
  have ready: "groups_ready s l ?span ?rep (G l)" using tree_groups_ready [OF ts lc] same by simp
  note d = domain_treeD [OF ts lc, unfolded same(1)]
  have ptr: "sd_groups (sds (upd_sd (A l c) (\<lambda>x. x\<lparr>sd_groups := Some (G l (?rep c))\<rparr>) u) (A l' c')) = Some (G l' (rep_at s0 A l' c'))"
    if w: "(l', c') \<in> insert (l, c) W" and u: "sds u = sds s" for l' c' u
  proof (cases "(l', c') = (l, c)")
    case False
    then have "(l', c') \<in> W" using w by auto
    moreover from this have "A l' c' \<noteq> A l c"
      using False old lc t inj_onD [of "\<lambda>(l, c). A l c" "{..<n} \<times> M" "(l', c')" "(l, c)"] by (auto simp: domain_tree_def)
    ultimately show ?thesis using old u by (auto simp: has_groups_def)
  qed simp
  show ?thesis
  proof (cases "c = ?f")
    case False
    obtain s1 where s1: "sg_only s s1" "same_rings s s1"
      "build_sched_groups (A l c) c s = Some (upd_sd (A l c) (\<lambda>x. x\<lparr>sd_groups := Some (G l (?rep c))\<rparr>) s1)"
      using build_sched_groups_other [OF ready d(1) same(1) d(2)] False same(3) by auto
    let ?s' = "upd_sd (A l c) (\<lambda>x. x\<lparr>sd_groups := Some (G l (?rep c))\<rparr>) s1"
    have "has_groups s0 A G ?s' l' c'" if w: "(l', c') \<in> insert (l, c) W" for l' c'
    proof -
      have f: "?f \<in> ?span" using cpumask_first_in d(2,3) t by (auto simp: domain_tree_def intro!: conjunct1 [OF cpumask_first_in])
      have "divided s0 A G s l' (span_at s0 A l' c')"
      proof (cases "(l', c') \<in> W")
        case True
        then show ?thesis using old by (auto simp: has_groups_def)
      next
        case False
        then have "has_groups s0 A G s l ?f" "l' = l" "c' = c" using old turn \<open>c \<noteq> ?f\<close> w by auto
        then show ?thesis using domain_treeD(7) [OF t lc f] by (simp add: has_groups_def)
      qed
      then have "divided s0 A G ?s' l' (span_at s0 A l' c')"
        by (rule divided_cong [rotated]) (use s1(2) in \<open>simp add: same_rings_def\<close>)
      moreover have "sd_groups (sds ?s' (A l' c')) = Some (G l' (rep_at s0 A l' c'))"
        using ptr [OF w] sg_onlyD(1) [OF s1(1)] by blast
      ultimately show ?thesis by (simp add: has_groups_def)
    qed
    moreover have "tree_kept s0 ?s'" by (rule tree_kept_trans [OF tree_kept_trans [OF kept tree_kept_sg [OF s1(1)]] tree_kept_upd(1)])
    ultimately show ?thesis using s1(3) by auto
  next
    case True
    then have first: "c = cpumask_first s ?span" unfolding same(3) .
    obtain t1 gs where t1: "sg_only s t1"
      "build_sched_groups (A l c) c s = Some (upd_sd (A l c) (\<lambda>x. x\<lparr>sd_groups := Some (G l (?rep c))\<rparr>) t1)"
      "divides t1 gs ?span" "set gs = G l ` ?rep ` ?span"
      "\<forall>j\<in>?span. sg_cpus (sgs t1 (G l (?rep j))) = {i \<in> ?span. ?rep i = ?rep j}"
      "\<forall>x. x \<notin> G l ` ?rep ` ?span \<longrightarrow> sg_next (sgs t1 x) = sg_next (sgs s x) \<and> sg_cpus (sgs t1 x) = sg_cpus (sgs s x)"
      using build_sched_groups_first [OF ready d(1) same(1) d(2) first] by (elim exE conjE) (rule that)
    let ?s' = "upd_sd (A l c) (\<lambda>x. x\<lparr>sd_groups := Some (G l (?rep c))\<rparr>) t1"
    have "divided s0 A G t1 l ?span" using t1(3-5) unfolding divided_def by blast
    then have new: "divided s0 A G ?s' l ?span" by (rule divided_cong [rotated]) simp
    have "has_groups s0 A G ?s' l' c'" if w: "(l', c') \<in> insert (l, c) W" for l' c'
    proof -
      have lc': "l' < n" "c' \<in> M" using w old lc by auto
      have "divided s0 A G ?s' l' (span_at s0 A l' c')"
      proof (cases "l' = l \<and> span_at s0 A l' c' = ?span")
        case False
        then have "divided s0 A G s l' (span_at s0 A l' c')" using w old by (auto simp: has_groups_def)
        moreover have "l \<noteq> l' \<or> ?span \<noteq> span_at s0 A l' c'" using False by metis
        then have "x \<notin> G l ` ?rep ` ?span" if "x \<in> G l' ` rep_at s0 A l' ` span_at s0 A l' c'" for x
          using tree_groups_apart [OF t lc lc'] that by blast
        then have "sg_next (sgs ?s' x) = sg_next (sgs s x) \<and> sg_cpus (sgs ?s' x) = sg_cpus (sgs s x)"
          if "x \<in> G l' ` rep_at s0 A l' ` span_at s0 A l' c'" for x
          using t1(6) that by simp
        ultimately show ?thesis by (rule divided_cong [rotated])
      qed (use new in auto)
      moreover have "sd_groups (sds ?s' (A l' c')) = Some (G l' (rep_at s0 A l' c'))"
        using ptr [OF w] sg_onlyD(1) [OF t1(1)] by blast
      ultimately show ?thesis by (simp add: has_groups_def)
    qed
    moreover have "tree_kept s0 ?s'" by (rule tree_kept_trans [OF tree_kept_trans [OF kept tree_kept_sg [OF t1(1)]] tree_kept_upd(1)])
    ultimately show ?thesis using t1(2) by auto
  qed
qed


lemma has_groups_weight:
  "has_groups s0 A G s l c \<Longrightarrow> has_groups s0 A G (upd_sd a (\<lambda>x. x\<lparr>sd_span_weight := f x\<rparr>) s) l c"
  unfolding has_groups_def by (auto intro: divided_cong [rotated])

lemma groups_of_chain_ok:
  assumes t: "domain_tree s0 M n A G P" and c: "c \<in> M" and l: "l < n"
    and kept: "tree_kept s0 s" and old: "\<forall>(l', c') \<in> W. l' < n \<and> c' \<in> M \<and> has_groups s0 A G s l' c'"
    and turn: "\<forall>l'<n. c \<noteq> cpumask_first s0 (span_at s0 A l' c) \<longrightarrow> (l', cpumask_first s0 (span_at s0 A l' c)) \<in> W"
  shows "\<exists>s'. groups_of_chain D c (Some (A l c)) s = Some (0, s') \<and> tree_kept s0 s' \<and>
     (\<forall>(l', c') \<in> W \<union> {l..<n} \<times> {c}. has_groups s0 A G s' l' c')"
  using l kept old turn
proof (induction "n - l" arbitrary: l s W)
  case (Suc k)
  let ?s1 = "upd_sd (A l c) (\<lambda>x. x\<lparr>sd_span_weight := cpumask_weight s (sd_span x)\<rparr>) s"
  have kept1: "tree_kept s0 ?s1" using Suc.prems(2) tree_kept_upd(2) by (rule tree_kept_trans)
  have old1: "\<forall>(l', c') \<in> W. l' < n \<and> c' \<in> M \<and> has_groups s0 A G ?s1 l' c'"
    using Suc.prems(3) by (auto intro!: has_groups_weight)
  obtain s2 where s2: "build_sched_groups (A l c) c ?s1 = Some s2" "tree_kept s0 s2"
    "\<forall>(l', c') \<in> insert (l, c) W. has_groups s0 A G s2 l' c'"
    using build_groups_step [OF t kept1 Suc.prems(1) c old1] Suc.prems(4,1) by blast
  have flags: "sd_flags (sds ?s1 (A l c)) AND SD_OVERLAP = 0"
    using domain_treeD(6) [OF t Suc.prems(1) c] by (simp only: tree_keptD(8) [OF kept1])
  have par: "sd_parent (sds s2 (A l c)) = (if l + 1 < n then Some (A (l + 1) c) else None)"
    using domain_treeD(5) [OF t Suc.prems(1) c] by (simp only: tree_keptD(6) [OF s2(2)])
  have run: "groups_of_chain D c (Some (A l c)) s = groups_of_chain D c (sd_parent (sds s2 (A l c))) s2"
    using flags s2(1) by (subst groups_of_chain.simps) simp
  have old2: "\<forall>(l', c') \<in> insert (l, c) W. l' < n \<and> c' \<in> M \<and> has_groups s0 A G s2 l' c'"
    using s2(3) Suc.prems(1,3) c by auto
  show ?case
  proof (cases "l + 1 < n")
    case True
    then obtain s' where "groups_of_chain D c (Some (A (l + 1) c)) s2 = Some (0, s')" "tree_kept s0 s'"
      "\<forall>(l', c') \<in> insert (l, c) W \<union> {l + 1..<n} \<times> {c}. has_groups s0 A G s' l' c'"
      using Suc.hyps(1) [OF _ True s2(2) old2] Suc.hyps(2) Suc.prems(4) by fastforce
    moreover have "{l..<n} = insert l {l + 1..<n}" using Suc.prems(1) by auto
    ultimately show ?thesis using run par True by auto
  next
    case False
    then have "{l..<n} = {l}" using Suc.prems(1) by auto
    then show ?thesis using run par False s2(2) old2 by (subst (asm) groups_of_chain.simps) (auto simp: groups_of_chain.simps)
  qed
qed simp

lemma build_all_groups_ok:
  assumes t: "domain_tree s0 M n A G P" and n: "0 < n" and base: "\<forall>c\<in>M. bottom c = Some (A 0 c)"
    and js: "sorted js" "distinct js" "done \<union> set js = M" "\<forall>d\<in>done. \<forall>j\<in>set js. d < j"
    and kept: "tree_kept s0 s" and old: "\<forall>l<n. \<forall>c\<in>done. has_groups s0 A G s l c"
  shows "\<exists>s'. build_all_groups D bottom js s = Some (0, s') \<and> tree_kept s0 s' \<and> (\<forall>l<n. \<forall>c\<in>M. has_groups s0 A G s' l c)"
  using js kept old
proof (induction js arbitrary: s "done")
  case (Cons j js)
  have j: "j \<in> M" using Cons.prems(3) by auto
  have "(l, cpumask_first s0 (span_at s0 A l j)) \<in> {..<n} \<times> done"
    if "l < n" "j \<noteq> cpumask_first s0 (span_at s0 A l j)" for l
  proof -
    have sub: "span_at s0 A l j \<subseteq> {0..<nr_cpus (ker s0)}" "j \<in> span_at s0 A l j" "span_at s0 A l j \<subseteq> M"
      using domain_treeD(2,3) [OF t that(1) j] t by (auto simp: domain_tree_def)
    have "cpumask_first s0 (span_at s0 A l j) \<in> M" "cpumask_first s0 (span_at s0 A l j) < j"
      using cpumask_first_in [OF sub(1,2)] sub(3) that(2) by auto
    then show ?thesis using that(1) Cons.prems(1,3) by auto
  qed
  then obtain s1 where s1: "groups_of_chain D j (Some (A 0 j)) s = Some (0, s1)" "tree_kept s0 s1"
    "\<forall>(l', c') \<in> {..<n} \<times> done \<union> {0..<n} \<times> {j}. has_groups s0 A G s1 l' c'"
    using groups_of_chain_ok [OF t j n Cons.prems(5), of "{..<n} \<times> done" D] Cons.prems(3,6) by auto
  have "\<forall>x\<in>set js. j < x" using Cons.prems(1,2) by (auto simp: order.strict_iff_order)
  then have "\<exists>s'. build_all_groups D bottom js s1 = Some (0, s') \<and> tree_kept s0 s' \<and> (\<forall>l<n. \<forall>c\<in>M. has_groups s0 A G s' l c)"
    using Cons.prems(1-4) s1(2,3) by (intro Cons.IH [of "insert j done"]) auto
  then show ?case using s1(1) base j by simp
qed auto


text \<open>C9: The groups of the scheduler domains divide the CPUs. Once the tree of domains is constructed
  (every CPU has its domains as one chain, a domain contains its child, and the domains of a level are
  equal or disjoint), building the groups of all CPUs in turn succeeds. Afterwards the groups of
  every domain of every CPU form a circular list, no two of them share a CPU, none is empty, together
  they are the span of the domain, and the group the domain points to is the one with the CPU.\<close>

theorem build_all_groups_divide:
  assumes "domain_tree s M n A G P" "0 < n" "\<forall>c\<in>M. bottom c = Some (A 0 c)"
  shows "\<exists>s'. build_all_groups D bottom (cpus_in s M) s = Some (0, s') \<and>
     (\<forall>l<n. \<forall>c\<in>M. \<exists>g gs. sd_groups (sds s' (A l c)) = Some g \<and> c \<in> sg_cpus (sgs s' g) \<and> g \<in> set gs \<and>
        divides s' gs (sd_span (sds s' (A l c))))"
proof -
  have M: "sorted (cpus_in s M)" "distinct (cpus_in s M)" "set (cpus_in s M) = M"
    using assms(1) by (auto simp: domain_tree_def mask_cpus_def sorted_wrt_filter)
  obtain s' where s': "build_all_groups D bottom (cpus_in s M) s = Some (0, s')" "tree_kept s s'"
    "\<forall>l<n. \<forall>c\<in>M. has_groups s A G s' l c"
    using build_all_groups_ok [OF assms M(1,2), of "{}" s D] M(3) by auto
  have "\<exists>g gs. sd_groups (sds s' (A l c)) = Some g \<and> c \<in> sg_cpus (sgs s' g) \<and> g \<in> set gs \<and>
        divides s' gs (sd_span (sds s' (A l c)))" if "l < n" "c \<in> M" for l c
  proof -
    have h: "has_groups s A G s' l c" using s'(3) that by blast
    then obtain gs where "divides s' gs (span_at s A l c)" "set gs = G l ` rep_at s A l ` span_at s A l c"
      unfolding has_groups_def divided_def by blast
    moreover have c: "c \<in> span_at s A l c" using domain_treeD(2) [OF assms(1) that] .
    moreover have "c \<in> sg_cpus (sgs s' (G l (rep_at s A l c)))"
      using h c unfolding has_groups_def divided_def by blast
    ultimately show ?thesis using h tree_keptD(10) [OF s'(2)] unfolding has_groups_def by auto
  qed
  then show ?thesis using s'(1) by blast
qed

text \<open>Two CPUs with a domain each, and a domain of both above it.\<close>

definition sample_domains :: dstate where
  "sample_domains =
     \<lparr>ker = (bss 2)\<lparr>cpu_active := {}\<rparr>,
      sds = (\<lambda>a. zero_sd\<lparr>sd_parent := (if a < 2 then Some (a + 2) else None),
               sd_child := (if a < 2 then None else Some (a - 2)), sd_flags := SD_LOAD_BALANCE,
               sd_private := Some (a div 2), sd_span := (if a < 2 then {a} else {0, 1})\<rparr>),
      sgs = (\<lambda>_. zero_sg), sgps = (\<lambda>_. zero_sgp), brk = 4, live = {0..<4}, rcu_sds = [],
      sdd_sd = (\<lambda>l. Some (\<lambda>c. Some (2 * l + c))), sdd_sg = (\<lambda>l. Some (\<lambda>c. Some (2 * l + c))),
      sdd_sgp = (\<lambda>l. Some (\<lambda>c. Some (2 * l + c))), rq_sd = (\<lambda>_. None), sd_llc = (\<lambda>_. None), sd_llc_id = (\<lambda>_. 0),
      cpu_isolated_map = {}, fallback_doms = {}, doms_cur = [], doms_cur_fallback = False, ndoms_cur = 0,
      dattr_cur = None, default_relax_domain_level = - 1, sched_domain_level_max = 0, num_cpus_frozen = 0,
      sched_domain_debug_enabled = False, sched_mc_power_savings = 0, sched_smt_power_savings = 0, klog = []\<rparr>"

lemma sample_domains_tree:
  "domain_tree sample_domains {0, 1} 2 (\<lambda>l c. 2 * l + c) (\<lambda>l c. 2 * l + c) (\<lambda>l c. 2 * l + c)"
proof -
  have two: "(\<forall>l<2. Q l) \<longleftrightarrow> Q 0 \<and> Q (1::nat)" for Q by (auto simp: less_2_cases_iff)
  have inj: "inj_on (\<lambda>(l, c). 2 * l + c) ({..<2} \<times> {0, 1 :: nat})" by (auto simp: inj_on_def) presburger+
  show ?thesis
    unfolding domain_tree_def two using inj
    by (simp add: level_data_def domain_at_def sample_domains_def zero_sd_def sd_flag_defs bss_def Let_def)
qed

theorem build_all_groups_divide_witness:
  "\<forall>D. \<exists>s'. build_all_groups D (\<lambda>c. Some c) (cpus_in sample_domains {0, 1}) sample_domains = Some (0, s') \<and>
     (\<exists>g gs. sd_groups (sds s' 3) = Some g \<and> 1 \<in> sg_cpus (sgs s' g) \<and> g \<in> set gs \<and> divides s' gs (sd_span (sds s' 3)))"
proof
  fix D :: denv
  obtain s' where s': "build_all_groups D (\<lambda>c. Some c) (cpus_in sample_domains {0, 1}) sample_domains = Some (0, s')"
    "\<forall>l<2. \<forall>c\<in>{0, 1}. \<exists>g gs. sd_groups (sds s' (2 * l + c)) = Some g \<and> c \<in> sg_cpus (sgs s' g) \<and> g \<in> set gs \<and>
        divides s' gs (sd_span (sds s' (2 * l + c)))"
    using build_all_groups_divide [OF sample_domains_tree, of "\<lambda>c. Some c" D] by auto
  have "\<exists>g gs. sd_groups (sds s' (2 * 1 + 1)) = Some g \<and> 1 \<in> sg_cpus (sgs s' g) \<and> g \<in> set gs \<and>
      divides s' gs (sd_span (sds s' (2 * 1 + 1)))"
    using s'(2) [rule_format, of 1 1] by simp
  then show "\<exists>s'. build_all_groups D (\<lambda>c. Some c) (cpus_in sample_domains {0, 1}) sample_domains = Some (0, s') \<and>
     (\<exists>g gs. sd_groups (sds s' 3) = Some g \<and> 1 \<in> sg_cpus (sgs s' g) \<and> g \<in> set gs \<and> divides s' gs (sd_span (sds s' 3)))"
    using s'(1) by simp
qed

end
