(* ===== verification/Sched_Attach_Spec.thy ===== *)
theory Sched_Attach_Spec
  imports Sched_Tree_Spec "HOL-Library.Sublist" "HOL-Library.Multiset"
begin

text \<open>
  What the kernel's check of a domain checks, and what attaching a CPU to its domains leaves of them.
\<close>

section \<open>The check of a domain\<close>

text \<open>A sound domain: its groups divide its span, have a power, and the first of them has the CPU.\<close>

definition powered :: "dstate \<Rightarrow> addr \<Rightarrow> bool" where
  "powered s g \<longleftrightarrow> (\<exists>p. sg_sgp (sgs s g) = Some p \<and> sgp_power (sgps s p) \<noteq> 0)"

definition sound_domain :: "dstate \<Rightarrow> addr \<Rightarrow> cpu \<Rightarrow> bool" where
  "sound_domain s a c \<longleftrightarrow>
     (\<exists>g gs. sd_groups (sds s a) = Some g \<and> divides s (g # gs) (sd_span (sds s a)) \<and>
        (\<forall>x\<in>set (g # gs). powered s x) \<and> c \<in> sg_cpus (sgs s g)) \<and>
     (\<forall>p. sd_parent (sds s a) = Some p \<longrightarrow> sd_span (sds s a) \<subseteq> sd_span (sds s p))"

text \<open>The walk over a list of groups that ends where it began.\<close>

definition clean_walk :: "dstate \<Rightarrow> addr option \<Rightarrow> addr option \<Rightarrow> cpu set \<Rightarrow> addr list \<Rightarrow> bool" where
  "clean_walk s start grp cov xs \<longleftrightarrow>
     xs \<noteq> [] \<and> grp = Some (hd xs) \<and> links (\<lambda>x. sg_next (sgs s x)) xs \<and> sg_next (sgs s (List.last xs)) = start \<and>
     start \<notin> Some ` set (tl xs) \<and> (\<forall>x\<in>set xs. powered s x \<and> sg_cpus (sgs s x) \<inter> {0..<nr_cpus (ker s)} \<noteq> {}) \<and>
     (\<forall>x\<in>set xs. sg_cpus (sgs s x) \<inter> cov = {}) \<and> distinct xs \<and>
     (\<forall>x\<in>set xs. \<forall>y\<in>set xs. x \<noteq> y \<longrightarrow> sg_cpus (sgs s x) \<inter> sg_cpus (sgs s y) = {})"

lemma weight_0: "cpumask_weight s m = 0 \<longleftrightarrow> m \<inter> {0..<nr_cpus (ker s)} = {}"
  by (auto simp: cpumask_weight_def mask_cpus_def filter_empty_conv)

lemma debug_groups_clean:
  assumes "clean_walk s start grp cov xs"
  shows "debug_groups s start grp cov = Some (cov \<union> (\<Union>x\<in>set xs. sg_cpus (sgs s x)), [])"
  using assms
proof (induction xs arbitrary: grp cov)
  case Nil
  then show ?case by (simp add: clean_walk_def)
next
  case (Cons g gs)
  note w = Cons.prems [unfolded clean_walk_def]
  obtain p where p: "sg_sgp (sgs s g) = Some p" "sgp_power (sgps s p) \<noteq> 0"
    using w by (auto simp: powered_def)
  have here: "cpumask_weight s (sg_cpus (sgs s g)) \<noteq> 0" "cov \<inter> sg_cpus (sgs s g) = {}"
    using w weight_0 by auto
  show ?case
  proof (cases gs)
    case Nil
    then show ?thesis using w p here by (simp add: debug_groups.simps)
  next
    case (Cons h hs)
    have "clean_walk s start (Some h) (cov \<union> sg_cpus (sgs s g)) gs"
      using w Cons unfolding clean_walk_def by auto
    then have "debug_groups s start (Some h) (cov \<union> sg_cpus (sgs s g)) =
        Some ((cov \<union> sg_cpus (sgs s g)) \<union> (\<Union>x\<in>set gs. sg_cpus (sgs s x)), [])"
      by (rule Cons.IH)
    then show ?thesis using w p here Cons
      by (subst debug_groups.simps) (auto simp: Let_def)
  qed
qed


lemma debug_groups_walk:
  assumes "debug_groups s start grp cov = Some (m, [])"
  shows "\<exists>xs. clean_walk s start grp cov xs"
proof (rule debug_groups.raw_induct [OF _ assms, where P = "\<lambda>s start grp cov r. snd r = [] \<longrightarrow>
    (\<exists>xs. clean_walk s start grp cov xs)", simplified snd_conv simp_thms], intro impI)
  fix dg s start grp cov and r :: "cpu set \<times> string list"
  assume IH: "\<And>s start grp cov r. dg s start grp cov = Some r \<Longrightarrow> snd r = [] \<longrightarrow> (\<exists>xs. clean_walk s start grp cov xs)"
    and run: "(case grp of None \<Rightarrow> Some (cov, [''group is NULL''])
      | Some g \<Rightarrow> do {
          p \<leftarrow> sg_sgp (sgs s g);
          if sgp_power (sgps s p) = 0 then Some (cov, [''domain->cpu_power not set''])
          else if cpumask_weight s (sg_cpus (sgs s g)) = 0 then Some (cov, [''empty group''])
          else if cov \<inter> sg_cpus (sgs s g) \<noteq> {} then Some (cov, [''repeated CPUs''])
          else
            let groupmask = cov \<union> sg_cpus (sgs s g); grp = sg_next (sgs s g) in
            if grp \<noteq> start then dg s start grp groupmask else Some (groupmask, [])
        }) = Some r"
    and "snd r = []"
  then obtain m where r: "r = (m, [])" by (cases r) auto
  note step = run [unfolded r]
  obtain g where g: "grp = Some g" using step by (cases grp) auto
  obtain p where p: "sg_sgp (sgs s g) = Some p" using step g by (cases "sg_sgp (sgs s g)") auto
  let ?C = "sg_cpus (sgs s g)" and ?n = "sg_next (sgs s g)"
  have here: "sgp_power (sgps s p) \<noteq> 0" "cpumask_weight s ?C \<noteq> 0" "cov \<inter> ?C = {}"
    using step g p by (auto simp: Let_def split: if_splits)
  have pw: "powered s g" "?C \<inter> {0..<nr_cpus (ker s)} \<noteq> {}" using p here weight_0 by (auto simp: powered_def)
  show "\<exists>xs. clean_walk s start grp cov xs"
  proof (cases "?n = start")
    case True
    then have "clean_walk s start grp cov [g]" using g pw here(3) by (auto simp: clean_walk_def)
    then show ?thesis by blast
  next
    case False
    then have "dg s start ?n (cov \<union> ?C) = Some (m, [])" using step g p here by (simp add: Let_def)
    then obtain xs where xs: "clean_walk s start ?n (cov \<union> ?C) xs" using IH by force
    note w = xs [unfolded clean_walk_def]
    obtain x ys where x: "xs = x # ys" using w by (cases xs) auto
    have "g \<notin> set xs" using w pw(2) by auto
    then have "clean_walk s start grp cov (g # xs)"
      unfolding clean_walk_def using w x False g pw here(3) by auto
    then show ?thesis by blast
  qed
qed

text \<open>For a domain whose span the machine has, a clean walk from its first group is a division of the span.\<close>

lemma clean_walk_divides:
  assumes "span \<subseteq> {0..<nr_cpus (ker s)}"
  shows "clean_walk s (Some g) (Some g) {} xs \<and> (\<Union>x\<in>set xs. sg_cpus (sgs s x)) = span \<longleftrightarrow>
    (\<exists>gs. xs = g # gs) \<and> divides s xs span \<and> (\<forall>x\<in>set xs. powered s x)"
proof -
  have "links n (xs @ [hd xs]) \<longleftrightarrow> links n xs \<and> n (List.last xs) = Some (hd xs)" if "xs \<noteq> []" for n
    using that links_append [of n "butlast xs" "List.last xs" "[hd xs]"] links_append [of n "butlast xs" "List.last xs" "[]"]
    by (simp flip: append.assoc) (metis append_butlast_last_id append.assoc append_Cons append_Nil)
  moreover have "sg_cpus (sgs s x) \<inter> {0..<nr_cpus (ker s)} \<noteq> {} \<longleftrightarrow> sg_cpus (sgs s x) \<noteq> {}"
    if "x \<in> set xs" "(\<Union>x\<in>set xs. sg_cpus (sgs s x)) = span" for x
    using that assms by auto
  ultimately show ?thesis
    unfolding clean_walk_def divides_def ring_def
    by (cases xs) auto
qed


text \<open>C10: The kernel's own check of a domain is exact. For a domain that balances the load and whose span
  lies within the machine, the check prints no complaint exactly when the domain is sound: its groups
  form a circular list from the one it points to, which has the CPU; they are not empty, share no
  CPU and together are the span of the domain; all have a power; and the span of the parent contains that
  of the domain. In particular the check ends on every sound domain.\<close>

theorem sched_domain_debug_exact:
  assumes "sd_flags (sds s a) AND SD_LOAD_BALANCE \<noteq> 0" "sd_span (sds s a) \<subseteq> {0..<nr_cpus (ker s)}"
  shows "sched_domain_debug_one a c s = Some (0, s) \<longleftrightarrow> sound_domain s a c"
proof
  assume run: "sched_domain_debug_one a c s = Some (0, s)"
  obtain g where g: "sd_groups (sds s a) = Some g"
    using run assms(1) by (cases "sd_groups (sds s a)") (auto simp: sched_domain_debug_one_def Let_def)
  define m1 where "m1 = (if c \<notin> sd_span (sds s a) then [''domain->span does not contain CPU''] else [])"
  define m2 where "m2 = (if c \<notin> sg_cpus (sgs s g) then [''domain->groups does not contain CPU''] else [])"
  define s2 where "s2 = s\<lparr>klog := klog s @ m1 @ m2\<rparr>"
  obtain m msgs where walk: "debug_groups s2 (Some g) (Some g) {} = Some (m, msgs)"
    using run assms(1) g by (cases "debug_groups s2 (Some g) (Some g) {}")
      (auto simp: sched_domain_debug_one_def Let_def m1_def [symmetric] m2_def [symmetric] s2_def [symmetric])
  define m3 where "m3 = (if sd_span (sds s a) \<noteq> m then [''groups do not span domain->span''] else [])"
  define m4 where "m4 = (case sd_parent (sds s a) of None \<Rightarrow> []
     | Some p \<Rightarrow> if \<not> m \<subseteq> sd_span (sds s p) then [''parent span is not a superset of domain->span''] else [])"
  have "sched_domain_debug_one a c s = Some (0, s\<lparr>klog := klog s @ m1 @ m2 @ msgs @ m3 @ m4\<rparr>)"
    using assms(1) g walk unfolding s2_def m1_def m2_def m3_def m4_def
    by (simp add: sched_domain_debug_one_def Let_def split del: if_split cong: option.case_cong)
  then have "s = s\<lparr>klog := klog s @ m1 @ m2 @ msgs @ m3 @ m4\<rparr>" using run by simp
  then have "klog s = klog (s\<lparr>klog := klog s @ m1 @ m2 @ msgs @ m3 @ m4\<rparr>)" by (rule arg_cong)
  then have quiet: "m1 = []" "m2 = []" "msgs = []" "m3 = []" "m4 = []" by simp_all
  then have here: "c \<in> sd_span (sds s a)" "c \<in> sg_cpus (sgs s g)" "m = sd_span (sds s a)" "s2 = s"
    by (simp_all add: m1_def m2_def m3_def s2_def split: if_splits)
  then have walk_s: "debug_groups s (Some g) (Some g) {} = Some (m, [])" using walk quiet(3) by simp
  then obtain xs where xs: "clean_walk s (Some g) (Some g) {} xs" using debug_groups_walk by blast
  then have "(\<Union>x\<in>set xs. sg_cpus (sgs s x)) = sd_span (sds s a)"
    using debug_groups_clean [OF xs] walk_s here(3) by simp
  then obtain gs where "xs = g # gs" "divides s xs (sd_span (sds s a))" "\<forall>x\<in>set xs. powered s x"
    using clean_walk_divides [OF assms(2), of g xs] xs by blast
  moreover have "\<forall>p. sd_parent (sds s a) = Some p \<longrightarrow> sd_span (sds s a) \<subseteq> sd_span (sds s p)"
    using quiet(5) here(3) by (auto simp: m4_def split: if_splits)
  ultimately show "sound_domain s a c" using g here(2) unfolding sound_domain_def by blast
next
  assume "sound_domain s a c"
  then obtain g gs where g: "sd_groups (sds s a) = Some g" "divides s (g # gs) (sd_span (sds s a))"
    "\<forall>x\<in>set (g # gs). powered s x" "c \<in> sg_cpus (sgs s g)"
    "\<forall>p. sd_parent (sds s a) = Some p \<longrightarrow> sd_span (sds s a) \<subseteq> sd_span (sds s p)"
    unfolding sound_domain_def by blast
  then have w: "clean_walk s (Some g) (Some g) {} (g # gs)" "(\<Union>x\<in>set (g # gs). sg_cpus (sgs s x)) = sd_span (sds s a)"
    using clean_walk_divides [OF assms(2), of g "g # gs"] by blast+
  then have "debug_groups s (Some g) (Some g) {} = Some (sd_span (sds s a), [])"
    using debug_groups_clean [OF w(1)] by simp
  moreover have "c \<in> sd_span (sds s a)" using g(4) w(2) by auto
  ultimately show "sched_domain_debug_one a c s = Some (0, s)"
    using assms(1) g by (auto simp: sched_domain_debug_one_def Let_def split: option.splits)
qed


section \<open>Removing what does not contribute\<close>

text \<open>A chain of domains, linked in both directions; \<open>ch\<close> is the child of its first domain.\<close>

fun dchain :: "dstate \<Rightarrow> addr option \<Rightarrow> addr option \<Rightarrow> addr list \<Rightarrow> bool" where
  "dchain s ch sd [] \<longleftrightarrow> sd = None"
| "dchain s ch sd (a # as) \<longleftrightarrow> sd = Some a \<and> sd_child (sds s a) = ch \<and> dchain s (Some a) (sd_parent (sds s a)) as"

text \<open>What is left of a chain: a parent that \<open>R\<close> calls redundant goes.\<close>

fun keep :: "(addr \<Rightarrow> addr \<Rightarrow> bool) \<Rightarrow> addr list \<Rightarrow> addr list" where
  "keep R (a # b # bs) = (if R a b then keep R (a # bs) else a # keep R (b # bs))"
| "keep R as = as"

fun gone :: "(addr \<Rightarrow> addr \<Rightarrow> bool) \<Rightarrow> addr list \<Rightarrow> addr list" where
  "gone R (a # b # bs) = (if R a b then b # gone R (a # bs) else gone R (b # bs))"
| "gone R as = []"

lemma keep_Cons: "\<exists>bs. keep R (a # as) = a # bs"
  by (induction R "a # as" arbitrary: a as rule: keep.induct) auto

lemma keep_mset: "mset (keep R as) + mset (gone R as) = mset as"
  by (induction R as rule: keep.induct) auto

lemma keep_subseq: "subseq (keep R as) as"
proof (induction R as rule: keep.induct)
  case (1 R a b bs)
  show ?case
  proof (cases "R a b")
    case True
    have "subseq (a # bs) (a # b # bs)" by (simp add: list_emb_Cons)
    from subseq_order.trans [OF 1(1) [OF True] this] show ?thesis using True by simp
  qed (use 1(2) in auto)
qed auto

lemma keep_succ: "successively (\<lambda>a b. \<not> R a b) (keep R as)"
proof (induction R as rule: keep.induct)
  case (1 R a b bs)
  then show ?case using keep_Cons [of R b bs] by (cases "R a b") auto
qed auto

text \<open>Only pointers along the chain and the list of destroyed domains change.\<close>

definition relinked :: "addr set \<Rightarrow> dstate \<Rightarrow> dstate \<Rightarrow> bool" where
  "relinked X s s' \<longleftrightarrow>
     ker s' = ker s \<and> sgs s' = sgs s \<and> sgps s' = sgps s \<and> rq_sd s' = rq_sd s \<and> klog s' = klog s \<and> live s' = live s \<and>
     sd_llc s' = sd_llc s \<and> sd_llc_id s' = sd_llc_id s \<and>
     sched_domain_debug_enabled s' = sched_domain_debug_enabled s \<and>
     (\<forall>x. sd_groups (sds s' x) = sd_groups (sds s x) \<and> sd_flags (sds s' x) = sd_flags (sds s x) \<and>
          sd_span (sds s' x) = sd_span (sds s x)) \<and>
     (\<forall>x. x \<notin> X \<longrightarrow> sd_parent (sds s' x) = sd_parent (sds s x) \<and> sd_child (sds s' x) = sd_child (sds s x))"

lemma relinked_refl [simp]: "relinked X s s"
  by (simp add: relinked_def)

lemma relinked_trans: "relinked X s s' \<Longrightarrow> relinked X s' s'' \<Longrightarrow> relinked X s s''"
  by (simp add: relinked_def)

lemma relinked_mono: "relinked X s s' \<Longrightarrow> X \<subseteq> Z \<Longrightarrow> relinked Z s s'"
  unfolding relinked_def by (elim conjE, intro conjI) blast+

lemma relinked_degenerate:
  assumes "relinked X s s'"
  shows "sd_degenerate s' a = sd_degenerate s a" "sd_parent_degenerate D s' a p = sd_parent_degenerate D s a p"
proof -
  show *: "sd_degenerate s' a = sd_degenerate s a" for a
    using assms by (simp add: relinked_def sd_degenerate_def cpumask_weight_def)
  show "sd_parent_degenerate D s' a p = sd_parent_degenerate D s a p"
    using assms by (simp add: sd_parent_degenerate_def * relinked_def cong: if_cong)
qed

lemma dchain_relinked:
  assumes "relinked X s s'" "X \<inter> set as = {}"
  shows "dchain s' ch sd as = dchain s ch sd as"
  using assms(2) by (induction as arbitrary: ch sd) (use assms(1) in \<open>auto simp: relinked_def\<close>)

lemma dchain_sds: "sds s' = sds s \<Longrightarrow> dchain s' ch sd as = dchain s ch sd as"
  by (induction as arbitrary: ch sd) auto

text \<open>With groups in place no test of a domain crashes.\<close>

lemma degenerate_total:
  assumes "sd_groups (sds s p) \<noteq> None"
  shows "\<exists>b. sd_degenerate s p = Some b" "\<exists>b. sd_parent_degenerate D s a p = Some b"
    "sd_degenerate s p = Some True \<Longrightarrow> sd_parent_degenerate D s a p = Some True"
proof -
  show *: "\<exists>b. sd_degenerate s p = Some b" using assms by (auto simp: sd_degenerate_def)
  then show "\<exists>b. sd_parent_degenerate D s a p = Some b" "sd_degenerate s p = Some True \<Longrightarrow> sd_parent_degenerate D s a p = Some True"
    using assms by (auto simp: sd_parent_degenerate_def Let_def)
qed


abbreviation redundant :: "denv \<Rightarrow> dstate \<Rightarrow> addr \<Rightarrow> addr \<Rightarrow> bool" where
  "redundant D s \<equiv> (\<lambda>x y. sd_parent_degenerate D s x y = Some True)"

lemma collapse_parents_ok:
  assumes "dchain s ch (Some a) (a # as)" "distinct (a # as)" "\<forall>x\<in>set as. sd_groups (sds s x) \<noteq> None"
  shows "\<exists>s'. collapse_parents D a s = Some s' \<and> dchain s' ch (Some a) (keep (redundant D s) (a # as)) \<and>
     relinked (set (a # as)) s s' \<and> sd_child (sds s' a) = sd_child (sds s a) \<and>
     rcu_sds s' = rcu_sds s @ gone (redundant D s) (a # as)"
  using assms
proof (induction as arbitrary: a ch s)
  case Nil
  then show ?case by (subst collapse_parents.simps) simp
next
  case (Cons b bs)
  let ?R = "redundant D s"
  have par: "sd_parent (sds s a) = Some b" "sd_child (sds s b) = Some a" using Cons.prems(1) by auto
  obtain deg where deg: "sd_parent_degenerate D s a b = Some deg"
    using degenerate_total(2) [of s b D a] Cons.prems(3) by auto
  have same_R: "redundant D t = ?R" if "relinked X s t" for X t
    using relinked_degenerate(2) [OF that] by presburger
  show ?case
  proof (cases deg)
    case True
    define s1 where "s1 = upd_sd a (\<lambda>x. x\<lparr>sd_parent := sd_parent (sds s b)\<rparr>) s"
    define s2 where "s2 = (case sd_parent (sds s b) of None \<Rightarrow> s1 | Some q \<Rightarrow> upd_sd q (\<lambda>x. x\<lparr>sd_child := Some a\<rparr>) s1)"
    define s3 where "s3 = destroy_sched_domain b s2"
    have run: "collapse_parents D a s = collapse_parents D a s3"
      using par deg True by (subst collapse_parents.simps) (simp add: s3_def s2_def s1_def Let_def cong: option.case_cong)
    have q: "sd_parent (sds s b) = (case bs of [] \<Rightarrow> None | q # _ \<Rightarrow> Some q)" using Cons.prems(1) by (cases bs) auto
    have rel: "relinked (set (a # b # bs)) s s3"
      by (cases bs) (auto simp: relinked_def s3_def s2_def s1_def destroy_sched_domain_def q)
    have here: "sd_child (sds s3 a) = sd_child (sds s a)" "sd_parent (sds s3 a) = sd_parent (sds s b)" "rcu_sds s3 = rcu_sds s @ [b]"
      using Cons.prems(2) by (cases bs; auto simp: s3_def s2_def s1_def destroy_sched_domain_def q)+
    have rest: "dchain s3 (Some a) (sd_parent (sds s b)) bs"
    proof (cases bs)
      case (Cons r rs)
      have "relinked {a, r} s s3" using Cons by (auto simp: relinked_def s3_def s2_def s1_def destroy_sched_domain_def q)
      then have "dchain s3 (Some r) (sd_parent (sds s r)) rs = dchain s (Some r) (sd_parent (sds s r)) rs"
        using Cons.prems(2) Cons by (intro dchain_relinked) auto
      then show ?thesis
        using Cons Cons.prems(1,2) by (auto simp: s3_def s2_def s1_def destroy_sched_domain_def q)
    qed (use q in simp)
    have ch3: "dchain s3 ch (Some a) (a # bs)" using rest here Cons.prems(1) by simp
    have "\<forall>x\<in>set bs. sd_groups (sds s3 x) \<noteq> None" using Cons.prems(3) rel by (simp add: relinked_def)
    then obtain s' where s': "collapse_parents D a s3 = Some s'" "dchain s' ch (Some a) (keep ?R (a # bs))"
      "relinked (set (a # bs)) s3 s'" "sd_child (sds s' a) = sd_child (sds s3 a)" "rcu_sds s' = rcu_sds s3 @ gone ?R (a # bs)"
      using Cons.IH [OF ch3] Cons.prems(2) same_R [OF rel] by auto
    have "relinked (set (a # b # bs)) s s'"
      by (rule relinked_trans [OF rel]) (rule relinked_mono [OF s'(3)], auto)
    then show ?thesis using run s' deg True here by (intro exI [of _ s']) auto
  next
    case False
    obtain s' where s': "collapse_parents D b s = Some s'" "dchain s' (Some a) (Some b) (keep ?R (b # bs))"
      "relinked (set (b # bs)) s s'" "rcu_sds s' = rcu_sds s @ gone ?R (b # bs)"
      using Cons.IH [of s "Some a" b] Cons.prems by auto
    have "collapse_parents D a s = Some s'"
      using par deg False s'(1) by (subst collapse_parents.simps) simp
    moreover have a: "sd_parent (sds s' a) = Some b" "sd_child (sds s' a) = sd_child (sds s a)"
      using s'(3) Cons.prems(2) par by (auto simp: relinked_def)
    moreover have "relinked (set (a # b # bs)) s s'" by (rule relinked_mono [OF s'(3)]) auto
    ultimately show ?thesis using s'(2,4) deg False Cons.prems(1) by (intro exI [of _ s']) auto
  qed
qed


section \<open>Attaching\<close>

lemma destroy_chain: "dchain s ch sd as \<Longrightarrow> destroy_sched_domains sd s = Some (s\<lparr>rcu_sds := rcu_sds s @ as\<rparr>)"
proof (induction as arbitrary: ch sd s)
  case Nil
  then show ?case by (subst destroy_sched_domains.simps) simp
next
  case (Cons a as)
  have "dchain (destroy_sched_domain a s) (Some a) (sd_parent (sds s a)) as"
    using Cons.prems dchain_relinked [of "{}" s "destroy_sched_domain a s" as]
    by (simp add: relinked_def destroy_sched_domain_def)
  then have "destroy_sched_domains (sd_parent (sds s a)) (destroy_sched_domain a s) =
      Some ((destroy_sched_domain a s)\<lparr>rcu_sds := rcu_sds (destroy_sched_domain a s) @ as\<rparr>)" by (rule Cons.IH)
  then show ?case using Cons.prems by (subst destroy_sched_domains.simps) (simp add: destroy_sched_domain_def)
qed

lemma highest_flag_chain:
  "dchain s ch sd as \<Longrightarrow> highest_flag_domain s sd flag hsd =
     Some (let us = takeWhile (\<lambda>a. sd_flags (sds s a) AND flag \<noteq> 0) as in if us = [] then hsd else Some (List.last us))"
proof (induction as arbitrary: ch sd hsd)
  case Nil
  then show ?case by (subst highest_flag_domain.simps) simp
next
  case (Cons a as)
  then show ?case by (subst highest_flag_domain.simps) (auto simp: Let_def)
qed

lemma successively_pred: "successively P (a # bs) \<Longrightarrow> y \<in> set bs \<Longrightarrow> \<exists>x. P x y"
  by (induction bs arbitrary: a) auto

lemma drop_base_ok:
  assumes "dchain s None (Some a) (a # bs)" "distinct (a # bs)" "sd_groups (sds s a) \<noteq> None"
  shows "\<exists>sd s' cs ds. drop_base (Some a) s = Some (sd, s') \<and> dchain s' None sd cs \<and> relinked (set bs) s s' \<and>
     rcu_sds s' = rcu_sds s @ ds \<and> ds @ cs = a # bs \<and> ds = (if sd_degenerate s a = Some True then [a] else [])"
proof -
  obtain deg where deg: "sd_degenerate s a = Some deg" using degenerate_total(1) [OF assms(3)] by blast
  show ?thesis
  proof (cases deg)
    case False
    then show ?thesis using assms deg by (intro exI [of _ "Some a"] exI [of _ s] exI [of _ "a # bs"] exI [of _ "[]"])
      (simp add: drop_base_def)
  next
    case True
    define s1 where "s1 = destroy_sched_domain a s"
    define s2 where "s2 = (case sd_parent (sds s a) of None \<Rightarrow> s1 | Some q \<Rightarrow> upd_sd q (\<lambda>x. x\<lparr>sd_child := None\<rparr>) s1)"
    have par: "sd_parent (sds s a) = (case bs of [] \<Rightarrow> None | q # _ \<Rightarrow> Some q)" using assms(1) by (cases bs) auto
    have run: "drop_base (Some a) s = Some (sd_parent (sds s a), s2)"
      using deg True by (simp add: drop_base_def Let_def s2_def s1_def cong: option.case_cong)
    have ch: "dchain s2 None (sd_parent (sds s a)) bs"
    proof (cases bs)
      case (Cons q qs)
      have "relinked {q} s s2" using Cons by (auto simp: relinked_def s2_def s1_def destroy_sched_domain_def par)
      then have "dchain s2 (Some q) (sd_parent (sds s q)) qs = dchain s (Some q) (sd_parent (sds s q)) qs"
        using assms(2) Cons by (intro dchain_relinked) auto
      then show ?thesis using Cons assms(1) by (auto simp: s2_def s1_def destroy_sched_domain_def par)
    qed (use par in simp)
    have "relinked (set bs) s s2" "rcu_sds s2 = rcu_sds s @ [a]"
      by (cases bs; auto simp: relinked_def s2_def s1_def destroy_sched_domain_def par)+
    then show ?thesis using run ch deg True
      by (intro exI [of _ "sd_parent (sds s a)"] exI [of _ s2] exI [of _ bs] exI [of _ "[a]"]) simp
  qed
qed


text \<open>The groups of the sample: one of each CPU, on both levels.\<close>

definition sample_grouped :: dstate where
  "sample_grouped = sample_domains\<lparr>
     sds := (\<lambda>a. (sds sample_domains a)\<lparr>sd_groups := Some a\<rparr>),
     sgs := (\<lambda>g. zero_sg\<lparr>sg_next := (if g < 2 then Some g else Some (5 - g)), sg_sgp := Some g, sg_cpus := {g mod 2}\<rparr>),
     sgps := (\<lambda>_. zero_sgp\<lparr>sgp_power := 1024\<rparr>)\<rparr>"

lemmas sample_grouped_unfold = sample_grouped_def sample_domains_def zero_sd_def zero_sg_def zero_sgp_def
  sd_flag_defs bss_defs

lemma sample_grouped_sound: "sound_domain sample_grouped 2 0"
proof -
  have "divides sample_grouped [2, 3] {0, 1}"
    by (auto simp: divides_def ring_def sample_grouped_unfold)
  moreover have "powered sample_grouped g" for g by (simp add: powered_def sample_grouped_unfold)
  moreover have "sd_groups (sds sample_grouped 2) = Some 2" "sd_span (sds sample_grouped 2) = {0, 1}"
    "0 \<in> sg_cpus (sgs sample_grouped 2)" "sd_parent (sds sample_grouped 2) = None"
    by (simp_all add: sample_grouped_unfold)
  ultimately show ?thesis unfolding sound_domain_def by (metis option.distinct(1))
qed

theorem sched_domain_debug_exact_witness:
  "sched_domain_debug_one 2 0 sample_grouped = Some (0, sample_grouped)"
  using sched_domain_debug_exact [of sample_grouped 2 0] sample_grouped_sound by (simp add: sample_grouped_unfold)


end
