(* ===== verification/Sched_Partition_Spec.thy ===== *)
theory Sched_Partition_Spec
  imports Sched_Attach_Spec
begin

text \<open>
  Exchanging the partition of the CPUs: \<open>partition_sched_domains\<close> tears down what is no longer wanted
  and builds what is new, and nothing else.
\<close>

section \<open>What the loops match\<close>

text \<open>A domain of a partition is its mask with its relax level; one without attributes has the default.\<close>

definition entries :: "cpu set list \<Rightarrow> int list option \<Rightarrow> (cpu set \<times> int) list" where
  "entries ms attr = map (\<lambda>(m, i). (m, case attr of None \<Rightarrow> SD_ATTR_INIT | Some xs \<Rightarrow> xs ! i)) (indexed ms)"

fun each :: "('e \<Rightarrow> dstate \<Rightarrow> dstate option) \<Rightarrow> 'e list \<Rightarrow> dstate \<Rightarrow> dstate option" where
  "each f [] s = Some s"
| "each f (x # xs) s = Option.bind (f x s) (each f xs)"

lemma dattrs_equal_iff:
  "dattrs_equal cur i new j \<longleftrightarrow>
     (case cur of None \<Rightarrow> SD_ATTR_INIT | Some xs \<Rightarrow> xs ! i) = (case new of None \<Rightarrow> SD_ATTR_INIT | Some xs \<Rightarrow> xs ! j)"
  by (auto simp: dattrs_equal_def)

text \<open>\<open>idx\<close> is any list of masks with their indices.\<close>

definition entry :: "int list option \<Rightarrow> cpu set \<times> nat \<Rightarrow> cpu set \<times> int" where
  "entry attr e = (fst e, case attr of None \<Rightarrow> SD_ATTR_INIT | Some xs \<Rightarrow> xs ! snd e)"

lemma matches: "list_ex (\<lambda>(m', j). \<not> b \<and> m = m' \<and> dattrs_equal d1 i d2 j) idx \<longleftrightarrow> \<not> b \<and> entry d1 (m, i) \<in> set (map (entry d2) idx)"
proof -
  have "list_ex (\<lambda>(m', j). \<not> b \<and> m = m' \<and> dattrs_equal d1 i d2 j) idx \<longleftrightarrow>
      (\<exists>x\<in>set idx. \<not> b \<and> entry d1 (m, i) = entry d2 x)"
    unfolding list_ex_iff by (rule bex_cong [OF refl]) (simp add: dattrs_equal_iff entry_def split_beta split: option.split)
  then show ?thesis by auto
qed

lemma destroy_loop_each:
  "destroy_loop D cur new dcur dnew s =
     each (\<lambda>e. detach_destroy_domains D (fst e))
       (filter (\<lambda>e. arch_topology_changed D \<or> e \<notin> set (map (entry dnew) new)) (map (entry dcur) cur)) s"
proof (induction cur arbitrary: s)
  case (Cons x cur)
  obtain m i where x: "x = (m, i)" by (cases x)
  have IH: "destroy_loop D cur new dcur dnew = each (\<lambda>e. detach_destroy_domains D (fst e))
      (filter (\<lambda>e. arch_topology_changed D \<or> e \<notin> set (map (entry dnew) new)) (map (entry dcur) cur))"
    by (rule ext) (rule Cons.IH)
  have "fst (entry dcur x) = m" by (simp add: entry_def x)
  then show ?case
    by (simp only: destroy_loop.simps x matches list.map filter.simps each.simps IH) (simp del: set_map)
qed simp

definition build_entry :: "denv \<Rightarrow> bool \<Rightarrow> cpu set \<times> int \<Rightarrow> dstate \<Rightarrow> dstate option" where
  "build_entry D has_attr e s = map_option snd (build_sched_domains D (fst e) (if has_attr then Some (snd e) else None) s)"

lemma create_loop_each:
  "create_loop D new cur dnew dcur s =
     each (build_entry D (dnew \<noteq> None))
       (filter (\<lambda>e. arch_topology_changed D \<or> e \<notin> set (map (entry dcur) cur)) (map (entry dnew) new)) s"
proof (induction new arbitrary: s)
  case (Cons x new)
  obtain m i where x: "x = (m, i)" by (cases x)
  have "do { (_, s) \<leftarrow> build_sched_domains D m (map_option (\<lambda>xs. xs ! i) dnew) s; Some s } = build_entry D (dnew \<noteq> None) (entry dnew x) s" for s
    by (cases dnew; cases "build_sched_domains D m (map_option (\<lambda>xs. xs ! i) dnew) s") (auto simp: build_entry_def entry_def x)
  moreover have "create_loop D new cur dnew dcur = each (build_entry D (dnew \<noteq> None))
      (filter (\<lambda>e. arch_topology_changed D \<or> e \<notin> set (map (entry dcur) cur)) (map (entry dnew) new))"
    by (rule ext) (rule Cons.IH)
  ultimately show ?case
    by (simp only: create_loop.simps x matches list.map filter.simps each.simps) (simp del: set_map)
qed simp

section \<open>Tearing down leaves the partition's description alone\<close>

definition desc :: "dstate \<Rightarrow> cpu set list \<times> nat \<times> int list option \<times> cpu set" where
  "desc s = (doms_cur s, ndoms_cur s, dattr_cur s, cpu_isolated_map s)"

lemma destroy_sched_domains_desc:
  assumes "destroy_sched_domains sd s = Some s'"
  shows "desc s' = desc s"
proof (rule destroy_sched_domains.raw_induct [OF _ assms, where P = "\<lambda>sd s s'. desc s' = desc s"])
  fix f sd s s'
  assume "\<And>sd s s'. f sd s = Some s' \<Longrightarrow> desc s' = desc s"
    "(case sd of None \<Rightarrow> Some s | Some a \<Rightarrow> f (sd_parent (sds s a)) (destroy_sched_domain a s)) = Some s'"
  then show "desc s' = desc s" by (cases sd) (auto simp: desc_def destroy_sched_domain_def)
qed

lemma detach_desc: "attach_all D (\<lambda>_. None) d cs s = Some s' \<Longrightarrow> desc s' = desc s"
proof (induction cs arbitrary: s)
  case (Cons c cs)
  obtain s1 where s1: "cpu_attach_domain D None d c s = Some s1" "attach_all D (\<lambda>_. None) d cs s1 = Some s'"
    using Cons.prems by (auto simp: bind_eq_Some_conv)
  have "desc s1 = desc s"
    using s1(1) destroy_sched_domains_desc
    by (fastforce simp: cpu_attach_domain_def drop_base_def sched_domain_debug_def update_top_cache_domain_def
      Let_def desc_def bind_eq_Some_conv split: if_splits)
  then show ?case using Cons.IH [OF s1(2)] by simp
qed simp

lemma each_desc:
  assumes "\<And>e s s'. f e s = Some s' \<Longrightarrow> desc s' = desc s"
  shows "each f es s = Some s' \<Longrightarrow> desc s' = desc s"
proof (induction es arbitrary: s)
  case (Cons e es)
  obtain s1 where "f e s = Some s1" "each f es s1 = Some s'" using Cons.prems by (auto simp: bind_eq_Some_conv)
  then show ?case using assms Cons.IH by metis
qed simp

lemma entries: "map (entry attr) (indexed ms) = entries ms attr"
  by (simp add: entries_def entry_def split_beta)

text \<open>A domain of one partition that is also in the other is left as it is, unless the topology changed.\<close>

definition reused :: "denv \<Rightarrow> (cpu set \<times> int) list \<Rightarrow> cpu set \<times> int \<Rightarrow> bool" where
  "reused D es e \<longleftrightarrow> \<not> arch_topology_changed D \<and> e \<in> set es"

lemma entries_Nil [simp]: "entries [] attr = []"
  by (simp add: entries_def)

lemma detach_destroy_desc: "detach_destroy_domains D m s = Some s' \<Longrightarrow> desc s' = desc s"
  by (auto simp: detach_destroy_domains_def detach_desc)

lemma detached_desc:
  assumes "each (\<lambda>e. detach_destroy_domains D (fst e)) es s = Some s'"
  shows "doms_cur s' = doms_cur s" "ndoms_cur s' = ndoms_cur s" "dattr_cur s' = dattr_cur s"
    "cpu_isolated_map s' = cpu_isolated_map s"
  using each_desc [OF detach_destroy_desc assms] by (auto simp: desc_def)

text \<open>C12: Exchanging the partition touches only what differs. partition_sched_domains with a list of masks is
  the same as tearing down, in order, the current domains that are not in the new partition and then
  building, in order, the new domains that are not in the current one, where domains are the same if
  their masks and relax levels are; when the topology has changed, all are torn down and built. The
  new partition is recorded. Without a list, all current domains are torn down and, if one is asked
  for, a single domain of the active CPUs that are not isolated is built.\<close>

theorem partition_sched_domains_exchange:
  "(partition_sched_domains D n (Some ms) attr s = (
     let old = entries (take (ndoms_cur s) (doms_cur s)) (dattr_cur s); new = entries (take n ms) attr in do {
     s \<leftarrow> each (\<lambda>e. detach_destroy_domains D (fst e)) (filter (\<lambda>e. \<not> reused D new e) old) s;
     s \<leftarrow> each (build_entry D (attr \<noteq> None)) (filter (\<lambda>e. \<not> reused D old e) new) s;
     Some (s\<lparr>doms_cur := take n ms, doms_cur_fallback := False, dattr_cur := attr, ndoms_cur := n\<rparr>)
   })) \<and>
  (partition_sched_domains D n None attr s = (
     let old = entries (take (ndoms_cur s) (doms_cur s)) (dattr_cur s) in do {
     s \<leftarrow> each (\<lambda>e. detach_destroy_domains D (fst e)) old s;
     let m = cpu_active (ker s) - cpu_isolated_map s;
     let ms = take n [m];
     s \<leftarrow> each (build_entry D (attr \<noteq> None)) (entries ms attr) (s\<lparr>ndoms_cur := 0, fallback_doms := m\<rparr>);
     Some (s\<lparr>doms_cur := ms, doms_cur_fallback := True, dattr_cur := attr, ndoms_cur := n\<rparr>)
   }))" (is "?masks \<and> ?fallback")
proof
  show ?masks
    by (cases "each (\<lambda>e. detach_destroy_domains D (fst e))
                 (filter (\<lambda>e. arch_topology_changed D \<or> e \<notin> set (entries (take n ms) attr))
                   (entries (take (ndoms_cur s) (doms_cur s)) (dattr_cur s))) s")
      (simp_all add: partition_sched_domains_def destroy_loop_each create_loop_each entries detached_desc reused_def Let_def
        del: upt_Suc length_take set_map)
  show ?fallback
    by (cases "each (\<lambda>e. detach_destroy_domains D (fst e)) (entries (take (ndoms_cur s) (doms_cur s)) (dattr_cur s)) s")
      (simp_all add: partition_sched_domains_def destroy_loop_each create_loop_each entries detached_desc reused_def Let_def
        del: upt_Suc length_take set_map)
qed

end
