(* ===== verification/Spec2Isabelle.thy ===== *)
theory Spec2Isabelle
  imports Wrr_RMLFQ_Spec Wrr_Group_Spec Core_Load_Spec Core_Migrate Core_Wrr_Spec
    Rt_Class Rt_Bandwidth_Spec Core_Group_Tree Core_Wait_Spec Core_Cputime_Spec Core_Init_Spec
    Sched_Partition_Spec
begin

text \<open>
  A model of a Linux 3.4 scheduler (Android, 32-bit ARM) with an added weighted round robin
  class. Source paths below are relative to \<open>src/Source Code/\<close>.

  \<open>The program.\<close> \<open>Basic/src/kernel/core.c\<close> is the class-independent core: it keeps a run-queue per
  CPU and dispatches every decision over a chain of scheduling classes (stop, RT, WRR, fair,
  idle), each a table of functions. \<open>Basic/src/kernel/rt.c\<close> is the RT class,
  \<open>Basic/src/kernel/wrr_basic.c\<close> the new WRR class, and \<open>Bonus/RevisedWRR/\<close> holds two variants of
  the WRR class: \<open>wrr_RMLFQ.c\<close> moves tasks between stages at random, \<open>wrr_group.c\<close> queues task
  groups as entities. \<open>sched.h\<close> (two files of that name) declare the data. The stop, fair and
  idle classes are not in the repository.

  \<open>The state.\<close> \<open>Kernel_State\<close> has one record per struct: \<open>task_struct\<close> with its three entities,
  \<open>rq\<close>, \<open>wrr_rq\<close>, \<open>rt_rq\<close>, \<open>task_group\<close>, and \<open>kst\<close>, the whole kernel state. Pointers are
  references (task numbers, CPU numbers, \<open>se_ref\<close>, \<open>rq_ref\<close>); linked lists are \<open>Klist\<close>, which
  keeps for every head the list of its entries and for every entry its head, so that adding a
  linked entry is seen. Words have the target's width: \<open>unsigned long\<close> is 32 bits. A C \<open>int\<close> is
  an \<open>int\<close> where the code bounds it.

  \<open>Operations\<close> are state transformers named as in C (\<open>f0\<close> or \<open>f1\<close> for \<open>__f\<close> and \<open>_f\<close>, \<open>calc_f\<close> where the
  name is taken, suffix \<open>_m\<close> and \<open>_g\<close> for the two variants). The value \<open>None\<close> is a crash: \<open>BUG()\<close>, a
  NULL dereference, a read outside a table, corruption of a list, and also a loop that does not
  end. Loops that follow pointers or repeat until a condition holds are \<open>partial_function\<close>s, so
  theorems that say a result exists also say that the loops end; no fuel is used. Code outside
  the repository is a field of \<open>env\<close> (accounting groups, group paths, random bytes), of \<open>kenv\<close> (the
  class tables, clocks, credentials, limits, cpupri, the domains the RT class sees) or of the environment of one
  theory; calls that only have effects there are recorded in \<open>trace\<close>. Locks are not modelled: an
  operation runs as it does with its locks held, and where \<open>double_lock_balance\<close> or a sleeper
  drops one, the environment says what the others did meanwhile.

  \<open>Theories.\<close>
  \<open>Prelude\<close>, \<open>Klist\<close>, \<open>Sched_Defs\<close>, \<open>Kernel_State\<close>: words, bitmaps, lists, constants, the state.
  \<open>Prio_Array\<close>: the abstract priority array (\<open>pa_enq\<close>, \<open>pa_deq\<close>, \<open>pa_requeue\<close>, \<open>pa_pick\<close>) and its laws.
  \<open>Wrr_Queue\<close>: \<open>wrr_rq\<close> with its initialisation, the invariant \<open>wrr_inv\<close> (lists well formed, every
  queued task on the level and CPU its fields say, bitmap and count agree with the lists) and
  the abstraction \<open>wrr_view\<close> to a priority array. \<open>Class_Run\<close>: runs of a class under the core's
  protocol, with the locale \<open>safe_class\<close>; \<open>Safe_Run\<close>: the same for any table of events.
  \<open>Wrr_Basic\<close>, \<open>Wrr_RMLFQ\<close>, \<open>Wrr_Group\<close>: the three WRR classes; the theories \<open>\<dots>_Spec\<close> beside them
  prove that their operations implement the priority array, that runs from boot never crash,
  and what ticks, preemption tests and stage draws do.
  \<open>Core_Queue\<close>: clocks, weights, activation, \<open>pick_next_task\<close>, \<open>check_preempt_curr\<close>. \<open>Core_Setsched\<close>:
  priorities, nice and the policy system calls. \<open>Core_Wake\<close>: waking, forking. \<open>Core_Load\<close>: load
  averages. \<open>Core_Schedule\<close>: \<open>__schedule\<close>, the tick, yielding. \<open>Core_Migrate\<close>: affinity and hotplug.
  \<open>Core_Sched_Spec\<close>: dispatch order, round trips and error behaviour of the system calls, over the
  locale \<open>keeps_params\<close> (a class does not change a task's scheduling parameters), interpreted on
  the WRR class. \<open>Core_Wake_Spec\<close>: fallback CPUs, what waking and forking do to a WRR task.
  \<open>Core_Load_Spec\<close>: bounds and termination of the load arithmetic. \<open>Core_Wrr_Spec\<close>: core and WRR
  class together, up to the round robin of tick and \<open>__schedule\<close>.
  \<open>Rt_Queue\<close>, \<open>Rt_Bandwidth\<close>, \<open>Rt_Class\<close>: the RT class. \<open>Rt_Bandwidth_Spec\<close>: runtime is conserved under
  borrowing and CPU hotplug, so that reclaiming always succeeds.
  \<open>Core_Group\<close>: task groups, their RT and CFS bandwidth and the cpu cgroup (environment \<open>genv\<close>).
  \<open>Core_Group_Spec\<close>: the walk over the tree of groups is the recursive traversal; the admission test
  of RT bandwidth is exact. \<open>Core_Group_Tree\<close>: creating and destroying keeps the groups a tree.
  \<open>Core_Wait\<close>: wait queues and completions (environment \<open>wenv\<close>); \<open>Core_Wait_Spec\<close>: who is woken, and
  that waiting returns. \<open>Core_Cputime\<close>: CPU time and the cpuacct cgroup (environment \<open>aenv\<close>);
  \<open>Core_Cputime_Spec\<close>: ticks are accounted once, reported times never go back.
  \<open>Core_Hotplug\<close>: root domains, run-queues going online and offline, the hotplug notifiers, waiting for
  a task to leave its CPU. \<open>Core_Init\<close>: \<open>sched_init\<close> (environment \<open>ienv\<close>); \<open>Core_Init_Spec\<close>: booting
  establishes the invariants of the WRR class, of the tree of groups and of RT bandwidth.
  \<open>Sched_Domain\<close>, \<open>Sched_Topology\<close>: scheduler domains and their groups over the state \<open>dstate\<close>, which has
  the kernel state as its field \<open>ker\<close> (environment \<open>denv\<close>: the topology, which allocations succeed).
  \<open>Sched_Groups_Spec\<close>, \<open>Sched_Tree_Spec\<close>: the groups that are built divide the CPUs of every domain.
  \<open>Sched_Attach_Spec\<close>: what the check of a domain checks, which domains attaching a CPU keeps.
  \<open>Sched_Partition_Spec\<close>: exchanging the partition is taking away what goes and building what is new.

  \<open>Configuration.\<close> CONFIG_SMP, CONFIG_RT_GROUP_SCHED, CONFIG_CGROUP_SCHED,
  CONFIG_FAIR_GROUP_SCHED, CONFIG_CFS_BANDWIDTH and CONFIG_CGROUP_CPUACCT are on;
  CONFIG_IRQ_TIME_ACCOUNTING, CONFIG_VIRT_CPU_ACCOUNTING, CONFIG_PARAVIRT, CONFIG_SCHED_HRTICK and the
  debugging options are off, except that the check of scheduler domains (CONFIG_SCHED_DEBUG) is modelled; the
  topology options of scheduler domains are fields of \<open>denv\<close>.

  \<open>Not modelled.\<close> The \<open>SD_x_INIT\<close> values of other headers, sysctl, procfs and cgroup registration, which are
  glue around the state the model has; \<open>printk\<close> and tracing; the test and benchmark programs, which
  measure wall-clock time.
\<close>

end
